(* ===== verification/Prelude.thy ===== *)
theory Prelude
  imports Main
begin

text \<open>
  What every component shares: the error values of \<^verbatim>\<open>internal/cmd\<close>, the sequencing of
  fallible statements (Go's \<^verbatim>\<open>if err != nil { return err }\<close>), and the handful of SQL
  statements the commands are written in, over a table that is the list of its rows.

  The collections: \<open>sql_simps\<close> holds the equations for table statements, \<open>frame\<close> the
  equations saying which tables a helper leaves alone, \<open>pres\<close> the rules by which an
  invariant passes through a sequence of fallible statements.
\<close>

named_theorems sql_simps \<open>equations for table statements\<close>
named_theorems frame \<open>what a helper leaves unchanged\<close>
named_theorems pres \<open>rules that carry an invariant through fallible statements\<close>

section \<open>Errors\<close>

text \<open>
  \<open>Invalid\<close> is \<^verbatim>\<open>InputError\<close> with its message; the next seven are the sentinel errors;
  \<open>SqlNoRows\<close> is \<^verbatim>\<open>sql.ErrNoRows\<close> returned unchanged, \<open>SqlConstraint\<close> a statement
  the database refuses, \<open>PlainErr\<close> an error made with \<^verbatim>\<open>fmt.Errorf\<close> or
  \<^verbatim>\<open>errors.New\<close>, \<open>QuotedErr p a m\<close> and \<open>InvalidQuoted p a\<close> an error and an
  \<^verbatim>\<open>InputError\<close> whose text has the argument \<open>a\<close> in quotes (\<^verbatim>\<open>%q\<close>), and
  \<open>Wrapped\<close> one wrapped with a prefix (\<^verbatim>\<open>"%s: %w"\<close>).
\<close>

datatype go_error =
    Invalid string
  | ErrSlugTaken | ErrHandleTaken | ErrLoginDead | ErrNotFound
  | ErrGone | ErrLocked | ErrNotMember
  | SqlNoRows
  | SqlConstraint string
  | PlainErr string
  | QuotedErr string string string
  | InvalidQuoted string string
  | Wrapped string go_error

section \<open>Sequencing fallible statements\<close>

definition bindE :: "'e + 'a \<Rightarrow> ('a \<Rightarrow> 'e + 'b) \<Rightarrow> 'e + 'b" where
  "bindE m f = (case m of Inl e \<Rightarrow> Inl e | Inr x \<Rightarrow> f x)"

definition failIf :: "bool \<Rightarrow> 'e \<Rightarrow> 'e + 'b \<Rightarrow> 'e + 'b" where
  "failIf b e rest = (if b then Inl e else rest)"

lemma bindE_simps [simp]:
  "bindE (Inl e) f = Inl e"
  "bindE (Inr x) f = f x"
  by (simp_all add: bindE_def)

lemma bindE_Inr_iff: "bindE m f = Inr y \<longleftrightarrow> (\<exists>x. m = Inr x \<and> f x = Inr y)"
  by (cases m) auto

lemma bindE_Inl_iff: "bindE m f = Inl e \<longleftrightarrow> m = Inl e \<or> (\<exists>x. m = Inr x \<and> f x = Inl e)"
  by (cases m) auto

lemma failIf_simps [simp]:
  "failIf True e r = Inl e"
  "failIf False e r = r"
  by (simp_all add: failIf_def)

lemma failIf_Inr_iff: "failIf b e r = Inr y \<longleftrightarrow> \<not> b \<and> r = Inr y"
  by (simp add: failIf_def)

lemmas bind_iffs = bindE_Inr_iff bindE_Inl_iff failIf_Inr_iff

text \<open>\<open>okE P m\<close>: whatever \<open>m\<close> returns satisfies \<open>P\<close> (nothing is said of an error).\<close>

definition okE :: "('a \<Rightarrow> bool) \<Rightarrow> 'e + 'a \<Rightarrow> bool" where
  "okE P m \<longleftrightarrow> (case m of Inl _ \<Rightarrow> True | Inr x \<Rightarrow> P x)"

lemma okE_simps [simp]: "okE P (Inl e)" "okE P (Inr x) = P x"
  by (simp_all add: okE_def)

lemma okE_iff: "okE P m \<longleftrightarrow> (\<forall>x. m = Inr x \<longrightarrow> P x)"
  by (cases m) auto

lemma okE_bind [pres]:
  "okE Q m \<Longrightarrow> (\<And>x. Q x \<Longrightarrow> okE P (f x)) \<Longrightarrow> okE P (bindE m f)"
  by (cases m) auto

lemma okE_bind_any: "(\<And>x. m = Inr x \<Longrightarrow> okE P (f x)) \<Longrightarrow> okE P (bindE m f)"
  by (cases m) auto

lemma okE_failIf [pres]: "(\<not> b \<Longrightarrow> okE P r) \<Longrightarrow> okE P (failIf b e r)"
  by (simp add: failIf_def)

lemma okE_mono: "okE Q m \<Longrightarrow> (\<And>x. Q x \<Longrightarrow> P x) \<Longrightarrow> okE P m"
  by (cases m) auto

lemma okE_conj: "okE P m \<Longrightarrow> okE Q m \<Longrightarrow> okE (\<lambda>x. P x \<and> Q x) m"
  by (cases m) auto

text \<open>A loop \<^verbatim>\<open>for _, x := range xs\<close> whose body may return an error.\<close>

fun foldE :: "('x \<Rightarrow> 's \<Rightarrow> 'e + 's) \<Rightarrow> 'x list \<Rightarrow> 's \<Rightarrow> 'e + 's" where
  "foldE f [] s = Inr s"
| "foldE f (x # xs) s = bindE (f x s) (foldE f xs)"

lemma okE_foldE:
  "(\<And>x s. x \<in> set xs \<Longrightarrow> P s \<Longrightarrow> okE P (f x s)) \<Longrightarrow> P s \<Longrightarrow> okE P (foldE f xs s)"
proof (induction xs arbitrary: s)
  case Nil
  then show ?case by simp
next
  case (Cons x xs)
  have "okE P (f x s)" using Cons.prems by simp
  moreover have "\<And>s'. P s' \<Longrightarrow> okE P (foldE f xs s')"
    using Cons.IH Cons.prems(1) by simp
  ultimately show ?case by (auto intro: okE_bind)
qed

section \<open>SQL statements over a table\<close>

text \<open>
  \<^item> \<open>upd_where P f t\<close>: \<^verbatim>\<open>UPDATE t SET f WHERE P\<close>; \<open>affected P t\<close> its
    \<^verbatim>\<open>RowsAffected\<close>;
  \<^item> \<open>del_where P t\<close>: \<^verbatim>\<open>DELETE FROM t WHERE P\<close>;
  \<^item> \<open>ins_new k r t\<close>: \<^verbatim>\<open>INSERT\<close> into a table with unique key \<open>k\<close>, refused when the
    key is taken;
  \<^item> \<open>ins_ignore k r t\<close>: \<^verbatim>\<open>INSERT OR IGNORE\<close>;
  \<^item> \<open>upsert k r f t\<close>: \<^verbatim>\<open>INSERT ... ON CONFLICT (k) DO UPDATE SET f\<close>;
  \<^item> \<open>next_rowid k t\<close>: the id SQLite gives a row inserted without one
    (one more than the largest there is, 1 in an empty table).
  A \<^verbatim>\<open>SELECT\<close> of one row is \<^const>\<open>find\<close>.
\<close>

definition upd_where :: "('r \<Rightarrow> bool) \<Rightarrow> ('r \<Rightarrow> 'r) \<Rightarrow> 'r list \<Rightarrow> 'r list" where
  "upd_where P f t = map (\<lambda>r. if P r then f r else r) t"

definition del_where :: "('r \<Rightarrow> bool) \<Rightarrow> 'r list \<Rightarrow> 'r list" where
  "del_where P t = filter (\<lambda>r. \<not> P r) t"

definition affected :: "('r \<Rightarrow> bool) \<Rightarrow> 'r list \<Rightarrow> nat" where
  "affected P t = length (filter P t)"

definition has_key :: "('r \<Rightarrow> 'k) \<Rightarrow> 'k \<Rightarrow> 'r list \<Rightarrow> bool" where
  "has_key k x t = list_ex (\<lambda>r. k r = x) t"

definition ins_new :: "('r \<Rightarrow> 'k) \<Rightarrow> 'r \<Rightarrow> 'r list \<Rightarrow> go_error + 'r list" where
  "ins_new k r t =
     (if has_key k (k r) t then Inl (SqlConstraint ''UNIQUE'') else Inr (t @ [r]))"

definition ins_ignore :: "('r \<Rightarrow> 'k) \<Rightarrow> 'r \<Rightarrow> 'r list \<Rightarrow> 'r list" where
  "ins_ignore k r t = (if has_key k (k r) t then t else t @ [r])"

definition upsert :: "('r \<Rightarrow> 'k) \<Rightarrow> 'r \<Rightarrow> ('r \<Rightarrow> 'r) \<Rightarrow> 'r list \<Rightarrow> 'r list" where
  "upsert k r f t =
     (if has_key k (k r) t then upd_where (\<lambda>x. k x = k r) f t else t @ [r])"

definition next_rowid :: "('r \<Rightarrow> int) \<Rightarrow> 'r list \<Rightarrow> int" where
  "next_rowid k t = fold max (map k t) 0 + 1"

lemma has_key_iff: "has_key k x t \<longleftrightarrow> x \<in> k ` set t"
  by (auto simp: has_key_def list_ex_iff)

lemma has_key_simps [simp]:
  "has_key k x [] = False"
  "has_key k x (r # t) = (k r = x \<or> has_key k x t)"
  by (auto simp: has_key_iff)

lemma upd_where_simps [simp]:
  "upd_where P f [] = []"
  "upd_where P f (r # t) = (if P r then f r else r) # upd_where P f t"
  "upd_where P f (t @ u) = upd_where P f t @ upd_where P f u"
  "length (upd_where P f t) = length t"
  by (simp_all add: upd_where_def)

lemma del_where_simps [simp]:
  "del_where P [] = []"
  "del_where P (r # t) = (if P r then del_where P t else r # del_where P t)"
  "del_where P (t @ u) = del_where P t @ del_where P u"
  "set (del_where P t) = {r \<in> set t. \<not> P r}"
  by (simp_all add: del_where_def)

lemma affected_0_iff: "affected P t = 0 \<longleftrightarrow> (\<forall>r \<in> set t. \<not> P r)"
  by (simp add: affected_def filter_empty_conv)

lemma set_upd_where: "set (upd_where P f t) = (\<lambda>r. if P r then f r else r) ` set t"
  by (simp add: upd_where_def)

lemma upd_where_none: "(\<And>r. r \<in> set t \<Longrightarrow> \<not> P r) \<Longrightarrow> upd_where P f t = t"
  by (induction t) auto

lemma map_upd_where [sql_simps]:
  "(\<And>r. g (f r) = g r) \<Longrightarrow> map g (upd_where P f t) = map g t"
  by (induction t) auto

lemma ins_new_Inr: "ins_new k r t = Inr u \<longleftrightarrow> \<not> has_key k (k r) t \<and> u = t @ [r]"
  by (auto simp: ins_new_def)

lemma has_key_upd_where [sql_simps]:
  "(\<And>r. k (f r) = k r) \<Longrightarrow> has_key k x (upd_where P f t) = has_key k x t"
  by (induction t) auto

lemma has_key_append [simp]: "has_key k x (t @ u) = (has_key k x t \<or> has_key k x u)"
  by (auto simp: has_key_iff)

lemma find_Some_mem: "find P t = Some r \<Longrightarrow> r \<in> set t \<and> P r"
  by (induction t) (auto split: if_splits)

lemma find_None_mem: "find P t = None \<longleftrightarrow> (\<forall>r \<in> set t. \<not> P r)"
  by (induction t) auto

lemma find_upd_where [sql_simps]:
  "(\<And>r. P (f r) = P r) \<Longrightarrow>
   find P (upd_where Q f t) = map_option (\<lambda>r. if Q r then f r else r) (find P t)"
  by (induction t) auto

lemma find_append [simp]:
  "find P (t @ u) = (case find P t of None \<Rightarrow> find P u | Some r \<Rightarrow> Some r)"
  by (induction t) auto

lemma fold_max_ge: "z \<le> fold max xs (z::int) \<and> (\<forall>x \<in> set xs. x \<le> fold max xs z)"
proof (induction xs arbitrary: z)
  case Nil
  then show ?case by simp
next
  case (Cons x xs)
  have "max x z \<le> fold max xs (max x z)" and "\<forall>y \<in> set xs. y \<le> fold max xs (max x z)"
    using Cons[of "max x z"] by simp_all
  then show ?case by auto
qed

lemma next_rowid_fresh: "\<not> has_key k (next_rowid k t) t"
proof -
  have "\<forall>x \<in> set (map k t). x \<le> fold max (map k t) 0"
    using fold_max_ge by blast
  then show ?thesis by (fastforce simp: has_key_iff next_rowid_def)
qed

section \<open>Tables with a unique key\<close>

text \<open>
  The contract a table with a unique key keeps: its keys stay distinct under every
  statement the commands run on it. The locale fixes the key and what an update may do
  to a row (never change its key); each table of the schema is an interpretation.
\<close>

locale keyed_table =
  fixes key :: "'r \<Rightarrow> 'k" and allowed :: "('r \<Rightarrow> 'r) \<Rightarrow> bool"
  assumes allowed_key: "allowed f \<Longrightarrow> key (f r) = key r"
begin

definition wf :: "'r list \<Rightarrow> bool" where
  "wf t \<longleftrightarrow> distinct (map key t)"

lemma wf_Nil: "wf []"
  by (simp add: wf_def)

lemma wf_upd: "wf t \<Longrightarrow> allowed f \<Longrightarrow> wf (upd_where P f t)"
  by (simp add: wf_def map_upd_where allowed_key)

lemma wf_del: "wf t \<Longrightarrow> wf (del_where P t)"
  by (auto simp: wf_def del_where_def distinct_map intro: inj_on_subset)

lemma wf_ins_new: "wf t \<Longrightarrow> ins_new key r t = Inr u \<Longrightarrow> wf u"
  by (auto simp: wf_def ins_new_Inr has_key_iff)

lemma wf_ins_ignore: "wf t \<Longrightarrow> wf (ins_ignore key r t)"
  by (auto simp: wf_def ins_ignore_def has_key_iff)

lemma wf_upsert: "wf t \<Longrightarrow> allowed f \<Longrightarrow> wf (upsert key r f t)"
  by (auto simp: upsert_def wf_upd) (auto simp: wf_def has_key_iff)

lemma find_unique: "wf t \<Longrightarrow> r \<in> set t \<Longrightarrow> find (\<lambda>x. key x = key r) t = Some r"
  by (induction t) (auto simp: wf_def)

end

lemma map_find_upd_key [sql_simps]:
  "(\<And>r. k (f r) = k r) \<Longrightarrow>
   find (\<lambda>r. k r = x) (upd_where P f t) = map_option (\<lambda>r. if P r then f r else r) (find (\<lambda>r. k r = x) t)"
  by (simp add: find_upd_where)

end
