(* ===== verification/GoText.thy ===== *)
theory GoText
  imports Prelude
begin

text \<open>
  The parts of Go's \<^verbatim>\<open>strings\<close> and \<^verbatim>\<open>unicode/utf8\<close> the commands use. A Go string is a
  list of bytes, here \<open>char\<close>s; ranging over it (or converting it to \<^verbatim>\<open>[]rune\<close>) decodes
  UTF-8, an ill-formed byte giving U+FFFD for one byte. \<open>runes\<close> keeps, beside each rune,
  the bytes it was read from.
\<close>

section \<open>UTF-8\<close>

abbreviation byte :: "char \<Rightarrow> nat" where "byte c \<equiv> of_char c"

definition cont :: "char \<Rightarrow> bool" where
  "cont c \<longleftrightarrow> 128 \<le> byte c \<and> byte c \<le> 191"

definition between :: "nat \<Rightarrow> nat \<Rightarrow> nat \<Rightarrow> bool" where
  "between lo hi n \<longleftrightarrow> lo \<le> n \<and> n \<le> hi"

definition rune_error :: nat where "rune_error = 65533"

definition second_ok :: "nat \<Rightarrow> nat \<Rightarrow> bool" where
  "second_ok b0 b1 =
     (if b0 = 224 then between 160 191 b1
      else if b0 = 237 then between 128 159 b1
      else if b0 = 240 then between 144 191 b1
      else if b0 = 244 then between 128 143 b1
      else between 128 191 b1)"

text \<open>\<^verbatim>\<open>utf8.DecodeRuneInString\<close>: the first rune and its width.\<close>

definition decode_rune :: "string \<Rightarrow> nat \<times> nat" where
  "decode_rune s =
     (case s of
        [] \<Rightarrow> (rune_error, 0)
      | a # t \<Rightarrow>
        (let x = byte a in
         if x < 128 then (x, 1)
         else if between 194 223 x then
           (case t of
              b # _ \<Rightarrow> if cont b then ((x - 192) * 64 + (byte b - 128), 2) else (rune_error, 1)
            | _ \<Rightarrow> (rune_error, 1))
         else if between 224 239 x then
           (case t of
              b # c # _ \<Rightarrow>
                if second_ok x (byte b) \<and> cont c
                then ((x - 224) * 4096 + (byte b - 128) * 64 + (byte c - 128), 3)
                else (rune_error, 1)
            | _ \<Rightarrow> (rune_error, 1))
         else if between 240 244 x then
           (case t of
              b # c # d # _ \<Rightarrow>
                if second_ok x (byte b) \<and> cont c \<and> cont d
                then ((x - 240) * 262144 + (byte b - 128) * 4096 + (byte c - 128) * 64 + (byte d - 128), 4)
                else (rune_error, 1)
            | _ \<Rightarrow> (rune_error, 1))
         else (rune_error, 1)))"

lemma decode_rune_width: "s \<noteq> [] \<Longrightarrow> 1 \<le> snd (decode_rune s) \<and> snd (decode_rune s) \<le> length s"
  by (auto simp: decode_rune_def Let_def split: list.splits)

function runes :: "string \<Rightarrow> (nat \<times> string) list" where
  "runes s = (if s = [] then []
     else let (r, w) = decode_rune s in (r, take w s) # runes (drop w s))"
  by pat_completeness auto
termination
proof (relation "measure length")
  fix s :: string and x r w
  assume "s \<noteq> []" and "x = decode_rune s" and "(r, w) = x"
  then have "1 \<le> w" using decode_rune_width[of s] by (metis snd_conv)
  with \<open>s \<noteq> []\<close> show "(drop w s, s) \<in> measure length" by simp
qed simp

declare runes.simps [simp del]

lemma runes_Nil [simp]: "runes [] = []"
  by (simp add: runes.simps)

lemma runes_step: "s \<noteq> [] \<Longrightarrow>
  runes s = (fst (decode_rune s), take (snd (decode_rune s)) s) # runes (drop (snd (decode_rune s)) s)"
  by (subst runes.simps) (simp add: case_prod_unfold Let_def)

text \<open>Decoding loses nothing: the bytes of the runes are the string's.\<close>

lemma runes_bytes: "concat (map snd (runes s)) = s"
proof (induction s rule: runes.induct)
  case (1 s)
  show ?case
  proof (cases "s = []")
    case True
    then show ?thesis by simp
  next
    case False
    have "concat (map snd (runes (drop (snd (decode_rune s)) s))) = drop (snd (decode_rune s)) s"
      using 1[OF False, of "decode_rune s" "fst (decode_rune s)" "snd (decode_rune s)"] by simp
    with False show ?thesis by (simp add: runes_step)
  qed
qed

lemma runes_ascii_Cons: "byte a < 128 \<Longrightarrow> runes (a # t) = (byte a, [a]) # runes t"
  by (simp add: runes_step decode_rune_def)

lemma decode_rune_high:
  assumes "128 \<le> byte a"
  shows "128 \<le> fst (decode_rune (a # t))"
proof -
  have sec: "second_ok 224 b \<Longrightarrow> 160 \<le> b" "second_ok 240 b \<Longrightarrow> 144 \<le> b" for b
    by (simp_all add: second_ok_def between_def)
  have *: "second_ok x b \<Longrightarrow> 224 \<le> x \<Longrightarrow> 128 \<le> (x - 224) * 4096 + (b - 128) * 64 + c" for x b c
    using sec(1)[of b] by (cases "x = 224") auto
  have **: "second_ok x b \<Longrightarrow> 240 \<le> x \<Longrightarrow>
      128 \<le> (x - 240) * 262144 + (b - 128) * 4096 + c + d" for x b c d
    using sec(2)[of b] by (cases "x = 240") auto
  show ?thesis
    using assms
    by (auto simp: decode_rune_def Let_def rune_error_def between_def split: list.splits
        intro!: * **)
qed

text \<open>A test that only ASCII passes may be made on bytes or on runes.\<close>

lemma runes_all_ascii:
  assumes "\<And>r. P r \<Longrightarrow> r < 128"
  shows "list_all (\<lambda>(r, _). P r) (runes s) \<longleftrightarrow> list_all (\<lambda>c. P (byte c)) s"
proof (induction s)
  case Nil
  then show ?case by simp
next
  case (Cons a t)
  show ?case
  proof (cases "byte a < 128")
    case True
    with Cons show ?thesis by (simp add: runes_ascii_Cons)
  next
    case False
    then have "128 \<le> fst (decode_rune (a # t))" using decode_rune_high by simp
    then have "\<not> P (fst (decode_rune (a # t)))" using assms by (meson not_le)
    moreover have "\<not> P (byte a)" using False assms by blast
    ultimately show ?thesis by (simp add: runes_step)
  qed
qed

text \<open>\<^verbatim>\<open>string([]rune)\<close>: each rune encoded; what is no code point is written as U+FFFD.\<close>

definition encode_rune :: "nat \<Rightarrow> string" where
  "encode_rune r0 =
     (let r = (if r0 > 1114111 \<or> between 55296 57343 r0 then rune_error else r0) in
      if r < 128 then [char_of r]
      else if r < 2048 then [char_of (192 + r div 64), char_of (128 + r mod 64)]
      else if r < 65536 then
        [char_of (224 + r div 4096), char_of (128 + r div 64 mod 64), char_of (128 + r mod 64)]
      else [char_of (240 + r div 262144), char_of (128 + r div 4096 mod 64),
            char_of (128 + r div 64 mod 64), char_of (128 + r mod 64)])"

definition rune_count :: "string \<Rightarrow> nat" where
  "rune_count s = length (runes s)"

definition rune_take :: "nat \<Rightarrow> string \<Rightarrow> string" where
  "rune_take n s = concat (map (encode_rune \<circ> fst) (take n (runes s)))"

section \<open>White space and words\<close>

text \<open>\<^verbatim>\<open>unicode.IsSpace\<close>.\<close>

definition is_space :: "nat \<Rightarrow> bool" where
  "is_space r \<longleftrightarrow> between 9 13 r \<or> r = 32 \<or> r = 133 \<or> r = 160 \<or> r = 5760 \<or> between 8192 8202 r
     \<or> r = 8232 \<or> r = 8233 \<or> r = 8239 \<or> r = 8287 \<or> r = 12288"

definition sp :: "nat \<times> string \<Rightarrow> bool" where "sp x \<longleftrightarrow> is_space (fst x)"

definition TrimSpace :: "string \<Rightarrow> string" where
  "TrimSpace s = concat (map snd (rev (dropWhile sp (rev (dropWhile sp (runes s))))))"

fun words_of :: "(nat \<times> string) list \<Rightarrow> string \<Rightarrow> string list" where
  "words_of [] w = (if w = [] then [] else [w])"
| "words_of (x # xs) w =
     (if sp x then (if w = [] then words_of xs [] else w # words_of xs [])
      else words_of xs (w @ snd x))"

definition Fields :: "string \<Rightarrow> string list" where
  "Fields s = words_of (runes s) []"

fun Join :: "string list \<Rightarrow> string \<Rightarrow> string" where
  "Join [] sep = []"
| "Join [x] sep = x"
| "Join (x # y # ys) sep = x @ sep @ Join (y # ys) sep"

text \<open>\<^verbatim>\<open>strings.Join(strings.Fields(s), " ")\<close>.\<close>

definition squeeze :: "string \<Rightarrow> string" where
  "squeeze s = Join (Fields s) '' ''"

text \<open>Text of printing characters only: white space handling leaves it alone.\<close>

definition plain :: "string \<Rightarrow> bool" where
  "plain s \<longleftrightarrow> list_all (\<lambda>c. 32 < byte c \<and> byte c < 127) s"

lemma plain_simps [simp]: "plain []" "plain (c # s) \<longleftrightarrow> 32 < byte c \<and> byte c < 127 \<and> plain s"
  by (auto simp: plain_def)

lemma plain_runes: "plain s \<Longrightarrow> runes s = map (\<lambda>c. (byte c, [c])) s"
  by (induction s) (simp_all add: runes_ascii_Cons)

lemma plain_not_sp: "32 < byte c \<Longrightarrow> byte c < 127 \<Longrightarrow> \<not> sp (byte c, [c])"
  by (simp add: sp_def is_space_def between_def)

lemma plain_drop: "plain s \<Longrightarrow> dropWhile sp (map (\<lambda>c. (byte c, [c])) s) = map (\<lambda>c. (byte c, [c])) s"
  by (cases s) (simp_all add: plain_not_sp)

lemma plain_TrimSpace: "plain s \<Longrightarrow> TrimSpace s = s"
proof -
  assume s: "plain s"
  then have "plain (rev s)" by (simp add: plain_def list_all_iff)
  then have "dropWhile sp (rev (map (\<lambda>c. (byte c, [c])) s)) = rev (map (\<lambda>c. (byte c, [c])) s)"
    using plain_drop[of "rev s"] by (simp only: rev_map)
  moreover have "concat (map snd (map (\<lambda>c. (byte c, [c])) s)) = s" by (induction s) simp_all
  ultimately show ?thesis by (simp add: TrimSpace_def plain_runes[OF s] plain_drop[OF s] del: map_map)
qed

lemma plain_words: "plain s \<Longrightarrow> words_of (map (\<lambda>c. (byte c, [c])) s) w = (if w @ s = [] then [] else [w @ s])"
  by (induction s arbitrary: w) (simp_all add: plain_not_sp)

lemma plain_squeeze: "plain s \<Longrightarrow> squeeze s = s"
  by (simp add: squeeze_def Fields_def plain_runes plain_words)

lemmas plain_text = plain_TrimSpace plain_squeeze

text \<open>\<^verbatim>\<open>strings.Split\<close> on a one-byte separator: always at least one piece.\<close>

fun split_on :: "char \<Rightarrow> string \<Rightarrow> string list" where
  "split_on c [] = [[]]"
| "split_on c (a # s) =
     (if a = c then [] # split_on c s
      else case split_on c s of [] \<Rightarrow> [[a]] | w # ws \<Rightarrow> (a # w) # ws)"

lemma split_on_ne: "split_on c s \<noteq> []"
  by (induction s) (auto split: list.splits)

lemma split_on_no_sep: "w \<in> set (split_on c s) \<Longrightarrow> c \<notin> set w"
  by (induction s arbitrary: w) (auto split: list.splits if_splits)

lemma Join_split: "Join (split_on c s) [c] = s"
proof (induction s)
  case Nil
  then show ?case by simp
next
  case (Cons a s)
  then show ?case
    by (cases "split_on c s" rule: list.exhaust; cases "tl (split_on c s)")
      (auto simp: split_on_ne)
qed

definition TrimPrefix :: "string \<Rightarrow> string \<Rightarrow> string" where
  "TrimPrefix s p = (if take (length p) s = p then drop (length p) s else s)"

definition HasPrefix :: "string \<Rightarrow> string \<Rightarrow> bool" where
  "HasPrefix s p \<longleftrightarrow> take (length p) s = p"

definition HasSuffix :: "string \<Rightarrow> string \<Rightarrow> bool" where
  "HasSuffix s p \<longleftrightarrow> length p \<le> length s \<and> drop (length s - length p) s = p"

definition CutSuffix :: "string \<Rightarrow> string \<Rightarrow> string option" where
  "CutSuffix s p = (if HasSuffix s p then Some (take (length s - length p) s) else None)"

lemma HasSuffix_iff: "HasSuffix s p \<longleftrightarrow> (\<exists>t. s = t @ p)"
proof
  assume "HasSuffix s p"
  then have "s = take (length s - length p) s @ p"
    by (metis HasSuffix_def append_take_drop_id)
  then show "\<exists>t. s = t @ p" ..
qed (auto simp: HasSuffix_def)

lemma CutSuffix_Some: "CutSuffix s p = Some t \<longleftrightarrow> s = t @ p"
  by (auto simp: CutSuffix_def HasSuffix_def) (metis append_take_drop_id)

fun Contains :: "string \<Rightarrow> string \<Rightarrow> bool" where
  "Contains [] p = (p = [])"
| "Contains (a # s) p = (take (length p) (a # s) = p \<or> Contains s p)"

section \<open>Numbers in decimal\<close>

text \<open>Decimal numerals as \<^verbatim>\<open>strconv.FormatInt(_, 10)\<close> writes and \<^verbatim>\<open>ParseInt\<close> reads them.\<close>

definition digit_char :: "nat \<Rightarrow> char" where
  "digit_char d = char_of (48 + d)"

fun nat_digits :: "nat \<Rightarrow> string" where
  "nat_digits n = (if n < 10 then [digit_char n] else nat_digits (n div 10) @ [digit_char (n mod 10)])"

declare nat_digits.simps [simp del]

definition FormatInt :: "int \<Rightarrow> string" where
  "FormatInt n = (if n < 0 then CHR ''-'' # nat_digits (nat (- n)) else nat_digits (nat n))"

definition is_digit :: "char \<Rightarrow> bool" where
  "is_digit c \<longleftrightarrow> 48 \<le> (of_char c :: nat) \<and> (of_char c :: nat) \<le> 57"

definition digits_val :: "string \<Rightarrow> nat" where
  "digits_val s = foldl (\<lambda>a c. a * 10 + (of_char c - 48)) 0 s"

definition ParseInt :: "string \<Rightarrow> int option" where
  "ParseInt s =
     (let (neg, ds) = (case s of [] \<Rightarrow> (False, [])
                       | c # cs \<Rightarrow> if c = CHR ''-'' then (True, cs)
                                   else if c = CHR ''+'' then (False, cs) else (False, s));
          v = int (digits_val ds); n = (if neg then - v else v)
      in if ds = [] \<or> \<not> list_all is_digit ds \<or> n < - (2 ^ 63) \<or> 2 ^ 63 \<le> n then None else Some n)"

lemma of_char_digit: "d < 10 \<Longrightarrow> (of_char (digit_char d) :: nat) = 48 + d"
  by (simp add: digit_char_def)

lemma is_digit_digit_char: "d < 10 \<Longrightarrow> is_digit (digit_char d)"
  by (simp add: is_digit_def of_char_digit)

lemma nat_digits_ne: "nat_digits n \<noteq> []"
  by (subst nat_digits.simps) simp

lemma nat_digits_all: "list_all is_digit (nat_digits n)"
proof (induction n rule: nat_digits.induct)
  case (1 n)
  then show ?case
    by (subst nat_digits.simps) (simp add: is_digit_digit_char)
qed

lemma digits_val_nat: "digits_val (nat_digits n) = n"
proof (induction n rule: nat_digits.induct)
  case (1 n)
  then show ?case
    by (subst nat_digits.simps) (auto simp: digits_val_def of_char_digit)
qed

lemma nat_digits_hd: "is_digit (hd (nat_digits n))"
  using nat_digits_all[of n] nat_digits_ne[of n] by (cases "nat_digits n") auto

lemma ParseInt_Format:
  assumes "0 \<le> n" "n < 2 ^ 63"
  shows "ParseInt (FormatInt n) = Some n"
proof -
  obtain c cs where s: "nat_digits (nat n) = c # cs"
    using nat_digits_ne by (cases "nat_digits (nat n)") auto
  have d: "is_digit c" using nat_digits_hd[of "nat n"] s by simp
  have "c \<noteq> CHR ''-''" "c \<noteq> CHR ''+''" using d by (auto simp: is_digit_def)
  moreover have "int (digits_val (c # cs)) = n"
    using digits_val_nat[of "nat n"] s assms by simp
  moreover have "list_all is_digit (c # cs)" using nat_digits_all[of "nat n"] s by simp
  ultimately show ?thesis
    using assms s by (simp add: ParseInt_def FormatInt_def Let_def)
qed

end
