(* ===== verification/Names.thy ===== *)
theory Names
  imports GoText
begin

text \<open>
  Names people choose and errors that are theirs to fix: \<^verbatim>\<open>internal/cmd/names.go\<close>.
  The checks return the error, or \<open>None\<close> where the code returns nil.
\<close>

section \<open>Slugs, handles and domains\<close>

definition ReservedSlugs :: "string list" where
  "ReservedSlugs = [''www'', ''mail'', ''smtp'', ''imap'', ''pop'', ''mx'', ''ns'', ''ns1'',
     ''ns2'', ''api'', ''admin'', ''login'', ''signin'', ''auth'', ''account'', ''static'',
     ''assets'', ''img'', ''cdn'', ''status'', ''help'', ''support'', ''abuse'',
     ''postmaster'', ''security'', ''root'', ''ftp'', ''webmail'', ''autoconfig'',
     ''autodiscover'', ''dev'', ''test'', ''staging'', ''app'', ''blog'', ''docs'', ''faq'',
     ''grus'', ''nfb'', ''about'', ''home'']"

definition lower_alnum :: "nat \<Rightarrow> bool" where
  "lower_alnum r \<longleftrightarrow> between 97 122 r \<or> between 48 57 r"

definition name_rune :: "nat \<Rightarrow> nat \<Rightarrow> bool" where
  "name_rune extra r \<longleftrightarrow> lower_alnum r \<or> r = extra"

definition range_ok :: "(nat \<Rightarrow> bool) \<Rightarrow> string \<Rightarrow> bool" where
  "range_ok P s = list_all (\<lambda>(r, _). P r) (runes s)"

definition ValidSlug :: "string \<Rightarrow> go_error option" where
  "ValidSlug slug =
     (if length slug < 2 \<or> length slug > 32
      then Some (PlainErr ''group names are 2 to 32 characters'')
      else if \<not> range_ok (name_rune 45) slug
      then Some (PlainErr ''group names use only a-z, 0-9 and -'')
      else if HasPrefix slug ''-'' \<or> HasSuffix slug ''-'' \<or> Contains slug ''--''
      then Some (PlainErr ''group names can't start or end with - or contain --'')
      else if slug \<in> set ReservedSlugs
      then Some (QuotedErr [] slug '' is reserved'')
      else None)"

definition ValidHandle :: "string \<Rightarrow> go_error option" where
  "ValidHandle h =
     (if length h < 3 \<or> length h > 20
      then Some (PlainErr ''handles are 3 to 20 characters'')
      else if \<not> range_ok (name_rune 95) h
      then Some (PlainErr ''handles use only a-z, 0-9 and _'')
      else None)"

definition ValidDomain :: "string \<Rightarrow> go_error option" where
  "ValidDomain d =
     (let labels = split_on CHR ''.'' d; bad = QuotedErr [] d '' is not a domain name'' in
      if length labels < 2 \<or> length d > 253 then Some bad
      else if list_ex (\<lambda>l. l = [] \<or> length l > 63 \<or> HasPrefix l ''-'' \<or> HasSuffix l ''-''
                \<or> \<not> range_ok (name_rune 45) l) labels
      then Some bad
      else None)"

lemma name_rune_ascii: "extra < 128 \<Longrightarrow> name_rune extra r \<Longrightarrow> r < 128"
  by (auto simp: name_rune_def lower_alnum_def between_def)

lemma range_ok_bytes:
  "extra < 128 \<Longrightarrow> range_ok (name_rune extra) s \<longleftrightarrow> list_all (\<lambda>c. name_rune extra (byte c)) s"
  unfolding range_ok_def by (rule runes_all_ascii) (rule name_rune_ascii)

lemma range_ok_no_dot: "range_ok (name_rune 45) s \<Longrightarrow> CHR ''.'' \<notin> set s"
  by (auto simp: range_ok_bytes list_all_iff name_rune_def lower_alnum_def between_def)

text \<open>Names as a reader of the rules would state them.\<close>

definition slug_char :: "char \<Rightarrow> bool" where
  "slug_char c \<longleftrightarrow> c \<in> set ''abcdefghijklmnopqrstuvwxyz0123456789-''"

definition handle_char :: "char \<Rightarrow> bool" where
  "handle_char c \<longleftrightarrow> c \<in> set ''abcdefghijklmnopqrstuvwxyz0123456789_''"

definition inner_hyphens :: "string \<Rightarrow> bool" where
  "inner_hyphens s \<longleftrightarrow> s \<noteq> [] \<and> hd s \<noteq> CHR ''-'' \<and> last s \<noteq> CHR ''-''"

definition domain_label :: "string \<Rightarrow> bool" where
  "domain_label l \<longleftrightarrow> inner_hyphens l \<and> length l \<le> 63 \<and> list_all slug_char l"

lemma slug_bytes:
  "map byte ''abcdefghijklmnopqrstuvwxyz0123456789-'' = [97..<123] @ [48..<58] @ [45]"
  by (simp add: upt_rec_numeral)

lemma handle_bytes:
  "map byte ''abcdefghijklmnopqrstuvwxyz0123456789_'' = [97..<123] @ [48..<58] @ [95]"
  by (simp add: upt_rec_numeral)

lemma char_in_string: "c \<in> set s \<longleftrightarrow> byte c \<in> set (map byte s)"
  by (metis (no_types, lifting) image_iff list.set_map of_char_eq_iff)

lemma range_bytes: "n \<in> set ([97..<123] @ [48..<58] @ [x]) \<longleftrightarrow> name_rune x n"
  unfolding set_append set_upt name_rune_def lower_alnum_def between_def Un_iff atLeastLessThan_iff
  by auto

lemma name_rune_slug: "name_rune 45 (byte c) \<longleftrightarrow> slug_char c"
  unfolding slug_char_def char_in_string[of c] slug_bytes range_bytes ..

lemma name_rune_handle: "name_rune 95 (byte c) \<longleftrightarrow> handle_char c"
  unfolding handle_char_def char_in_string[of c] handle_bytes range_bytes ..

lemma range_ok_slug: "range_ok (name_rune 45) s \<longleftrightarrow> list_all slug_char s"
  by (simp add: range_ok_bytes name_rune_slug)

lemma range_ok_handle: "range_ok (name_rune 95) s \<longleftrightarrow> list_all handle_char s"
  by (simp add: range_ok_bytes name_rune_handle)

lemma HasPrefix_char: "HasPrefix s [c] \<longleftrightarrow> s \<noteq> [] \<and> hd s = c"
  by (cases s) (auto simp: HasPrefix_def)

lemma HasSuffix_char: "HasSuffix s [c] \<longleftrightarrow> s \<noteq> [] \<and> last s = c"
  by (cases s rule: rev_cases) (auto simp: HasSuffix_iff)

lemma Contains_iff: "Contains s p \<longleftrightarrow> (\<exists>u v. s = u @ p @ v)"
proof (induction s)
  case Nil
  then show ?case by auto
next
  case (Cons a s)
  have "take (length p) (a # s) = p \<longleftrightarrow> (\<exists>v. a # s = p @ v)"
    by (metis append_eq_conv_conj append_take_drop_id)
  with Cons show ?case
    by (auto simp: Cons_eq_append_conv)
qed

lemma domain_label_iff:
  "domain_label l \<longleftrightarrow>
   \<not> (l = [] \<or> length l > 63 \<or> HasPrefix l ''-'' \<or> HasSuffix l ''-'' \<or> \<not> range_ok (name_rune 45) l)"
  unfolding domain_label_def inner_hyphens_def HasPrefix_char HasSuffix_char range_ok_slug
  by (simp only: not_less de_Morgan_disj not_not) blast

lemma ValidDomain_None_iff:
  "ValidDomain d = None \<longleftrightarrow>
     2 \<le> length (split_on CHR ''.'' d) \<and> length d \<le> 253
     \<and> list_all domain_label (split_on CHR ''.'' d)"
proof -
  have "list_all domain_label ls \<longleftrightarrow> \<not> list_ex (\<lambda>l. l = [] \<or> length l > 63 \<or> HasPrefix l ''-''
      \<or> HasSuffix l ''-'' \<or> \<not> range_ok (name_rune 45) l) ls" for ls
    unfolding domain_label_iff list_all_iff list_ex_iff by blast
  then show ?thesis by (simp add: ValidDomain_def Let_def not_less)
qed

lemma split_on_prefix: "c \<notin> set s \<Longrightarrow> split_on c (s @ c # t) = s # split_on c t"
  by (induction s) auto

lemma ValidSlug_None_iff:
  "ValidSlug s = None \<longleftrightarrow>
     2 \<le> length s \<and> length s \<le> 32 \<and> list_all slug_char s \<and> inner_hyphens s
     \<and> (\<nexists>u v. s = u @ ''--'' @ v) \<and> s \<notin> set ReservedSlugs"
  unfolding ValidSlug_def HasPrefix_char HasSuffix_char range_ok_slug inner_hyphens_def Contains_iff
  by (cases "s = []") (simp_all add: not_less del: append_Cons)

lemma ValidHandle_None_iff:
  "ValidHandle h = None \<longleftrightarrow> 3 \<le> length h \<and> length h \<le> 20 \<and> list_all handle_char h"
  by (auto simp: ValidHandle_def range_ok_handle not_less)

lemma slug_is_label: "ValidSlug s = None \<Longrightarrow> domain_label s"
  by (simp add: ValidSlug_None_iff domain_label_def)

section \<open>Errors across the network\<close>

definition sentinels :: "go_error list" where
  "sentinels = [ErrSlugTaken, ErrHandleTaken, ErrLoginDead, ErrNotFound, ErrGone, ErrLocked, ErrNotMember]"

text \<open>
  The text of an error. \<open>quote\<close> is \<^verbatim>\<open>strconv.Quote\<close>, which \<^verbatim>\<open>%q\<close> calls: it
  depends on Unicode's tables of printable characters, and nothing depends on it.
\<close>

fun Error :: "(string \<Rightarrow> string) \<Rightarrow> go_error \<Rightarrow> string" where
  "Error quote (Invalid m) = m"
| "Error quote ErrSlugTaken = ''that group name is taken''"
| "Error quote ErrHandleTaken = ''that handle is taken''"
| "Error quote ErrLoginDead = ''sign-in link or code expired or already used''"
| "Error quote ErrNotFound = ''not found''"
| "Error quote ErrGone = ''that post or comment isn't available''"
| "Error quote ErrLocked = ''this post is locked''"
| "Error quote ErrNotMember = ''join the group first''"
| "Error quote SqlNoRows = ''sql: no rows in result set''"
| "Error quote (SqlConstraint m) = m"
| "Error quote (PlainErr m) = m"
| "Error quote (QuotedErr p a m) = p @ quote a @ m"
| "Error quote (InvalidQuoted p a) = p @ quote a"
| "Error quote (Wrapped p e) = p @ Error quote e"

text \<open>\<^verbatim>\<open>errors.Is\<close> against a sentinel, and \<^verbatim>\<open>errors.As\<close> an \<^verbatim>\<open>*InputError\<close>.\<close>

fun errors_Is :: "go_error \<Rightarrow> go_error \<Rightarrow> bool" where
  "errors_Is (Wrapped p e) target = (Wrapped p e = target \<or> errors_Is e target)"
| "errors_Is e target = (e = target)"

fun errors_As_Input :: "go_error \<Rightarrow> bool" where
  "errors_As_Input (Invalid m) = True"
| "errors_As_Input (InvalidQuoted p a) = True"
| "errors_As_Input (Wrapped p e) = errors_As_Input e"
| "errors_As_Input e = False"

definition IsInput :: "go_error \<Rightarrow> bool" where
  "IsInput err \<longleftrightarrow> errors_As_Input err \<or> errors_Is err ErrSlugTaken \<or> errors_Is err ErrHandleTaken
     \<or> errors_Is err ErrLoginDead \<or> errors_Is err ErrNotFound \<or> errors_Is err ErrGone
     \<or> errors_Is err ErrLocked \<or> errors_Is err ErrNotMember"

fun cut_sentinel :: "(string \<Rightarrow> string) \<Rightarrow> go_error list \<Rightarrow> string \<Rightarrow> go_error" where
  "cut_sentinel quote [] msg = Invalid msg"
| "cut_sentinel quote (s # ss) msg =
     (case CutSuffix msg (Error quote s) of
        Some prefix \<Rightarrow> Wrapped prefix s
      | None \<Rightarrow> cut_sentinel quote ss msg)"

definition Remote :: "(string \<Rightarrow> string) \<Rightarrow> string \<Rightarrow> bool \<Rightarrow> go_error" where
  "Remote quote msg input = (if \<not> input then PlainErr msg else cut_sentinel quote sentinels msg)"

text \<open>The error at the bottom of the wrapping.\<close>

fun root_err :: "go_error \<Rightarrow> go_error" where
  "root_err (Wrapped p e) = root_err e"
| "root_err e = e"

lemma errors_Is_root: "s \<in> set sentinels \<Longrightarrow> errors_Is e s \<longleftrightarrow> root_err e = s"
  by (induction e) (auto simp: sentinels_def)

lemma errors_As_root: "errors_As_Input e \<longleftrightarrow> (\<exists>m a. root_err e = Invalid m \<or> root_err e = InvalidQuoted m a)"
  by (induction e) auto

lemma IsInput_root:
  "IsInput e \<longleftrightarrow> (\<exists>m a. root_err e = Invalid m \<or> root_err e = InvalidQuoted m a) \<or> root_err e \<in> set sentinels"
  unfolding IsInput_def errors_As_root
  by (simp add: errors_Is_root sentinels_def)

lemma Error_root: "\<exists>p. Error quote e = p @ Error quote (root_err e)"
proof (induction e)
  case (Wrapped p e)
  then obtain q where "Error quote e = q @ Error quote (root_err e)" ..
  then have "Error quote (Wrapped p e) = (p @ q) @ Error quote (root_err (Wrapped p e))" by simp
  then show ?case ..
qed auto

lemma cut_sentinel_text: "Error quote (cut_sentinel quote ss msg) = msg"
  by (induction ss) (auto simp: CutSuffix_Some split: option.splits)

lemma cut_sentinel_cases:
  "cut_sentinel quote ss msg = Invalid msg \<or>
   (\<exists>p s. s \<in> set ss \<and> cut_sentinel quote ss msg = Wrapped p s)"
  by (induction ss) (auto split: option.splits)

text \<open>No sentinel's text ends another's, so the one found is the one that was there.\<close>

lemma sentinel_suffix:
  assumes "s \<in> set sentinels" "t \<in> set sentinels" "p @ Error quote s = q @ Error quote t"
  shows "s = t"
proof -
  have "rev (Error quote s) @ rev p = rev (Error quote t) @ rev q"
    using assms(3) by (metis rev_append)
  with assms(1,2) show ?thesis by (auto simp: sentinels_def)
qed

lemma cut_sentinel_finds:
  assumes "s \<in> set ss" "set ss \<subseteq> set sentinels"
  shows "\<exists>q. cut_sentinel quote ss (p @ Error quote s) = Wrapped q s"
  using assms
proof (induction ss)
  case Nil
  then show ?case by simp
next
  case (Cons t ts)
  show ?case
  proof (cases "CutSuffix (p @ Error quote s) (Error quote t)")
    case None
    then have "t \<noteq> s" using CutSuffix_Some[of "p @ Error quote s" "Error quote s" p] by auto
    with Cons None show ?thesis by auto
  next
    case (Some q)
    then have "p @ Error quote s = q @ Error quote t" by (simp add: CutSuffix_Some)
    with Cons.prems sentinel_suffix[of s t] have "s = t" by auto
    with Some show ?thesis by simp
  qed
qed

lemma Remote_text: "Error quote (Remote quote msg b) = msg"
  by (simp add: Remote_def cut_sentinel_text)

lemma Remote_IsInput: "IsInput (Remote quote msg b) = b"
  using cut_sentinel_cases[of quote sentinels msg]
  by (auto simp: Remote_def IsInput_root sentinels_def)

lemma Remote_keeps_sentinel:
  assumes "root_err e \<in> set sentinels"
  shows "root_err (Remote quote (Error quote e) True) = root_err e"
proof -
  obtain p where p: "Error quote e = p @ Error quote (root_err e)" using Error_root by blast
  obtain q where "cut_sentinel quote sentinels (p @ Error quote (root_err e)) = Wrapped q (root_err e)"
    using cut_sentinel_finds[OF assms subset_refl] by blast
  moreover have "root_err (root_err e) = root_err e" by (induction e) auto
  ultimately show ?thesis using p by (simp add: Remote_def)
qed

section \<open>Properties\<close>

text \<open>A group name is accepted exactly when it is two to thirty-two of a-z, 0-9 and
  the hyphen, neither begins nor ends with a hyphen, has no two hyphens in a row, and is not
  reserved.\<close>

theorem slug_rules:
  "ValidSlug s = None \<longleftrightarrow>
     2 \<le> length s \<and> length s \<le> 32 \<and> list_all slug_char s \<and> inner_hyphens s
     \<and> (\<nexists>u v. s = u @ ''--'' @ v) \<and> s \<notin> set ReservedSlugs"
  by (rule ValidSlug_None_iff)

text \<open>The host name of an accepted slug, below a domain the checks accept, is itself a
  domain name the checks accept, if the whole is short enough.\<close>

theorem slug_host_is_domain:
  assumes "ValidSlug s = None" and "ValidDomain d = None" and "length s + length d \<le> 252"
  shows "ValidDomain (s @ CHR ''.'' # d) = None"
proof -
  have "CHR ''.'' \<notin> set s"
    using assms(1) range_ok_no_dot[of s] by (simp add: ValidSlug_None_iff range_ok_slug)
  with assms slug_is_label show ?thesis
    by (simp add: ValidDomain_None_iff split_on_prefix)
qed

text \<open>C8: an error that crosses the network as its text and whether it is the person's to
  fix comes back with the same text, is theirs to fix just when it was, and if it was one of
  the sentinel errors (however wrapped) is recognised as that one.\<close>

theorem remote_error_roundtrip:
  "Error quote (Remote quote (Error quote e) (IsInput e)) = Error quote e
   \<and> IsInput (Remote quote (Error quote e) (IsInput e)) = IsInput e
   \<and> (\<forall>s \<in> set sentinels. errors_Is e s \<longrightarrow> errors_Is (Remote quote (Error quote e) (IsInput e)) s)"
proof (intro conjI ballI impI)
  fix s assume s: "s \<in> set sentinels" "errors_Is e s"
  then have r: "root_err e = s" by (simp add: errors_Is_root)
  with s(1) have "IsInput e" by (simp add: IsInput_root)
  with r s(1) Remote_keeps_sentinel[of e quote]
  show "errors_Is (Remote quote (Error quote e) (IsInput e)) s"
    by (simp add: errors_Is_root)
qed (simp_all add: Remote_text Remote_IsInput)

lemma remote_error_roundtrip_witness:
  "errors_Is (Remote id (Error id (Wrapped ''CreateComment: '' ErrLocked)) True) ErrLocked"
  using remote_error_roundtrip[of id "Wrapped ''CreateComment: '' ErrLocked"]
  by (simp add: IsInput_def sentinels_def)

end
