(* ===== verification/Access.thy ===== *)
theory Access
  imports Main
begin

text \<open>
  Who may read what: \<^verbatim>\<open>internal/auth/access.go\<close>. Roles, statuses and visibilities are
  the strings the code passes, so that an unknown one is a case of the model too.
\<close>

record Viewer =
  UserID :: int
  Operator :: bool
  Role :: string
  Status :: string

record Item =
  AuthorID :: int
  ItemStatus :: string

definition v_member :: "Viewer \<Rightarrow> bool" where
  "v_member v \<longleftrightarrow> Role v \<noteq> [] \<and> Status v = ''active''"

definition v_mod :: "Viewer \<Rightarrow> bool" where
  "v_mod v \<longleftrightarrow> v_member v \<and> (Role v = ''owner'' \<or> Role v = ''mod'')"

definition IsMember :: "Viewer \<Rightarrow> bool" where
  "IsMember v = v_member v"

definition CanModerate :: "Viewer \<Rightarrow> bool" where
  "CanModerate v \<longleftrightarrow> Operator v \<or> v_mod v"

definition CanSeeGroup :: "Viewer \<Rightarrow> string \<Rightarrow> bool" where
  "CanSeeGroup v vis =
     (if Operator v then True
      else if Status v = ''banned'' then False
      else if vis = ''hidden'' then v_member v
      else True)"

definition CanRead :: "Viewer \<Rightarrow> string \<Rightarrow> Item option \<Rightarrow> bool" where
  "CanRead v vis item =
     (if Operator v then True
      else if Status v = ''banned'' then False
      else if vis \<noteq> ''public'' \<and> \<not> v_member v then False
      else case item of
             None \<Rightarrow> True
           | Some it \<Rightarrow>
               (let isAuthor = (UserID v \<noteq> 0 \<and> UserID v = AuthorID it) in
                if ItemStatus it = ''visible'' \<or> ItemStatus it = ''flagged'' then True
                else if ItemStatus it = ''auto_hidden'' \<or> ItemStatus it = ''held'' then isAuthor \<or> v_mod v
                else if ItemStatus it = ''removed'' \<or> ItemStatus it = ''deleted'' then v_mod v
                else False))"

definition CanManage :: "Viewer \<Rightarrow> bool" where
  "CanManage v \<longleftrightarrow> Operator v \<or> v_member v \<and> Role v = ''owner''"

definition CanReadFAQ :: "Viewer \<Rightarrow> string \<Rightarrow> bool \<Rightarrow> bool" where
  "CanReadFAQ v vis publicFAQ =
     (if CanRead v vis None then True
      else vis = ''private'' \<and> publicFAQ \<and> Status v \<noteq> ''banned'')"

definition CanCite :: "string \<Rightarrow> bool" where
  "CanCite vis \<longleftrightarrow> vis = ''public''"

lemmas access_defs = v_member_def v_mod_def IsMember_def CanModerate_def CanSeeGroup_def CanRead_def
  CanManage_def CanReadFAQ_def CanCite_def


section \<open>The abstract rule\<close>

text \<open>
  What the one rule promises, as a level of trust a viewer has in a group and a level an
  item asks for.
\<close>

datatype trust = Outsider | Reader | AuthorOf | Moderator

fun rank :: "trust \<Rightarrow> nat" where
  "rank Outsider = 0" | "rank Reader = 1" | "rank AuthorOf = 2" | "rank Moderator = 3"

instantiation trust :: linorder
begin

definition less_eq_trust :: "trust \<Rightarrow> trust \<Rightarrow> bool" where
  "less_eq_trust a b \<longleftrightarrow> rank a \<le> rank b"

definition less_trust :: "trust \<Rightarrow> trust \<Rightarrow> bool" where
  "less_trust a b \<longleftrightarrow> rank a < rank b"

instance
proof
  fix x y :: trust
  assume "x \<le> y" "y \<le> x"
  then show "x = y" by (cases x; cases y) (simp_all add: less_eq_trust_def)
qed (auto simp: less_eq_trust_def less_trust_def)

end

definition trust_of :: "Viewer \<Rightarrow> string \<Rightarrow> int \<Rightarrow> trust" where
  "trust_of v vis author =
     (if Operator v \<or> Status v \<noteq> ''banned'' \<and> v_mod v then Moderator
      else if Status v = ''banned'' \<or> (vis \<noteq> ''public'' \<and> \<not> v_member v) then Outsider
      else if UserID v \<noteq> 0 \<and> UserID v = author then AuthorOf
      else Reader)"

definition needed :: "string \<Rightarrow> trust option" where
  "needed st =
     (if st = ''visible'' \<or> st = ''flagged'' then Some Reader
      else if st = ''auto_hidden'' \<or> st = ''held'' then Some AuthorOf
      else if st = ''removed'' \<or> st = ''deleted'' then Some Moderator
      else None)"

lemma CanRead_trust:
  assumes "\<not> Operator v"
  shows "CanRead v vis (Some it) \<longleftrightarrow>
    (\<exists>t. needed (ItemStatus it) = Some t \<and> t \<le> trust_of v vis (AuthorID it))"
  using assms
  by (auto simp: CanRead_def trust_of_def needed_def less_eq_trust_def v_mod_def v_member_def Let_def)

section \<open>Properties\<close>

text \<open>C5: the reading rule refines a comparison of levels: an item of known status is
  readable just when the viewer's trust in the group (outsider, reader, its author,
  moderator) reaches the level the status asks for; an unknown status is readable by the
  site operator alone.\<close>

theorem CanRead_refines_trust:
  "CanRead v vis (Some it) \<longleftrightarrow>
     (case needed (ItemStatus it) of
        Some t \<Rightarrow> t \<le> trust_of v vis (AuthorID it)
      | None \<Rightarrow> Operator v)"
proof (cases "Operator v")
  case True
  then show ?thesis
    by (auto simp: CanRead_def trust_of_def needed_def less_eq_trust_def split: option.splits)
next
  case False
  with CanRead_trust[OF False] show ?thesis by (auto split: option.splits)
qed



lemma read_implies_see: "CanRead v vis it \<Longrightarrow> CanSeeGroup v vis"
  by (auto simp: CanRead_def CanSeeGroup_def split: if_splits)

lemma faq_implies_see: "CanReadFAQ v vis b \<Longrightarrow> CanSeeGroup v vis"
  using read_implies_see[of v vis None]
  by (cases "CanRead v vis None") (auto simp: CanReadFAQ_def CanSeeGroup_def)

lemma manage_implies_moderate: "CanManage v \<Longrightarrow> CanModerate v"
  by (auto simp: CanManage_def CanModerate_def v_mod_def)

end
