(* ===== verification/SendLimits.thy ===== *)
theory SendLimits
  imports Main
begin







section \<open>A run of requests\<close>












section \<open>Properties\<close>



end
