(* ===== verification/Ids.thy ===== *)
theory Ids
  imports "HOL-Library.Word"
begin

text \<open>
  The ids every row uses: \<^verbatim>\<open>internal/ids/ids.go\<close>, at their width. An \<^verbatim>\<open>int64\<close> is a
  64-bit word read with its sign; the clock is an argument (milliseconds since 1970), and
  the mutex makes each \<open>Next\<close> one step.
\<close>

unbundle bit_operations_syntax

type_synonym int64 = "64 word"

definition epochMs :: int64 where "epochMs = 1767225600000"
definition maxNode :: int64 where "maxNode = 1023"
definition maxSeq :: int64 where "maxSeq = 4095"

record Generator =
  gnode :: int64
  lastMs :: int64
  seq :: int64

definition NewGenerator :: "int64 \<Rightarrow> Generator" where
  "NewGenerator n = \<lparr>gnode = n AND maxNode, lastMs = 0, seq = 0\<rparr>"

definition Next :: "int64 \<Rightarrow> Generator \<Rightarrow> int64 \<times> Generator" where
  "Next unixMilli g =
     (let ms0 = unixMilli - epochMs;
          ms1 = (if ms0 <s lastMs g then lastMs g else ms0);
          (ms, sq) = (if ms1 = lastMs g
                      then (let s = seq g + 1 in if maxSeq <s s then (ms1 + 1, 0) else (ms1, s))
                      else (ms1, 0))
      in (push_bit 22 ms OR push_bit 12 (gnode g) OR sq, g\<lparr>lastMs := ms, seq := sq\<rparr>))"

section \<open>The parts of an id\<close>

definition id_of :: "nat \<Rightarrow> nat \<Rightarrow> nat \<Rightarrow> nat" where
  "id_of ms n s = ms * 2 ^ 22 + n * 2 ^ 12 + s"

lemma or_shifted_nat: "b < 2 ^ k \<Longrightarrow> push_bit k a OR b = a * 2 ^ k + (b::nat)"
proof -
  assume "b < 2 ^ k"
  then have b: "take_bit k b = b" by (simp add: take_bit_nat_eq_self)
  have "push_bit k a AND b = 0"
    by (rule bit_eqI) (auto simp: bit_simps, metis b bit_take_bit_iff not_le)
  then have "push_bit k a OR b = push_bit k a + b"
    by (simp add: disjunctive_add_eq_or)
  then show ?thesis by (simp add: push_bit_nat_def)
qed

lemma pack_nat:
  assumes "n < 1024" "s < 4096"
  shows "push_bit 22 ms OR push_bit 12 n OR s = id_of ms n s"
proof -
  have s: "push_bit 12 n OR s = n * 2 ^ 12 + s" using assms by (simp add: or_shifted_nat)
  have "n * 2 ^ 12 + s < 2 ^ 22" using assms by simp
  then show ?thesis
    using s by (simp add: or_shifted_nat or.assoc id_of_def)
qed

lemma unat_pack:
  fixes ms n s :: int64
  assumes "unat ms < 2 ^ 41" "unat n < 1024" "unat s < 4096"
  shows "unat (push_bit 22 ms OR push_bit 12 n OR s) = id_of (unat ms) (unat n) (unat s)"
proof -
  have 1: "push_bit 22 (unat ms) < 2 ^ 64" using assms(1) by (simp add: push_bit_nat_def)
  have 2: "push_bit 12 (unat n) < 2 ^ 64" using assms(2) by (simp add: push_bit_nat_def)
  have "unat (push_bit 22 ms OR push_bit 12 n OR s)
      = push_bit 22 (unat ms) OR push_bit 12 (unat n) OR unat s"
    using 1 2 by (simp add: unsigned_or_eq unsigned_push_bit_eq take_bit_nat_eq_self)
  with pack_nat[OF assms(2,3)] show ?thesis by simp
qed

lemma id_of_bound: "ms < 2 ^ 41 \<Longrightarrow> n < 1024 \<Longrightarrow> s < 4096 \<Longrightarrow> id_of ms n s < 2 ^ 63"
  by (simp add: id_of_def)

lemma id_of_less:
  "s < 4096 \<Longrightarrow> n < 1024 \<Longrightarrow> ms < ms' \<or> ms = ms' \<and> s < s' \<Longrightarrow> id_of ms n s < id_of ms' n s'"
proof -
  assume s: "s < 4096" and n: "n < 1024" and "ms < ms' \<or> ms = ms' \<and> s < s'"
  then consider "Suc ms \<le> ms'" | "ms = ms' \<and> s < s'" by linarith
  then show ?thesis
  proof cases
    case 1
    then have "Suc ms * 2 ^ 22 \<le> ms' * 2 ^ 22" by (rule mult_right_mono) simp
    with s n show ?thesis by (simp add: id_of_def)
  next
    case 2
    then show ?thesis by (simp add: id_of_def)
  qed
qed

lemma id_of_inj:
  assumes "s < 4096" "s' < 4096" "n < 1024" "n' < 1024" "id_of ms n s = id_of ms' n' s'"
  shows "n = n'"
proof -
  have "id_of m k t div 4096 mod 1024 = k" if "t < 4096" "k < 1024" for m k t
  proof -
    have "id_of m k t = t + (m * 1024 + k) * 4096" by (simp add: id_of_def)
    then have "id_of m k t div 4096 = m * 1024 + k + t div 4096"
      by (simp add: div_mult_self1 del: add_mult_distrib)
    with that show ?thesis by simp
  qed
  with assms show ?thesis by metis
qed

lemma sint_small: "unat (w :: int64) < 2 ^ 63 \<Longrightarrow> sint w = int (unat w)"
proof -
  assume "unat w < 2 ^ 63"
  then have "int (unat w) < int (2 ^ 63)" by (simp only: of_nat_less_iff)
  then have "uint w < 2 ^ 63" by simp
  then show ?thesis
    by (simp add: sint_uint signed_take_bit_int_eq_self_iff order.trans[OF _ uint_ge_0])
qed

lemma unat_sint: "0 \<le> sint (w :: int64) \<Longrightarrow> int (unat w) = sint w"
proof -
  assume "0 \<le> sint w"
  moreover have "sint w < 2 ^ 63" using sint_lt[of w] by simp
  moreover have "uint w = sint w mod 2 ^ 64" by (simp add: uint_sint take_bit_eq_mod)
  ultimately show ?thesis by simp
qed

section \<open>Ids grow\<close>

text \<open>
  A generator in use: its node number fits ten bits, its sequence number twelve, and the
  last millisecond it used is at most \<open>M\<close>.
\<close>

definition gen_ok :: "nat \<Rightarrow> Generator \<Rightarrow> bool" where
  "gen_ok M g \<longleftrightarrow> unat (gnode g) < 1024 \<and> unat (seq g) < 4096 \<and> unat (lastMs g) \<le> M"

definition stamp :: "Generator \<Rightarrow> nat \<times> nat" where
  "stamp g = (unat (lastMs g), unat (seq g))"

lemma unat_Suc_word: "unat (w :: int64) < 2 ^ 63 \<Longrightarrow> unat (w + 1) = unat w + 1"
  by (simp add: unat_word_ariths)

lemma Next_step:
  assumes g: "gen_ok M g" and M: "M + 1 < 2 ^ 41" and t: "sint (c - epochMs) \<le> int M"
    and N: "Next c g = (i, g')"
  shows "gen_ok (M + 1) g'" and "gnode g' = gnode g"
    and "sint i = int (id_of (unat (lastMs g')) (unat (gnode g)) (unat (seq g')))"
    and "unat (lastMs g) < unat (lastMs g') \<or> unat (lastMs g) = unat (lastMs g') \<and> unat (seq g) < unat (seq g')"
proof -
  define ms1 where "ms1 = (if c - epochMs <s lastMs g then lastMs g else c - epochMs)"
  have small: "unat (lastMs g) < 2 ^ 63" "unat (seq g) < 2 ^ 63" using g M by (simp_all add: gen_ok_def)
  have ms1: "unat (lastMs g) \<le> unat ms1 \<and> unat ms1 \<le> M"
  proof (cases "c - epochMs <s lastMs g")
    case True
    then show ?thesis using g by (simp add: ms1_def gen_ok_def)
  next
    case False
    then have "int (unat (lastMs g)) \<le> sint (c - epochMs)"
      using small(1) by (simp add: word_sless_alt sint_small)
    then have "int (unat (lastMs g)) \<le> int (unat (c - epochMs))" "int (unat (c - epochMs)) \<le> int M"
      using unat_sint[of "c - epochMs"] t by linarith+
    with False show ?thesis by (simp only: ms1_def if_False of_nat_le_iff)
  qed
  have s1: "unat (seq g + 1) = unat (seq g) + 1" using small(2) by (rule unat_Suc_word)
  have m1: "unat (ms1 + 1) = unat ms1 + 1" using ms1 M by (intro unat_Suc_word) simp
  have over: "maxSeq <s seq g + 1 \<longleftrightarrow> unat (seq g) = 4095"
  proof -
    have "sint (seq g + 1) = int (unat (seq g)) + 1"
      using s1 small(2) g sint_small[of "seq g + 1"] by (simp add: gen_ok_def)
    moreover have "maxSeq <s seq g + 1 \<longleftrightarrow> 4095 < sint (seq g + 1)"
      by (simp add: word_sless_alt maxSeq_def)
    moreover have "unat (seq g) < 4096" using g by (simp add: gen_ok_def)
    ultimately show ?thesis by linarith
  qed
  have parts: "gnode g' = gnode g \<and> i = push_bit 22 (lastMs g') OR push_bit 12 (gnode g) OR seq g'"
    using N by (auto simp: Next_def Let_def split: prod.splits)
  have next_ms: "lastMs g' = (if ms1 = lastMs g \<and> unat (seq g) = 4095 then ms1 + 1 else ms1)"
    and next_seq: "seq g' = (if ms1 = lastMs g \<and> unat (seq g) < 4095 then seq g + 1 else 0)"
    using N g over by (auto simp: Next_def Let_def ms1_def[symmetric] gen_ok_def split: if_splits prod.splits)
  show "gnode g' = gnode g" using parts by simp
  show ok: "gen_ok (M + 1) g'"
    using g ms1 m1 s1 parts next_ms next_seq by (auto simp: gen_ok_def)
  show "unat (lastMs g) < unat (lastMs g') \<or> unat (lastMs g) = unat (lastMs g') \<and> unat (seq g) < unat (seq g')"
  proof (cases "ms1 = lastMs g")
    case True
    then show ?thesis using g m1 s1 next_ms next_seq by (auto simp: gen_ok_def)
  next
    case False
    then have "unat (lastMs g) \<noteq> unat ms1" by (simp add: word_unat_eq_iff)
    then show ?thesis using False ms1 next_ms by auto
  qed
  have b: "unat (lastMs g') < 2 ^ 41" "unat (gnode g) < 1024" "unat (seq g') < 4096"
    using ok M g by (simp_all add: gen_ok_def)
  then have "unat i = id_of (unat (lastMs g')) (unat (gnode g)) (unat (seq g'))"
    using parts unat_pack by simp
  then show "sint i = int (id_of (unat (lastMs g')) (unat (gnode g)) (unat (seq g')))"
    using id_of_bound[OF b] by (simp add: sint_small)
qed

text \<open>The ids a generator returns when its clock reads \<open>cs\<close> in turn.\<close>

fun generate :: "int64 list \<Rightarrow> Generator \<Rightarrow> int64 list" where
  "generate [] g = []"
| "generate (c # cs) g = (let (i, g') = Next c g in i # generate cs g')"

lemma generate_ids:
  assumes "gen_ok M g" "M + length cs < 2 ^ 41" "\<forall>c \<in> set cs. sint (c - epochMs) \<le> int M"
  shows "(\<forall>i \<in> set (generate cs g). \<exists>m s. s < 4096 \<and> sint i = int (id_of m (unat (gnode g)) s) \<and>
           id_of (unat (lastMs g)) (unat (gnode g)) (unat (seq g)) < id_of m (unat (gnode g)) s)
       \<and> sorted_wrt (\<lambda>i j. sint i < sint j) (generate cs g)"
  using assms
proof (induction cs arbitrary: M g)
  case Nil
  show ?case by simp
next
  case (Cons c cs)
  obtain i g' where N: "Next c g = (i, g')" by fastforce
  have M: "M + 1 < 2 ^ 41" "sint (c - epochMs) \<le> int M" using Cons.prems by auto
  note step = Next_step[OF Cons.prems(1) M N]
  have up: "id_of (unat (lastMs g)) (unat (gnode g)) (unat (seq g))
       < id_of (unat (lastMs g')) (unat (gnode g)) (unat (seq g'))"
    using step(4) Cons.prems(1) by (intro id_of_less) (auto simp: gen_ok_def)
  have s': "unat (seq g') < 4096" using step(1) by (simp add: gen_ok_def)
  have IH: "(\<forall>i \<in> set (generate cs g'). \<exists>m s. s < 4096 \<and> sint i = int (id_of m (unat (gnode g)) s) \<and>
       id_of (unat (lastMs g')) (unat (gnode g)) (unat (seq g')) < id_of m (unat (gnode g)) s)
     \<and> sorted_wrt (\<lambda>i j. sint i < sint j) (generate cs g')"
  proof -
    have "M + 1 + length cs < 2 ^ 41" "\<forall>c \<in> set cs. sint (c - epochMs) \<le> int (M + 1)"
      using Cons.prems(2,3) by force+
    from Cons.IH[OF step(1) this] show ?thesis unfolding step(2) .
  qed
  have later: "\<exists>m s. s < 4096 \<and> sint j = int (id_of m (unat (gnode g)) s) \<and>
       id_of (unat (lastMs g)) (unat (gnode g)) (unat (seq g)) < id_of m (unat (gnode g)) s \<and> sint i < sint j"
    if j: "j \<in> set (generate cs g')" for j
  proof -
    obtain m s where "s < 4096" "sint j = int (id_of m (unat (gnode g)) s)"
      "id_of (unat (lastMs g')) (unat (gnode g)) (unat (seq g')) < id_of m (unat (gnode g)) s"
      using bspec[OF conjunct1[OF IH] j] by blast
    moreover from this have "sint i < sint j" using step(3) by linarith
    moreover have "id_of (unat (lastMs g)) (unat (gnode g)) (unat (seq g)) < id_of m (unat (gnode g)) s"
      using up calculation(3) by linarith
    ultimately show ?thesis by (intro exI[of _ m] exI[of _ s] conjI)
  qed
  have "generate (c # cs) g = i # generate cs g'" by (simp add: N)
  moreover have "\<forall>j \<in> set (i # generate cs g'). \<exists>m s. s < 4096 \<and> sint j = int (id_of m (unat (gnode g)) s)
      \<and> id_of (unat (lastMs g)) (unat (gnode g)) (unat (seq g)) < id_of m (unat (gnode g)) s"
  proof
    fix j assume "j \<in> set (i # generate cs g')"
    then consider "j = i" | "j \<in> set (generate cs g')" by auto
    then show "\<exists>m s. s < 4096 \<and> sint j = int (id_of m (unat (gnode g)) s)
      \<and> id_of (unat (lastMs g)) (unat (gnode g)) (unat (seq g)) < id_of m (unat (gnode g)) s"
    proof cases
      case 1
      with up s' step(3) show ?thesis by blast
    next
      case 2
      with later show ?thesis by blast
    qed
  qed
  moreover have "sorted_wrt (\<lambda>i j. sint i < sint j) (i # generate cs g')"
    using later IH unfolding sorted_wrt.simps by blast
  ultimately show ?case by (simp only:)
qed

section \<open>Properties\<close>

text \<open>C4: the ids one generator returns strictly increase, read as the signed numbers they
  are, whatever its clock does (stands still, steps back, runs more than 4096 ids in a
  millisecond), as long as the time plus one millisecond per id stays inside 41 bits; and no
  id of one node number is an id of another.\<close>

theorem ids_increase_and_differ:
  assumes "unat n < 1024" "unat n' < 1024" "n \<noteq> n'"
    and "M + length cs < 2 ^ 41" "\<forall>c \<in> set cs. sint (c - epochMs) \<le> int M"
    and "M + length cs' < 2 ^ 41" "\<forall>c \<in> set cs'. sint (c - epochMs) \<le> int M"
  shows "sorted_wrt (\<lambda>i j. sint i < sint j) (generate cs (NewGenerator n))
    \<and> set (generate cs (NewGenerator n)) \<inter> set (generate cs' (NewGenerator n')) = {}"
proof -
  have new: "gen_ok M (NewGenerator k) \<and> unat (gnode (NewGenerator k)) = unat k" if "unat k < 1024" for k
  proof -
    have "take_bit 10 (unat k) = unat k" using that by (simp add: take_bit_nat_eq_self)
    then have "unat k AND 1023 = unat k"
      by (simp add: take_bit_eq_mask mask_eq_exp_minus_1)
    then have "unat (k AND maxNode) = unat k"
      by (simp add: maxNode_def unsigned_and_eq)
    then show ?thesis using that by (simp add: NewGenerator_def gen_ok_def)
  qed
  note new1 = new[OF assms(1)] and new2 = new[OF assms(2)]
  note 1 = generate_ids[OF conjunct1[OF new1] assms(4,5)]
    and 2 = generate_ids[OF conjunct1[OF new2] assms(6,7)]
  have "False" if i: "i \<in> set (generate cs (NewGenerator n))"
    and i': "i \<in> set (generate cs' (NewGenerator n'))" for i
  proof -
    obtain m s where a: "s < 4096" "sint i = int (id_of m (unat n) s)"
      using bspec[OF conjunct1[OF 1] i] unfolding conjunct2[OF new1] by blast
    obtain m' s' where b: "s' < 4096" "sint i = int (id_of m' (unat n') s')"
      using bspec[OF conjunct1[OF 2] i'] unfolding conjunct2[OF new2] by blast
    have "id_of m (unat n) s = id_of m' (unat n') s'" using a(2) b(2) by simp
    with id_of_inj[OF a(1) b(1) assms(1,2)] have "unat n = unat n'" .
    with assms(3) show False by (simp add: word_unat_eq_iff)
  qed
  with conjunct2[OF 1] show ?thesis by blast
qed

lemma ids_increase_and_differ_witness:
  "set (generate [1767225600005] (NewGenerator 1)) \<inter> set (generate [1767225600005] (NewGenerator 2)) = {}"
  by (rule conjunct2[OF ids_increase_and_differ[where M = 10]]) (simp_all add: epochMs_def)

end
