(* ===== verification/Clusters.thy ===== *)
theory Clusters
  imports Prelude
begin

text \<open>
  The union-find of \<^verbatim>\<open>uncoveredClusters\<close> in \<^verbatim>\<open>internal/cmd/faq.go\<close>: parent pointers
  over a set of post ids, path halving in \<open>uf_find\<close>, the smaller root kept by a union. The
  loop of \<open>find\<close> is given as much fuel as there are nodes; every round goes to a smaller node,
  so that is enough (\<open>uf_find_rt\<close>). What it computes: the connected components of the links
  between those posts, each in order (\<open>components_spec\<close>).
\<close>

section \<open>The code\<close>

type_synonym parents = "int \<Rightarrow> int"

fun uf_find :: "nat \<Rightarrow> parents \<Rightarrow> int \<Rightarrow> int \<times> parents" where
  "uf_find 0 p x = (x, p)"
| "uf_find (Suc n) p x =
     (if p x = x then (x, p)
      else let p' = p(x := p (p x)) in uf_find n p' (p' x))"

definition uf_union :: "int list \<Rightarrow> int \<times> int \<Rightarrow> parents \<Rightarrow> parents" where
  "uf_union nodes e p =
     (case e of (a, b) \<Rightarrow>
        if a \<notin> set nodes \<or> b \<notin> set nodes then p
        else let (ra, p1) = uf_find (length nodes) p a;
                 (rb, p2) = uf_find (length nodes) p1 b
             in if ra \<noteq> rb then p2(max ra rb := min ra rb) else p2)"

fun uf_roots :: "nat \<Rightarrow> parents \<Rightarrow> int list \<Rightarrow> (int \<times> int) list" where
  "uf_roots n p [] = []"
| "uf_roots n p (x # xs) = (let (r, p') = uf_find n p x in (x, r) # uf_roots n p' xs)"

definition components :: "int list \<Rightarrow> (int \<times> int) list \<Rightarrow> int list list" where
  "components nodes edges =
     (let p = fold (uf_union nodes) edges (\<lambda>x. x);
          rs = uf_roots (length nodes) p (sort nodes)
      in map (\<lambda>r. map fst (filter (\<lambda>x. snd x = r) rs)) (remdups (map snd rs)))"

section \<open>Where the pointers lead\<close>

function rt :: "int list \<Rightarrow> parents \<Rightarrow> int \<Rightarrow> int" where
  "rt S p x = (if p x \<in> set S \<and> p x < x then rt S p (p x) else x)"
  by pat_completeness auto
termination
proof (relation "measure (\<lambda>(S, p, x). card {y \<in> set S. y < x})")
  fix S :: "int list" and p :: parents and x
  assume "p x \<in> set S \<and> p x < x"
  then have "{y \<in> set S. y < p x} \<subset> {y \<in> set S. y < x}" by auto
  then have "card {y \<in> set S. y < p x} < card {y \<in> set S. y < x}" by (intro psubset_card_mono) auto
  then show "((S, p, p x), S, p, x) \<in> measure (\<lambda>(S, p, x). card {y \<in> set S. y < x})" by simp
qed simp

declare rt.simps [simp del]

definition points_down :: "int list \<Rightarrow> parents \<Rightarrow> bool" where
  "points_down S p \<longleftrightarrow> (\<forall>x \<in> set S. p x \<in> set S \<and> p x \<le> x)"

lemma points_downD: "points_down S p \<Longrightarrow> x \<in> set S \<Longrightarrow> p x \<in> set S \<and> p x \<le> x"
  by (simp add: points_down_def)

lemma rt_step: "points_down S p \<Longrightarrow> x \<in> set S \<Longrightarrow> rt S p (p x) = rt S p x"
  by (cases "p x = x") (use points_downD[of S p x] in \<open>auto simp: rt.simps[of S p x]\<close>)

lemma rt_root: "x \<in> set S \<Longrightarrow> p x = x \<Longrightarrow> rt S p x = x"
  by (subst rt.simps) simp

lemma down_induct [consumes 1, case_names smaller]:
  assumes "x \<in> set S" and step: "\<And>x. x \<in> set S \<Longrightarrow> (\<And>y. y \<in> set S \<Longrightarrow> y < x \<Longrightarrow> P y) \<Longrightarrow> P (x::int)"
  shows "P x"
  using assms(1)
proof (induction "card {y \<in> set S. y < x}" arbitrary: x rule: less_induct)
  case less
  show ?case
  proof (rule step[OF less.prems])
    fix y assume y: "y \<in> set S" "y < x"
    then have "{z \<in> set S. z < y} \<subset> {z \<in> set S. z < x}" by auto
    then have "card {z \<in> set S. z < y} < card {z \<in> set S. z < x}" by (intro psubset_card_mono) auto
    with y less.hyps show "P y" by blast
  qed
qed

lemma rt_in:
  assumes "points_down S p" "x \<in> set S"
  shows "rt S p x \<in> set S \<and> p (rt S p x) = rt S p x \<and> rt S p x \<le> x"
  using assms(2)
proof (induction rule: down_induct)
  case (smaller x)
  note d = points_downD[OF assms(1) smaller.hyps]
  show ?case
  proof (cases "p x = x")
    case True
    then show ?thesis using smaller.hyps by (simp add: rt_root)
  next
    case False
    then have "p x < x" using d by simp
    then show ?thesis using smaller.IH[of "p x"] d rt_step[OF assms(1) smaller.hyps] by fastforce
  qed
qed

lemma rt_halve:
  assumes p: "points_down S p" and x: "x \<in> set S" and q: "q = p(x := p (p x))"
  shows "points_down S q" and "y \<in> set S \<Longrightarrow> rt S q y = rt S p y"
proof -
  have qx: "q x = p (p x)" and other: "\<And>z. z \<noteq> x \<Longrightarrow> q z = p z" using q by auto
  have px: "p x \<in> set S" "p x \<le> x" "p (p x) \<in> set S" "p (p x) \<le> p x"
    using points_downD[OF p] x by auto
  then have "p (p x) \<le> x" by linarith
  note px = px this
  show down: "points_down S q" unfolding points_down_def
  proof
    fix z assume "z \<in> set S"
    then show "q z \<in> set S \<and> q z \<le> z" using px points_downD[OF p] qx other[of z] by (cases "z = x") auto
  qed
  show "rt S q y = rt S p y" if "y \<in> set S"
    using that
  proof (induction rule: down_induct)
    case (smaller y)
    have eq: "rt S p (q y) = rt S p y"
      using rt_step[OF p] smaller.hyps px qx x other[of y] by (cases "y = x") auto
    show ?case
    proof (cases "q y = y")
      case True
      have "p y = y"
      proof (cases "y = x")
        case True
        with \<open>q y = y\<close> qx px show ?thesis by simp
      qed (use True other in simp)
      with True smaller.hyps show ?thesis by (simp add: rt_root)
    next
      case False
      then have lt: "q y < y" "q y \<in> set S" using points_downD[OF down smaller.hyps] by auto
      have "rt S q y = rt S q (q y)" using rt_step[OF down smaller.hyps] by simp
      also have "\<dots> = rt S p (q y)" using smaller.IH lt by blast
      finally show ?thesis using eq by simp
    qed
  qed
qed

lemma rt_merge:
  assumes p: "points_down S p" and S: "a \<in> set S" "b \<in> set S" and r: "p a = a" "p b = b" "a < b"
    and q: "q = p(b := a)"
  shows "points_down S q" and "y \<in> set S \<Longrightarrow> rt S q y = (if rt S p y = b then a else rt S p y)"
proof -
  have qb: "q b = a" and other: "\<And>z. z \<noteq> b \<Longrightarrow> q z = p z" using q by auto
  show down: "points_down S q" unfolding points_down_def
  proof
    fix z assume "z \<in> set S"
    then show "q z \<in> set S \<and> q z \<le> z" using points_downD[OF p] qb other[of z] S r by (cases "z = b") auto
  qed
  show "rt S q y = (if rt S p y = b then a else rt S p y)" if "y \<in> set S"
    using that
  proof (induction rule: down_induct)
    case (smaller y)
    show ?case
    proof (cases "y = b")
      case True
      have "rt S q b = rt S q a" using rt_step[OF down S(2)] qb by simp
      also have "\<dots> = a" using S(1) other[of a] r by (intro rt_root) auto
      finally have "rt S q y = a" using True by simp
      moreover have "rt S p y = b" using True S(2) r(2) by (simp add: rt_root)
      ultimately show ?thesis by simp
    next
      case False
      show ?thesis
      proof (cases "p y = y")
        case True
        then have "rt S q y = y" "rt S p y = y" using other[OF False] smaller.hyps by (simp_all add: rt_root)
        with False show ?thesis by simp
      next
        case ne: False
        then have lt: "p y < y" "p y \<in> set S" using points_downD[OF p smaller.hyps] by auto
        have "rt S q y = rt S q (p y)" using rt_step[OF down smaller.hyps] other[OF False] by simp
        with smaller.IH[OF lt(2,1)] rt_step[OF p smaller.hyps] show ?thesis by simp
      qed
    qed
  qed
qed

section \<open>\<open>find\<close> returns the root and moves no root\<close>

lemma uf_find_rt:
  assumes "points_down S p" "x \<in> set S" "card {y \<in> set S. y < x} \<le> n" "uf_find n p x = (r, p')"
  shows "r = rt S p x \<and> points_down S p' \<and> (\<forall>y \<in> set S. rt S p' y = rt S p y)"
  using assms
proof (induction n arbitrary: p x)
  case 0
  then have "{y \<in> set S. y < x} = {}" by simp
  with points_downD[OF 0(1,2)] have "p x = x" by force
  with 0 show ?case by (simp add: rt_root)
next
  case (Suc n)
  show ?case
  proof (cases "p x = x")
    case True
    with Suc.prems show ?thesis by (simp add: rt_root)
  next
    case False
    define q where "q = p(x := p (p x))"
    note h = rt_halve[OF Suc.prems(1,2) q_def]
    have px: "p x \<in> set S" "p x < x" using points_downD[OF Suc.prems(1,2)] False by auto
    then have x': "p (p x) \<in> set S" "p (p x) < x" using points_downD[OF Suc.prems(1) px(1)] by auto
    have "{y \<in> set S. y < p (p x)} \<subset> {y \<in> set S. y < x}" using x' by auto
    then have "card {y \<in> set S. y < p (p x)} < card {y \<in> set S. y < x}" by (intro psubset_card_mono) auto
    then have fuel: "card {y \<in> set S. y < p (p x)} \<le> n" using Suc.prems(3) by linarith
    have run: "uf_find n q (p (p x)) = (r, p')" using Suc.prems(4) False by (simp add: q_def Let_def)
    have "rt S q (p (p x)) = rt S p x"
      using h(2)[OF x'(1)] rt_step[OF Suc.prems(1) px(1)] rt_step[OF Suc.prems(1,2)] by simp
    with Suc.IH[OF h(1) x'(1) fuel run] h(2) show ?thesis by simp
  qed
qed

lemma card_below: "card {y \<in> set S. y < (x::int)} \<le> length S"
proof -
  have "card {y \<in> set S. y < x} \<le> card (set S)" by (intro card_mono) auto
  also have "\<dots> \<le> length S" by (rule card_length)
  finally show ?thesis .
qed

text \<open>One link read.\<close>

lemma uf_union_rt:
  assumes "points_down S p"
  shows "points_down S (uf_union S (a, b) p)"
    and "x \<in> set S \<Longrightarrow> y \<in> set S \<Longrightarrow>
      rt S (uf_union S (a, b) p) x = rt S (uf_union S (a, b) p) y \<longleftrightarrow>
      rt S p x = rt S p y \<or> (a \<in> set S \<and> b \<in> set S \<and>
        (rt S p x = rt S p a \<and> rt S p y = rt S p b \<or> rt S p x = rt S p b \<and> rt S p y = rt S p a))"
proof -
  have "points_down S (uf_union S (a, b) p) \<and> (\<forall>x \<in> set S. \<forall>y \<in> set S.
      rt S (uf_union S (a, b) p) x = rt S (uf_union S (a, b) p) y \<longleftrightarrow>
      rt S p x = rt S p y \<or> (a \<in> set S \<and> b \<in> set S \<and>
        (rt S p x = rt S p a \<and> rt S p y = rt S p b \<or> rt S p x = rt S p b \<and> rt S p y = rt S p a)))"
  proof (cases "a \<in> set S \<and> b \<in> set S")
    case True
    then have S: "a \<in> set S" "b \<in> set S" by auto
    obtain ra p1 where f1: "uf_find (length S) p a = (ra, p1)" by fastforce
    obtain rb p2 where f2: "uf_find (length S) p1 b = (rb, p2)" by fastforce
    note g1 = uf_find_rt[OF assms S(1) card_below f1]
    have p1: "points_down S p1" using g1 by blast
    note g2 = uf_find_rt[OF p1 S(2) card_below f2]
    have ra: "ra = rt S p a" using g1 by blast
    have rb: "rb = rt S p b" using g1 g2 S by simp
    have p2: "points_down S p2" and same: "\<forall>y \<in> set S. rt S p2 y = rt S p y" using g1 g2 by simp_all
    have "p2 ra = ra" "p2 rb = rb" "ra \<in> set S" "rb \<in> set S"
      using rt_in[OF p2 S(1)] rt_in[OF p2 S(2)] same S ra rb by auto
    note roots = this
    show ?thesis
    proof (cases "ra = rb")
      case True
      have "uf_union S (a, b) p = p2" using S f1 f2 True by (simp add: uf_union_def)
      with p2 same ra rb True show ?thesis by auto
    next
      case False
      have m: "min ra rb \<in> set S" "max ra rb \<in> set S" "p2 (min ra rb) = min ra rb" "p2 (max ra rb) = max ra rb"
        "min ra rb < max ra rb" using roots False by (auto simp: min_def max_def)
      have eq: "uf_union S (a, b) p = p2(max ra rb := min ra rb)" using S f1 f2 False by (simp add: uf_union_def)
      note g = rt_merge[OF p2 m eq]
      have new: "\<forall>y \<in> set S. rt S (uf_union S (a, b) p) y = (if rt S p y = max ra rb then min ra rb else rt S p y)"
        using g(2) same by simp
      show ?thesis
      proof (intro conjI ballI)
        fix x y assume "x \<in> set S" "y \<in> set S"
        with new have xy: "rt S (uf_union S (a, b) p) x = (if rt S p x = max ra rb then min ra rb else rt S p x)"
          "rt S (uf_union S (a, b) p) y = (if rt S p y = max ra rb then min ra rb else rt S p y)" by blast+
        show "rt S (uf_union S (a, b) p) x = rt S (uf_union S (a, b) p) y \<longleftrightarrow>
          rt S p x = rt S p y \<or> (a \<in> set S \<and> b \<in> set S \<and>
            (rt S p x = rt S p a \<and> rt S p y = rt S p b \<or> rt S p x = rt S p b \<and> rt S p y = rt S p a))"
          unfolding xy using S by (auto simp: ra rb min_def max_def)
      qed (rule g(1))
    qed
  qed (use assms in \<open>auto simp: uf_union_def\<close>)
  then show "points_down S (uf_union S (a, b) p)"
    and "x \<in> set S \<Longrightarrow> y \<in> set S \<Longrightarrow>
      rt S (uf_union S (a, b) p) x = rt S (uf_union S (a, b) p) y \<longleftrightarrow>
      rt S p x = rt S p y \<or> (a \<in> set S \<and> b \<in> set S \<and>
        (rt S p x = rt S p a \<and> rt S p y = rt S p b \<or> rt S p x = rt S p b \<and> rt S p y = rt S p a))"
    by blast+
qed

section \<open>What the pass computes\<close>

text \<open>The active links between nodes, both ways.\<close>

definition links_between :: "int list \<Rightarrow> (int \<times> int) list \<Rightarrow> (int \<times> int) set" where
  "links_between nodes edges =
     {(x, y). x \<in> set nodes \<and> y \<in> set nodes \<and> ((x, y) \<in> set edges \<or> (y, x) \<in> set edges)}"

lemma links_refl_root:
  "points_down S (fold (uf_union S) E (\<lambda>x. x)) \<and>
   (\<forall>x \<in> set S. \<forall>y \<in> set S.
      rt S (fold (uf_union S) E (\<lambda>x. x)) x = rt S (fold (uf_union S) E (\<lambda>x. x)) y
      \<longleftrightarrow> (x, y) \<in> (links_between S E)\<^sup>*)"
proof (induction E rule: rev_induct)
  case Nil
  have "rt S (\<lambda>x. x) x = x" for x by (subst rt.simps) simp
  moreover have "links_between S [] = {}" by (simp add: links_between_def)
  ultimately show ?case by (simp add: points_down_def)
next
  case (snoc e E)
  obtain a b where e: "e = (a, b)" by fastforce
  let ?p = "fold (uf_union S) E (\<lambda>x. x)" and ?R = "links_between S E" and ?R' = "links_between S (E @ [e])"
  let ?q = "uf_union S (a, b) ?p"
  have down: "points_down S ?p" and eqv: "\<And>x y. x \<in> set S \<Longrightarrow> y \<in> set S \<Longrightarrow> rt S ?p x = rt S ?p y \<longleftrightarrow> (x, y) \<in> ?R\<^sup>*"
    using snoc.IH by auto
  note u = uf_union_rt[OF down, where a = a and b = b]
  have sub: "?R\<^sup>* \<subseteq> ?R'\<^sup>*" by (intro rtrancl_mono) (auto simp: links_between_def)
  have ab: "a \<in> set S \<Longrightarrow> b \<in> set S \<Longrightarrow> (a, b) \<in> ?R' \<and> (b, a) \<in> ?R'"
    by (auto simp: links_between_def e)
  have step: "rt S ?q x = rt S ?q y" if "(x, y) \<in> ?R'" for x y
  proof -
    from that have xy: "x \<in> set S" "y \<in> set S" and l: "(x, y) \<in> ?R \<or> (x, y) = (a, b) \<or> (x, y) = (b, a)"
      by (auto simp: links_between_def e)
    from l have "rt S ?p x = rt S ?p y \<or> x = a \<and> y = b \<or> x = b \<and> y = a"
      using eqv[OF xy] by auto
    with xy show ?thesis unfolding u(2)[OF xy] by auto
  qed
  have inS: "y \<in> set S" if "(x, y) \<in> ?R'\<^sup>*" "x \<in> set S" for x y
    using that by (induction rule: rtrancl_induct) (auto simp: links_between_def)
  have "rt S ?q x = rt S ?q y \<longleftrightarrow> (x, y) \<in> ?R'\<^sup>*" if xy: "x \<in> set S" "y \<in> set S" for x y
  proof
    assume "(x, y) \<in> ?R'\<^sup>*"
    then show "rt S ?q x = rt S ?q y" by (induction rule: rtrancl_induct) (simp_all add: step)
  next
    assume "rt S ?q x = rt S ?q y"
    then consider "(x, y) \<in> ?R\<^sup>*"
      | "a \<in> set S" "b \<in> set S" "(x, a) \<in> ?R\<^sup>*" "(b, y) \<in> ?R\<^sup>*"
      | "a \<in> set S" "b \<in> set S" "(x, b) \<in> ?R\<^sup>*" "(a, y) \<in> ?R\<^sup>*"
      unfolding u(2)[OF xy] using eqv xy by metis
    then show "(x, y) \<in> ?R'\<^sup>*"
    proof cases
      case 1
      then show ?thesis using sub by blast
    next
      case 2
      then have "(x, a) \<in> ?R'\<^sup>*" "(a, b) \<in> ?R'" "(b, y) \<in> ?R'\<^sup>*" using sub ab by blast+
      then show ?thesis by (meson r_into_rtrancl rtrancl_trans)
    next
      case 3
      then have "(x, b) \<in> ?R'\<^sup>*" "(b, a) \<in> ?R'" "(a, y) \<in> ?R'\<^sup>*" using sub ab by blast+
      then show ?thesis by (meson r_into_rtrancl rtrancl_trans)
    qed
  qed
  with u(1) show ?case by (simp add: e)
qed

lemma uf_roots_rt:
  assumes "points_down S p" "set xs \<subseteq> set S"
  shows "uf_roots (length S) p xs = map (\<lambda>x. (x, rt S p x)) xs"
  using assms
proof (induction xs arbitrary: p)
  case (Cons x xs)
  obtain r p' where f: "uf_find (length S) p x = (r, p')" by fastforce
  note g = uf_find_rt[OF Cons.prems(1) _ card_below f]
  have x: "x \<in> set S" using Cons.prems(2) by simp
  have "uf_roots (length S) p' xs = map (\<lambda>x. (x, rt S p' x)) xs"
    using Cons.IH[of p'] Cons.prems(2) g[OF x] by simp
  moreover have "map (\<lambda>x. (x, rt S p' x)) xs = map (\<lambda>x. (x, rt S p x)) xs"
    using Cons.prems(2) g[OF x] by auto
  ultimately show ?case using g[OF x] f by simp
qed simp

lemma components_eq:
  fixes nodes edges
  defines "f \<equiv> rt nodes (fold (uf_union nodes) edges (\<lambda>x. x))"
  shows "components nodes edges = map (\<lambda>r. filter (\<lambda>x. f x = r) (sort nodes)) (remdups (map f (sort nodes)))"
proof -
  have roots: "uf_roots (length nodes) (fold (uf_union nodes) edges (\<lambda>x. x)) (sort nodes) = map (\<lambda>x. (x, f x)) (sort nodes)"
    unfolding f_def using links_refl_root[of nodes edges] by (intro uf_roots_rt) auto
  have pick: "map fst (filter (\<lambda>x. snd x = r) (map (\<lambda>x. (x, f x)) t)) = filter (\<lambda>x. f x = r) t" for r t
    by (induction t) auto
  show ?thesis unfolding components_def Let_def roots pick by (simp add: o_def)
qed

text \<open>
  The lists \<open>components\<close> returns are the connected components of the links between the nodes,
  each sorted, none listed twice.
\<close>

theorem components_spec:
  "set ` set (components nodes edges) = (\<lambda>x. {y \<in> set nodes. (x, y) \<in> (links_between nodes edges)\<^sup>*}) ` set nodes"
  "\<forall>c \<in> set (components nodes edges). sorted c \<and> c \<noteq> []"
  "distinct nodes \<Longrightarrow> \<forall>c \<in> set (components nodes edges). distinct c"
proof -
  let ?f = "rt nodes (fold (uf_union nodes) edges (\<lambda>x. x))"
  let ?cls = "\<lambda>r. filter (\<lambda>x. ?f x = r) (sort nodes)"
  have cls: "set (?cls (?f x)) = {y \<in> set nodes. (x, y) \<in> (links_between nodes edges)\<^sup>*}" if x: "x \<in> set nodes" for x
  proof -
    have "?f y = ?f x \<longleftrightarrow> (x, y) \<in> (links_between nodes edges)\<^sup>*" if "y \<in> set nodes" for y
      using links_refl_root[of nodes edges] x that by (metis (no_types, lifting))
    then show ?thesis by auto
  qed
  have "set (components nodes edges) = ?cls ` ?f ` set nodes" by (simp add: components_eq)
  then show "set ` set (components nodes edges) = (\<lambda>x. {y \<in> set nodes. (x, y) \<in> (links_between nodes edges)\<^sup>*}) ` set nodes"
    using cls by (simp add: image_image)
  show "\<forall>c \<in> set (components nodes edges). sorted c \<and> c \<noteq> []"
    by (auto simp: components_eq filter_empty_conv intro: sorted_wrt_filter)
  show "\<forall>c \<in> set (components nodes edges). distinct c" if "distinct nodes"
    using that by (auto simp: components_eq)
qed

end
