(* ===== verification/GroupDB.thy ===== *)
theory GroupDB
  imports Prelude
begin

text \<open>
  A group's file, \<^verbatim>\<open>group.db\<close> (the group migrations of
  \<^verbatim>\<open>internal/store/schema.go\<close>): one record per table's rows, in the state every migration
  has run, and one record for the file. A table is the list of its rows in the order they
  were inserted, which is SQLite's rowid order for the ids the commands give; a nullable
  column is an \<open>option\<close>; a column a \<^verbatim>\<open>CHECK\<close> restricts to names is a datatype of
  those names. Ids, times and counters are 64-bit integers, far from their bounds, and are
  \<open>int\<close> here (ids themselves are made in the theory \<open>Ids\<close>, at their width).

  \<open>followup\<close> holds the commands one log sends another through an outbox
  (\<^verbatim>\<open>internal/cmd/logs.go\<close>, \<^verbatim>\<open>crosslog.go\<close>): the model keeps the command itself where the
  code keeps its JSON.
\<close>

section \<open>Names a column may hold\<close>

datatype status = Visible | Flagged | AutoHidden | Held | Removed | Deleted
datatype role = Owner | Mod | Member
datatype mstatus = Active | Pending | Banned
datatype visibility = Public | Private | Hidden
datatype join_policy = Open | Approval | InviteOnly
datatype kind = Post | Comment
datatype origin = Native | Archive
datatype fts_kind = FtsItem kind | FtsFaq | FtsSource
datatype link_source = ByAuto | ByAuthor | ByMod
datatype link_state = LinkActive | LinkRejected
datatype note_kind = LinkNote | SummaryNote | CombinedNote
datatype note_state = NoteActive | NoteRemovedState
datatype job_kind =
    JobCheck | JobDigest | JobNote | JobSummary | JobFAQNew | JobFAQRewrite
  | JobOutline | JobSource | JobSeed | JobCheckComment
datatype entry_status = EntryActive | EntryHidden
datatype fcomment_status = FCVisible | FCDeleted | FCRemoved
datatype nudge_kind = Rank | TangentNudge | SupersededNudge | FeedWeight
datatype nudge_state = NudgeActive | NudgeReversed
datatype via = ViaMember | ViaMod | ViaSeed | ViaDescribed
datatype source_status = SrcPending | SrcActive | SrcGone | SrcRemoved
datatype vote = Keep | Hide
datatype notice = NoteReply | NoteComment | NoteLinked | NoteJoined | NoteHidden | NoteRemoved | NoteApproved

section \<open>Follow-up commands\<close>

record InitGroup =
  ig_GroupID :: int
  ig_Name :: string
  ig_Description :: string
  ig_Visibility :: visibility
  ig_OwnerID :: int
  ig_At :: int

record MirrorGroup =
  mg_GroupID :: int
  mg_Name :: string
  mg_Visibility :: visibility
  mg_AIEnabled :: bool

record DropSisterLinks =
  dl_GroupID :: int
  dl_Other :: int
  dl_By :: int
  dl_At :: int

record PutSisterSide =
  ps_GroupID :: int
  ps_Post :: int
  ps_FromGroup :: int
  ps_FromPost :: int
  ps_Title :: string
  ps_Date :: int
  ps_Version :: int
  ps_NoteID :: int
  ps_Cite :: bool
  ps_At :: int

record ShowSisterNotes =
  sn_GroupID :: int
  sn_Hosts :: "int list"
  sn_FromGroup :: int
  sn_FromPost :: int
  sn_Show :: bool

record RemoveSisterLink =
  rl_GroupID :: int
  rl_PostID :: int
  rl_OtherGroup :: int
  rl_OtherPost :: int
  rl_By :: int
  rl_Echo :: bool
  rl_At :: int

record ModLogEntry =
  ml_GroupID :: int
  ml_By :: int
  ml_Action :: string
  ml_TargetType :: string
  ml_TargetID :: int
  ml_Reason :: string
  ml_At :: int

record PurgeGroup =
  pg_GroupID :: int
  pg_Before :: int

record QueueGroupFAQ =
  qg_GroupID :: int
  qg_Weekly :: bool
  qg_At :: int

datatype followup =
    F_InitGroup InitGroup
  | F_MirrorGroup MirrorGroup
  | F_DropSisterLinks DropSisterLinks
  | F_PutSisterSide PutSisterSide
  | F_ShowSisterNotes ShowSisterNotes
  | F_RemoveSisterLink RemoveSisterLink
  | F_ModLogEntry ModLogEntry
  | F_PurgeGroup PurgeGroup
  | F_QueueGroupFAQ QueueGroupFAQ

section \<open>Rows\<close>

record settings =
  s_name :: string
  s_description :: string
  s_rules :: string
  s_visibility :: visibility
  s_join_policy :: join_policy
  s_join_questions :: string
  s_allow_anonymous :: bool
  s_hold_first_post :: bool
  s_allow_indexing :: bool
  s_ai_enabled :: bool
  s_ai_local_only :: bool
  s_public_faq :: bool
  s_vote_threshold :: int
  s_notify_hidden :: bool

record membership =
  m_user :: int
  m_role :: role
  m_status :: mstatus
  m_answers :: string
  m_banned_until :: int
  m_created :: int
  m_digest_sent :: int

record invite =
  i_code :: string
  i_created_by :: int
  i_max_uses :: int
  i_uses :: int
  i_expires :: int
  i_created :: int
  i_revoked :: bool

record post =
  p_id :: int
  p_user :: "int option"
  p_anonymous :: bool
  p_title :: string
  p_body :: string
  p_status :: status
  p_removed_reason :: "string option"
  p_pinned :: bool
  p_locked :: bool
  p_score :: int
  p_comment_count :: int
  p_created :: int
  p_edited :: "int option"
  p_last_activity :: int
  p_continues :: "int option"
  p_continued_at :: "int option"
  p_origin :: origin
  p_origin_ref :: "string option"
  p_origin_url :: "string option"
  p_digest :: "string option"
  p_digest_updated :: "int option"
  p_deleted_at :: "int option"
  p_deleted_by :: "int option"
  p_purge_after :: "int option"
  p_legal_hold :: bool
  p_version :: int
  p_thread_version :: int
  p_topics_manual :: bool
  p_sink :: int
  p_flagged_by :: "string option"
  p_flag_category :: "string option"
  p_flag_reason :: "string option"
  p_ai_cleared :: bool

record comment =
  c_id :: int
  c_post :: int
  c_parent :: "int option"
  c_user :: "int option"
  c_anonymous :: bool
  c_body :: string
  c_status :: status
  c_removed_reason :: "string option"
  c_score :: int
  c_created :: int
  c_edited :: "int option"
  c_origin_ref :: "string option"
  c_deleted_at :: "int option"
  c_deleted_by :: "int option"
  c_purge_after :: "int option"
  c_legal_hold :: bool
  c_version :: int
  c_flagged_by :: "string option"
  c_flag_category :: "string option"
  c_flag_reason :: "string option"
  c_ai_cleared :: bool

record revision =
  r_kind :: kind
  r_ref :: int
  r_version :: int
  r_title :: "string option"
  r_body :: string
  r_edited_by :: int
  r_edited_at :: int
  r_purge_after :: int

record mod_log_row =
  l_id :: int
  l_actor :: "int option"
  l_action :: string
  l_target_type :: string
  l_target :: int
  l_reason :: string
  l_created :: int

record fts_row =
  f_rowid :: int
  f_kind :: fts_kind
  f_ref :: int
  f_post :: int
  f_title :: string
  f_body :: string

record image =
  im_id :: int
  im_post :: int
  im_comment :: "int option"
  im_user :: "int option"
  im_hash :: string
  im_width :: int
  im_height :: int
  im_bytes :: int
  im_sort :: int
  im_created :: int

record post_link =
  pl_older :: int
  pl_newer :: int
  pl_source :: link_source
  pl_created_by :: "int option"
  pl_state :: link_state
  pl_created :: int

record note_row =
  n_id :: int
  n_host :: int
  n_after :: int
  n_kind :: note_kind
  n_text :: string
  n_stale :: bool
  n_state :: note_state
  n_removed_by :: "int option"
  n_created :: int
  n_updated :: int
  n_ext_version :: int

record note_source =
  ns_note :: int
  ns_group :: int
  ns_post :: int
  ns_comment :: int
  ns_source :: int
  ns_covers :: bool

record job =
  j_id :: int
  j_kind :: job_kind
  j_ref :: int
  j_ref_version :: int
  j_run_after :: int
  j_pending_since :: int
  j_attempts :: int
  j_claimed_by :: "string option"
  j_lease_until :: "int option"
  j_done_at :: "int option"
  j_last_run :: "int option"
  j_last_error :: "string option"
  j_created :: int

record ai_feedback =
  af_id :: int
  af_user :: int
  af_question :: string
  af_cited :: string
  af_created :: int

record faq_topic =
  t_id :: int
  t_parent :: int
  t_title :: string
  t_sort :: int
  t_locked :: bool
  t_merged_into :: "int option"
  t_created :: int

record faq_entry =
  e_id :: int
  e_topic :: int
  e_question :: string
  e_answer :: string
  e_status :: entry_status
  e_locked :: bool
  e_stale :: bool
  e_version :: int
  e_suggestion :: "string option"
  e_sort :: int
  e_created :: int
  e_updated :: int
  e_updated_by :: "int option"

record faq_source =
  fs_entry :: int
  fs_post :: int

record faq_hist =
  h_id :: int
  h_entry :: int
  h_question :: string
  h_answer :: string
  h_changed_by :: "int option"
  h_created :: int

record faq_comment =
  fc_id :: int
  fc_entry :: int
  fc_user :: int
  fc_body :: string
  fc_status :: fcomment_status
  fc_created :: int
  fc_purge_after :: "int option"

record post_topic =
  pt_post :: int
  pt_topic :: int
  pt_source :: link_source

record nudge =
  u_id :: int
  u_post :: int
  u_kind :: nudge_kind
  u_target :: int
  u_value :: int
  u_reason :: string
  u_set_by :: "int option"
  u_state :: nudge_state
  u_created :: int

record source_row =
  so_id :: int
  so_url :: string
  so_site :: string
  so_title :: string
  so_published :: "int option"
  so_summary :: string
  so_hash :: "string option"
  so_via :: via
  so_added_by :: "int option"
  so_status :: source_status
  so_version :: int
  so_problem :: string
  so_is_list :: bool
  so_checked :: "int option"
  so_created :: int

record source_link =
  sl_source :: int
  sl_post :: int
  sl_entry :: int
  sl_created :: int

record source_domain =
  sd_domain :: string
  sd_added_by :: int
  sd_created :: int

record sister_link =
  x_post :: int
  x_group :: int
  x_other :: int
  x_source :: link_source
  x_state :: link_state
  x_title :: string
  x_date :: int
  x_created :: int

record report =
  rp_kind :: kind
  rp_item :: int
  rp_user :: int
  rp_reason :: string
  rp_created :: int
  rp_resolved :: "int option"

record flag_vote =
  fv_kind :: kind
  fv_item :: int
  fv_user :: int
  fv_vote :: vote
  fv_created :: int

record mod_example =
  me_id :: int
  me_text :: string
  me_decision :: vote
  me_created :: int

record helpful_vote =
  v_kind :: kind
  v_item :: int
  v_user :: int
  v_created :: int

record follow =
  fo_user :: int
  fo_post :: int
  fo_created :: int

record notification =
  no_id :: int
  no_user :: int
  no_kind :: notice
  no_post :: int
  no_ref :: int
  no_actor :: int
  no_read :: "int option"
  no_emailed :: "int option"
  no_created :: int

record outbox_item =
  ob_id :: int
  ob_target :: int
  ob_command :: followup
  ob_created :: int

section \<open>The file\<close>

text \<open>
  The \<open>_seq\<close> fields are what SQLite's \<^verbatim>\<open>sqlite_sequence\<close> keeps for the three
  \<^verbatim>\<open>AUTOINCREMENT\<close> tables: the largest id ever given, so an id is never given twice. The
  file's \<^verbatim>\<open>applied\<close> row is kept beside the tables, in the theory \<open>Applier\<close>.
\<close>

record group_db =
  settings_row :: "settings option"
  memberships :: "membership list"
  invites :: "invite list"
  posts :: "post list"
  comments :: "comment list"
  revisions :: "revision list"
  mod_log :: "mod_log_row list"
  search_fts :: "fts_row list"
  images :: "image list"
  post_links :: "post_link list"
  note_rows :: "note_row list"
  note_sources :: "note_source list"
  jobs :: "job list"
  ai_feedbacks :: "ai_feedback list"
  faq_topics :: "faq_topic list"
  faq_entries :: "faq_entry list"
  faq_sources :: "faq_source list"
  faq_history :: "faq_hist list"
  faq_comments :: "faq_comment list"
  post_topics :: "post_topic list"
  nudges :: "nudge list"
  sources :: "source_row list"
  source_links :: "source_link list"
  source_domains :: "source_domain list"
  sister_links :: "sister_link list"
  reports :: "report list"
  flag_votes :: "flag_vote list"
  mod_examples :: "mod_example list"
  mod_examples_seq :: int
  votes :: "helpful_vote list"
  follows :: "follow list"
  notifications :: "notification list"
  notifications_seq :: int
  outbox :: "outbox_item list"
  outbox_seq :: int

definition empty_group_db :: group_db where
  "empty_group_db = \<lparr>settings_row = None, memberships = [], invites = [], posts = [],
     comments = [], revisions = [], mod_log = [], search_fts = [], images = [],
     post_links = [], note_rows = [], note_sources = [], jobs = [], ai_feedbacks = [],
     faq_topics = [], faq_entries = [], faq_sources = [], faq_history = [],
     faq_comments = [], post_topics = [], nudges = [], sources = [], source_links = [],
     source_domains = [], sister_links = [], reports = [], flag_votes = [],
     mod_examples = [], mod_examples_seq = 0, votes = [], follows = [],
     notifications = [], notifications_seq = 0, outbox = [], outbox_seq = 0\<rparr>"

text \<open>Rows as an \<^verbatim>\<open>INSERT\<close> leaves them, every column it does not name at its default.\<close>

definition default_settings :: "string \<Rightarrow> string \<Rightarrow> visibility \<Rightarrow> bool \<Rightarrow> settings" where
  "default_settings nm desc vis faq = \<lparr>s_name = nm, s_description = desc, s_rules = [],
     s_visibility = vis, s_join_policy = Open, s_join_questions = [],
     s_allow_anonymous = False, s_hold_first_post = False, s_allow_indexing = False,
     s_ai_enabled = True, s_ai_local_only = True, s_public_faq = faq,
     s_vote_threshold = 5, s_notify_hidden = True\<rparr>"

definition new_post :: "int \<Rightarrow> int option \<Rightarrow> string \<Rightarrow> string \<Rightarrow> int \<Rightarrow> int \<Rightarrow> post" where
  "new_post i user title body created activity = \<lparr>p_id = i, p_user = user,
     p_anonymous = False, p_title = title, p_body = body, p_status = Visible,
     p_removed_reason = None, p_pinned = False, p_locked = False, p_score = 0,
     p_comment_count = 0, p_created = created, p_edited = None, p_last_activity = activity,
     p_continues = None, p_continued_at = None, p_origin = Native, p_origin_ref = None,
     p_origin_url = None, p_digest = None, p_digest_updated = None, p_deleted_at = None,
     p_deleted_by = None, p_purge_after = None, p_legal_hold = False, p_version = 1,
     p_thread_version = 1, p_topics_manual = False, p_sink = 0, p_flagged_by = None,
     p_flag_category = None, p_flag_reason = None, p_ai_cleared = False\<rparr>"

definition new_comment :: "int \<Rightarrow> int \<Rightarrow> int option \<Rightarrow> int option \<Rightarrow> string \<Rightarrow> int \<Rightarrow> comment" where
  "new_comment i post parent user body created = \<lparr>c_id = i, c_post = post,
     c_parent = parent, c_user = user, c_anonymous = False, c_body = body,
     c_status = Visible, c_removed_reason = None, c_score = 0, c_created = created,
     c_edited = None, c_origin_ref = None, c_deleted_at = None, c_deleted_by = None,
     c_purge_after = None, c_legal_hold = False, c_version = 1, c_flagged_by = None,
     c_flag_category = None, c_flag_reason = None, c_ai_cleared = False\<rparr>"

section \<open>Reading rows\<close>

text \<open>\<^verbatim>\<open>SELECT ... WHERE id = ?\<close> on the tables read by id.\<close>

definition get_post :: "group_db \<Rightarrow> int \<Rightarrow> post option" where
  "get_post db i = find (\<lambda>p. p_id p = i) (posts db)"

definition get_comment :: "group_db \<Rightarrow> int \<Rightarrow> comment option" where
  "get_comment db i = find (\<lambda>c. c_id c = i) (comments db)"

definition get_member :: "group_db \<Rightarrow> int \<Rightarrow> membership option" where
  "get_member db u = find (\<lambda>m. m_user m = u) (memberships db)"

definition get_note :: "group_db \<Rightarrow> int \<Rightarrow> note_row option" where
  "get_note db i = find (\<lambda>n. n_id n = i) (note_rows db)"

definition get_job :: "group_db \<Rightarrow> int \<Rightarrow> job option" where
  "get_job db i = find (\<lambda>j. j_id j = i) (jobs db)"

text \<open>
  \<open>shown\<close> (\<^verbatim>\<open>moderation.go\<close>): what is searchable, counted in a post's comments, and
  allowed as a source of notes.
\<close>

definition shown :: "status \<Rightarrow> bool" where
  "shown s \<longleftrightarrow> s = Visible \<or> s = Flagged"

lemma shown_simps [simp]:
  "shown Visible" "shown Flagged" "\<not> shown AutoHidden" "\<not> shown Held"
  "\<not> shown Removed" "\<not> shown Deleted"
  by (simp_all add: shown_def)

section \<open>The outcome of applying a command\<close>

text \<open>
  \<open>retval\<close> is the optional value a command returns to its submitter. A command's
  \<^verbatim>\<open>Apply\<close> is a \<open>plan\<close>: it is refused before any transaction, it returns without one,
  or it runs one (with the value it returns when that transaction turns out to have been
  applied already, Go's zero value of the variable the closure sets).
\<close>

datatype retval =
    VNil
  | VBool bool
  | VInt int
  | VStr string
  | VRedeemed int string

datatype 'db plan =
    Refuse go_error
  | NoTx retval
  | Tx retval "'db \<Rightarrow> go_error + retval \<times> 'db"

text \<open>The transaction of a plan run on its own, on a file it has not been applied to.\<close>

definition run_plan :: "'db plan \<Rightarrow> 'db \<Rightarrow> go_error + retval \<times> 'db" where
  "run_plan pl db =
     (case pl of Refuse e \<Rightarrow> Inl e | NoTx v \<Rightarrow> Inr (v, db) | Tx _ fn \<Rightarrow> fn db)"

lemma run_plan_simps [simp]:
  "run_plan (Refuse e) db = Inl e"
  "run_plan (NoTx v) db = Inr (v, db)"
  "run_plan (Tx v fn) db = fn db"
  by (simp_all add: run_plan_def)

text \<open>A closure that returns only an error: its command's value is nil.\<close>

definition nilTx :: "('db \<Rightarrow> go_error + 'db) \<Rightarrow> 'db plan" where
  "nilTx fn = Tx VNil (\<lambda>db. bindE (fn db) (\<lambda>db'. Inr (VNil, db')))"

lemma run_nilTx: "run_plan (nilTx fn) db = bindE (fn db) (\<lambda>db'. Inr (VNil, db'))"
  by (simp add: nilTx_def)

text \<open>\<open>keeps I pl\<close>: the invariant \<open>I\<close> survives the plan.\<close>

definition keeps :: "('db \<Rightarrow> bool) \<Rightarrow> 'db plan \<Rightarrow> bool" where
  "keeps I pl \<longleftrightarrow> (\<forall>db. I db \<longrightarrow> okE (\<lambda>(v, db'). I db') (run_plan pl db))"

lemma keepsI: "(\<And>db. I db \<Longrightarrow> okE (\<lambda>(v, db'). I db') (run_plan pl db)) \<Longrightarrow> keeps I pl"
  by (simp add: keeps_def)

lemma keepsD: "keeps I pl \<Longrightarrow> I db \<Longrightarrow> run_plan pl db = Inr (v, db') \<Longrightarrow> I db'"
  by (fastforce simp: keeps_def)

lemma keeps_Refuse [simp]: "keeps I (Refuse e)"
  by (simp add: keeps_def)

lemma keeps_NoTx [simp]: "keeps I (NoTx v)"
  by (simp add: keeps_def)

lemma keeps_nilTx: "keeps I (nilTx fn) \<longleftrightarrow> (\<forall>db. I db \<longrightarrow> okE I (fn db))"
  by (auto simp: keeps_def run_nilTx okE_iff bind_iffs)

lemma keeps_if: "(b \<Longrightarrow> keeps I p) \<Longrightarrow> (\<not> b \<Longrightarrow> keeps I q) \<Longrightarrow> keeps I (if b then p else q)"
  by simp

end
