(* ===== verification/Applier.thy ===== *)
theory Applier
  imports GoText GroupDB
begin

text \<open>
  How a log's entries reach the one file the log is for: \<^verbatim>\<open>internal/cmd/applier.go\<close>
  (\<^verbatim>\<open>inTx\<close>, \<^verbatim>\<open>Run\<close>), the log names of \<^verbatim>\<open>logs.go\<close>, and the state machine
  Raft drives in \<^verbatim>\<open>internal/cluster/fsm.go\<close>.

  A file carries the index of the last entry applied to it, written in the same transaction
  as the change, so that an entry handed to it again is skipped. The locale
  \<open>replicated_log\<close> states what that gives a log: entries may be handed over again from
  any earlier point, and a snapshot may be ahead of its label, without changing the file.
  It is interpreted on the model of \<^verbatim>\<open>Run\<close>.
\<close>

record 'db dbfile =
  applied :: nat
  content :: 'db

section \<open>One entry\<close>

definition inTx :: "nat \<Rightarrow> retval \<Rightarrow> ('db \<Rightarrow> go_error + retval \<times> 'db) \<Rightarrow> 'db dbfile
    \<Rightarrow> (go_error + retval) \<times> 'db dbfile" where
  "inTx idx zero fn f =
     (if idx \<le> applied f then (Inr zero, f)
      else case fn (content f) of
             Inl e \<Rightarrow> (Inl e, f)
           | Inr (v, db) \<Rightarrow> (Inr v, \<lparr>applied = idx, content = db\<rparr>))"

definition apply_plan :: "nat \<Rightarrow> 'db plan \<Rightarrow> 'db dbfile \<Rightarrow> (go_error + retval) \<times> 'db dbfile" where
  "apply_plan idx pl f =
     (case pl of
        Refuse e \<Rightarrow> (Inl e, f)
      | NoTx v \<Rightarrow> (Inr v, f)
      | Tx zero fn \<Rightarrow> inTx idx zero fn f)"

section \<open>Log names\<close>

abbreviation (input) SiteLog :: int where "SiteLog \<equiv> 0"

definition LogID_String :: "int \<Rightarrow> string" where
  "LogID_String l = (if l = SiteLog then ''site'' else CHR ''g'' # FormatInt l)"

definition ParseLogID :: "string \<Rightarrow> go_error + int" where
  "ParseLogID s =
     (if s = ''site'' then Inr SiteLog
      else case ParseInt (TrimPrefix s ''g'') of
             Some n \<Rightarrow> if HasPrefix s ''g'' \<and> n > 0 then Inr n
                       else Inl (QuotedErr ''bad log name '' s [])
           | None \<Rightarrow> Inl (QuotedErr ''bad log name '' s []))"

section \<open>Running a command\<close>

text \<open>
  \<open>Run\<close> is \<^verbatim>\<open>cmd.Run\<close> for the commands of one file: \<open>LogOf\<close>, \<open>nameOf\<close> and
  \<open>Apply\<close> say, of a command, its log, its type's name and its plan.
\<close>

definition Run :: "('c \<Rightarrow> int) \<Rightarrow> ('c \<Rightarrow> string) \<Rightarrow> ('c \<Rightarrow> 'db plan) \<Rightarrow> int \<Rightarrow> nat \<Rightarrow> 'c \<Rightarrow> 'db dbfile
    \<Rightarrow> (go_error + retval) \<times> 'db dbfile" where
  "Run LogOf nameOf Apply log idx c f =
     (if LogOf c \<noteq> log
      then (Inl (PlainErr (nameOf c @ '' belongs to log '' @ LogID_String (LogOf c)
                 @ '', not '' @ LogID_String log)), f)
      else case apply_plan idx (Apply c) f of
             (Inl e, f') \<Rightarrow> (Inl (Wrapped (nameOf c @ '': '') e), f')
           | (Inr v, f') \<Rightarrow> (Inr v, f'))"

lemma Run_skip: "idx \<le> applied f \<Longrightarrow> snd (Run lo nm ap log idx c f) = f"
  by (auto simp: Run_def apply_plan_def inTx_def split: plan.splits sum.splits prod.splits)

lemma Run_advance:
  "snd (Run lo nm ap log idx c f) = f \<or> applied (snd (Run lo nm ap log idx c f)) = idx"
  by (auto simp: Run_def apply_plan_def inTx_def split: plan.splits sum.splits prod.splits)

lemma Run_ok:
  assumes "Run lo nm ap log idx c f = (Inr v, f')" and "applied f < idx"
  shows "lo c = log" and "run_plan (ap c) (content f) = Inr (v, content f')"
  using assms
  by (auto simp: Run_def apply_plan_def inTx_def run_plan_def split: if_splits plan.splits sum.splits prod.splits)

lemma Run_content:
  "content (snd (Run lo nm ap log idx c f)) = content f
   \<or> (\<exists>v. run_plan (ap c) (content f) = Inr (v, content (snd (Run lo nm ap log idx c f))))"
  by (auto simp: Run_def apply_plan_def inTx_def run_plan_def split: plan.splits sum.splits prod.splits)

lemma Run_error: "fst (Run lo nm ap log idx c f) = Inl e \<Longrightarrow> snd (Run lo nm ap log idx c f) = f"
  by (auto simp: Run_def apply_plan_def inTx_def split: if_splits plan.splits sum.splits prod.splits)

section \<open>The contract of a replicated log\<close>

locale replicated_log =
  fixes exec :: "nat \<Rightarrow> 'c \<Rightarrow> 'f \<Rightarrow> 'f" and index_of :: "'f \<Rightarrow> nat"
  assumes skip: "i \<le> index_of f \<Longrightarrow> exec i c f = f"
    and advance: "exec i c f = f \<or> index_of (exec i c f) = i"
begin

text \<open>Handing a file the entries \<open>cs\<close>, the first of them at index \<open>i\<close>.\<close>

fun replay :: "nat \<Rightarrow> 'c list \<Rightarrow> 'f \<Rightarrow> 'f" where
  "replay i [] f = f"
| "replay i (c # cs) f = replay (Suc i) cs (exec i c f)"

lemma replay_append: "replay i (cs @ ds) f = replay (i + length cs) ds (replay i cs f)"
  by (induction cs arbitrary: i f) auto

lemma replay_noop: "(\<And>k. k < length cs \<Longrightarrow> exec (i + k) (cs ! k) f = f) \<Longrightarrow> replay i cs f = f"
proof (induction cs arbitrary: i)
  case Nil
  then show ?case by simp
next
  case (Cons c cs)
  have "exec i c f = f" using Cons.prems[of 0] by simp
  moreover have "replay (Suc i) cs f = f"
    using Cons.prems[of "Suc _"] by (intro Cons.IH) fastforce
  ultimately show ?case by simp
qed

text \<open>Every entry already handed over changes nothing when it is handed over again.\<close>

lemma redelivery: "k < length cs \<Longrightarrow> exec (i + k) (cs ! k) (replay i cs f) = replay i cs f"
proof (induction cs arbitrary: k rule: rev_induct)
  case Nil
  then show ?case by simp
next
  case (snoc c cs)
  let ?n = "i + length cs"
  let ?g = "replay i cs f"
  have eq: "replay i (cs @ [c]) f = exec ?n c ?g" by (simp add: replay_append)
  consider (same) "exec ?n c ?g = ?g" | (moved) "index_of (exec ?n c ?g) = ?n"
    using advance by blast
  then show ?case
  proof cases
    case same
    show ?thesis
    proof (cases "k < length cs")
      case True
      with snoc.IH[of k] same eq show ?thesis by (simp add: nth_append)
    next
      case False
      with snoc.prems have "k = length cs" by simp
      with same eq show ?thesis by simp
    qed
  next
    case moved
    from snoc.prems have "i + k \<le> ?n" by simp
    with moved eq show ?thesis by (simp add: skip)
  qed
qed

text \<open>A restart may replay any stretch of the log that had been applied.\<close>

lemma replay_stretch:
  assumes "k + length ds \<le> length cs" and "take (length ds) (drop k cs) = ds"
  shows "replay (i + k) ds (replay i cs f) = replay i cs f"
proof (rule replay_noop)
  fix j assume j: "j < length ds"
  have "ds ! j = take (length ds) (drop k cs) ! j" using assms(2) by simp
  also have "\<dots> = cs ! (k + j)" using j assms(1) by simp
  finally have "ds ! j = cs ! (k + j)" .
  with j assms(1) redelivery[of "k + j" cs i f]
  show "exec (i + k + j) (ds ! j) (replay i cs f) = replay i cs f"
    by (simp add: add.assoc)
qed

text \<open>
  A snapshot of the file after \<open>n\<close> entries, labelled with an earlier index \<open>m\<close>: the
  node that restores it is handed the log from \<open>m\<close> on, and ends where everyone else does.
\<close>

lemma snapshot_ahead:
  assumes "m \<le> n" "n \<le> length cs"
  shows "replay (i + m) (drop m cs) (replay i (take n cs) f) = replay i cs f"
proof -
  let ?s = "replay i (take n cs) f"
  have split: "drop m cs = take (n - m) (drop m cs) @ drop n cs"
    using assms by (metis append_take_drop_id drop_drop le_add_diff_inverse2)
  have len: "length (take (n - m) (drop m cs)) = n - m" using assms by simp
  have "replay (i + m) (take (n - m) (drop m cs)) ?s = ?s"
    using assms by (intro replay_stretch) (auto simp: drop_take)
  then have "replay (i + m) (drop m cs) ?s = replay (i + n) (drop n cs) ?s"
    using assms len by (subst split) (simp add: replay_append)
  also have "\<dots> = replay i cs f"
    using assms replay_append[of i "take n cs" "drop n cs" f] by simp
  finally show ?thesis .
qed

text \<open>
  A node: its file, and how many entries Raft will count as handed over when it next
  hands one. It is handed the next entry; it restarts, and Raft goes back to an earlier
  entry (never past one it has handed over); or it installs another node's snapshot,
  labelled with an index no later than the entries that file holds.
\<close>

inductive node :: "'c list \<Rightarrow> 'f \<Rightarrow> nat \<Rightarrow> 'f \<Rightarrow> bool" for log :: "'c list" and f0 :: 'f where
  start: "node log f0 0 f0"
| deliver: "node log f0 n f \<Longrightarrow> n < length log \<Longrightarrow> node log f0 (Suc n) (exec (Suc n) (log ! n) f)"
| restart: "node log f0 n f \<Longrightarrow> m \<le> n \<Longrightarrow> node log f0 m f"

lemma node_file:
  "node log f0 n f \<Longrightarrow> \<exists>h. n \<le> h \<and> h \<le> length log \<and> f = replay 1 (take h log) f0"
proof (induction rule: node.induct)
  case start
  show ?case by (intro exI[of _ 0]) simp
next
  case (deliver n f)
  then obtain h where h: "n \<le> h" "h \<le> length log" "f = replay 1 (take h log) f0" by blast
  show ?case
  proof (cases "n < h")
    case True
    then have "exec (1 + n) (take h log ! n) f = f"
      using redelivery[of n "take h log" 1 f0] h by simp
    then have "exec (Suc n) (log ! n) f = f" using True by simp
    with True h show ?thesis by (intro exI[of _ h]) simp
  next
    case False
    then have "n = h" using h by simp
    then have "exec (Suc n) (log ! n) f = replay 1 (take (Suc h) log) f0"
      using h deliver.hyps by (simp add: take_Suc_conv_app_nth replay_append)
    with \<open>n = h\<close> deliver.hyps show ?thesis by (intro exI[of _ "Suc h"]) simp
  qed
next
  case (restart n f m)
  then show ?case using le_trans by blast
qed

lemma node_complete: "node log f0 (length log) f \<Longrightarrow> f = replay 1 log f0"
  using node_file by fastforce

lemma node_reachable: "n \<le> length log \<Longrightarrow> node log f0 n (replay 1 (take n log) f0)"
proof (induction n)
  case 0
  show ?case by (simp add: start)
next
  case (Suc n)
  then have "node log f0 (Suc n) (exec (Suc n) (log ! n) (replay 1 (take n log) f0))"
    by (intro deliver) simp_all
  moreover have "take (Suc n) log = take n log @ [log ! n]"
    using Suc.prems by (simp add: take_Suc_conv_app_nth)
  ultimately show ?case using Suc.prems by (simp add: replay_append)
qed

end

interpretation file_log: replicated_log "\<lambda>i c f. snd (Run lo nm ap log i c f)" applied
  for lo :: "'c \<Rightarrow> int" and nm :: "'c \<Rightarrow> string" and ap :: "'c \<Rightarrow> 'db plan" and log :: int
  by unfold_locales (auto simp: Run_skip Run_advance)

section \<open>Raft's view of a log: \<^verbatim>\<open>fsm\<close>\<close>

text \<open>
  \<open>fsm_replay\<close> hands a file the entries of its log in order, each at its index;
  \<open>fsm_node\<close> is a node's life: entries handed over, restarts, snapshots installed.
\<close>

fun fsm_replay :: "('c \<Rightarrow> int) \<Rightarrow> ('c \<Rightarrow> string) \<Rightarrow> ('c \<Rightarrow> 'db plan) \<Rightarrow> int \<Rightarrow> nat \<Rightarrow> 'c list \<Rightarrow> 'db dbfile
    \<Rightarrow> 'db dbfile" where
  "fsm_replay lo nm ap log i [] f = f"
| "fsm_replay lo nm ap log i (c # cs) f =
     fsm_replay lo nm ap log (Suc i) cs (snd (Run lo nm ap log i c f))"

lemma fsm_replay_eq: "fsm_replay lo nm ap log i cs f = file_log.replay lo nm ap log i cs f"
  by (induction cs arbitrary: i f) simp_all

text \<open>
  A node's life. \<open>Apply\<close> hands it the next entry; \<open>Reopen\<close> is a restart
  (\<^verbatim>\<open>NoSnapshotRestoreOnStart\<close>: the file is kept, and Raft hands over again from some
  entry already handed over); \<open>Restore\<close> replaces its file by a snapshot another node
  wrote (\<^verbatim>\<open>WriteSnapshot\<close>) when it had been handed \<open>k\<close> entries, with the label
  \<open>m\<close> that was current when the snapshot was asked for.
\<close>

inductive fsm_node :: "('c \<Rightarrow> int) \<Rightarrow> ('c \<Rightarrow> string) \<Rightarrow> ('c \<Rightarrow> 'db plan) \<Rightarrow> int \<Rightarrow> 'c list \<Rightarrow> 'db dbfile
    \<Rightarrow> nat \<Rightarrow> 'db dbfile \<Rightarrow> bool"
  for lo nm ap log entries f0 where
  Fresh: "fsm_node lo nm ap log entries f0 0 f0"
| Apply: "fsm_node lo nm ap log entries f0 n f \<Longrightarrow> n < length entries \<Longrightarrow>
    fsm_node lo nm ap log entries f0 (Suc n) (snd (Run lo nm ap log (Suc n) (entries ! n) f))"
| Reopen: "fsm_node lo nm ap log entries f0 n f \<Longrightarrow> m \<le> n \<Longrightarrow> fsm_node lo nm ap log entries f0 m f"
| Restore: "fsm_node lo nm ap log entries f0 n f \<Longrightarrow> fsm_node lo nm ap log entries f0 k g \<Longrightarrow> m \<le> k \<Longrightarrow>
    fsm_node lo nm ap log entries f0 m g"

inductive_cases fsm_node_0: "fsm_node lo nm ap log [] f0 n f"

lemma fsm_node_sound:
  "fsm_node lo nm ap log entries f0 n f \<Longrightarrow> file_log.node lo nm ap log entries f0 n f"
proof (induction rule: fsm_node.induct)
  case Fresh
  show ?case by (rule file_log.start)
next
  case (Apply n f)
  then show ?case by (intro file_log.deliver)
next
  case (Reopen n f m)
  then show ?case by (blast intro: file_log.restart)
next
  case (Restore n f k g m)
  then show ?case by (blast intro: file_log.restart)
qed

lemma fsm_node_complete:
  assumes "fsm_node lo nm ap log entries f0 (length entries) f"
  shows "f = fsm_replay lo nm ap log 1 entries f0"
  using file_log.node_complete[OF fsm_node_sound[OF assms]] by (simp add: fsm_replay_eq)

text \<open>An invariant every plan keeps holds of the file, whatever entries it is handed.\<close>

lemma fsm_replay_keeps:
  assumes "\<And>c. c \<in> set cs \<Longrightarrow> keeps I (ap c)" and "I (content f)"
  shows "I (content (fsm_replay lo nm ap log i cs f))"
  using assms
proof (induction cs arbitrary: i f)
  case Nil
  then show ?case by simp
next
  case (Cons c cs)
  let ?f = "snd (Run lo nm ap log i c f)"
  have "I (content ?f)"
    using Run_content[of lo nm ap log i c f] Cons.prems by (auto intro: keepsD)
  with Cons show ?case by simp
qed

end
