(* ===== verification/Jobs.thy ===== *)
theory Jobs
  imports GroupDB
begin

text \<open>
  The AI job queue: \<^verbatim>\<open>internal/cmd/jobs.go\<close>, with \<^verbatim>\<open>noteVersion\<close> of
  \<^verbatim>\<open>links.go\<close>. Jobs are rows of the group's file; \<open>schedule\<close> queues one or pushes it
  back, \<open>ClaimJob\<close>, \<open>FailJob\<close> and \<open>finishJob\<close> are a worker's side of it,
  \<open>threadChanged\<close> and \<open>postEdited\<close> queue what a change in a thread calls for.

  Where a query returns several rows in no stated order (the notes written from a thread),
  the model takes the order of the tables.
\<close>

section \<open>Queueing\<close>

abbreviation SummaryMin :: int where "SummaryMin \<equiv> 10"
abbreviation QuietPeriod :: int where "QuietPeriod \<equiv> 15 * 60"
abbreviation MinRerun :: int where "MinRerun \<equiv> 60 * 60"
abbreviation MaxWait :: int where "MaxWait \<equiv> 2 * 60 * 60"
abbreviation JobLease :: int where "JobLease \<equiv> 5 * 60"
abbreviation MaxAttempts :: int where "MaxAttempts \<equiv> 5"

definition new_job :: "int \<Rightarrow> job_kind \<Rightarrow> int \<Rightarrow> int \<Rightarrow> int \<Rightarrow> int \<Rightarrow> job" where
  "new_job i k ref version runAfter at = \<lparr>j_id = i, j_kind = k, j_ref = ref,
     j_ref_version = version, j_run_after = runAfter, j_pending_since = at, j_attempts = 0,
     j_claimed_by = None, j_lease_until = None, j_done_at = None, j_last_run = None,
     j_last_error = None, j_created = at\<rparr>"

definition reschedule :: "int \<Rightarrow> int \<Rightarrow> int \<Rightarrow> job \<Rightarrow> job" where
  "reschedule version runAfter at j =
     j\<lparr>j_ref_version := version,
       j_attempts := 0,
       j_last_error := None,
       j_pending_since := (if j_done_at j = None then j_pending_since j else at),
       j_run_after :=
         (if j_done_at j = None then min runAfter (j_pending_since j + MaxWait)
          else max runAfter ((case j_last_run j of None \<Rightarrow> 0 | Some t \<Rightarrow> t) + MinRerun)),
       j_done_at := None\<rparr>"

definition job_key :: "job \<Rightarrow> job_kind \<times> int" where
  "job_key j = (j_kind j, j_ref j)"

definition schedule_in :: "job_kind \<Rightarrow> int \<Rightarrow> int \<Rightarrow> int \<Rightarrow> int \<Rightarrow> job list \<Rightarrow> job list" where
  "schedule_in k ref version runAfter at t =
     upsert job_key (new_job (next_rowid j_id t) k ref version runAfter at)
       (reschedule version runAfter at) t"

definition schedule :: "job_kind \<Rightarrow> int \<Rightarrow> int \<Rightarrow> int \<Rightarrow> int \<Rightarrow> group_db \<Rightarrow> group_db" where
  "schedule k ref version runAfter at db = db\<lparr>jobs := schedule_in k ref version runAfter at (jobs db)\<rparr>"

definition noteVersion :: "group_db \<Rightarrow> int \<Rightarrow> int" where
  "noteVersion db noteID =
     sum_list [p_thread_version p. s \<leftarrow> note_sources db, ns_note s = noteID, p \<leftarrow> posts db, p_id p = ns_post s]
     + (case get_note db noteID of None \<Rightarrow> 0 | Some n \<Rightarrow> n_ext_version n)"

section \<open>A thread that changed\<close>

text \<open>The notes on other posts written from this thread.\<close>

definition notes_from :: "int \<Rightarrow> int \<Rightarrow> group_db \<Rightarrow> int list" where
  "notes_from groupID i db =
     [n_id n. n \<leftarrow> note_rows db, s \<leftarrow> note_sources db,
        ns_note s = n_id n, ns_group s = groupID \<and> ns_post s = i \<and> n_host n \<noteq> i \<and> n_state n = NoteActive]"

definition stale_note :: "int \<Rightarrow> int \<Rightarrow> group_db \<Rightarrow> group_db" where
  "stale_note at n db =
     (let db1 = db\<lparr>note_rows := upd_where (\<lambda>r. n_id r = n) (\<lambda>r. r\<lparr>n_stale := True\<rparr>) (note_rows db)\<rparr>
      in schedule JobNote n (noteVersion db1 n) (at + QuietPeriod) at db1)"

definition stale_entries :: "int \<Rightarrow> group_db \<Rightarrow> group_db" where
  "stale_entries i db =
     db\<lparr>faq_entries := upd_where (\<lambda>e. list_ex (\<lambda>s. fs_entry s = e_id e \<and> fs_post s = i) (faq_sources db))
          (\<lambda>e. e\<lparr>e_stale := True, e_version := e_version e + 1\<rparr>) (faq_entries db)\<rparr>"

definition threadStep :: "int \<Rightarrow> int \<Rightarrow> int \<Rightarrow> group_db \<Rightarrow> go_error + group_db" where
  "threadStep groupID at i db =
     (case get_post db i of
        None \<Rightarrow> Inl SqlNoRows
      | Some p \<Rightarrow>
        let v = p_thread_version p + 1;
            db1 = db\<lparr>posts := upd_where (\<lambda>q. p_id q = i) (\<lambda>q. q\<lparr>p_thread_version := v\<rparr>) (posts db)\<rparr>;
            db2 = schedule JobDigest i v (at + QuietPeriod) at db1;
            db3 = (if p_comment_count p \<ge> SummaryMin then schedule JobSummary i v (at + QuietPeriod) at db2 else db2);
            db4 = stale_entries i db3
        in Inr (fold (stale_note at) (notes_from groupID i db4) db4))"

definition threadChanged :: "int \<Rightarrow> int \<Rightarrow> int \<Rightarrow> group_db \<Rightarrow> go_error + group_db" where
  "threadChanged groupID postID at db =
     (case get_post db postID of
        None \<Rightarrow> Inl SqlNoRows
      | Some p \<Rightarrow>
        foldE (threadStep groupID at)
          (postID # (case p_continues p of None \<Rightarrow> [] | Some u \<Rightarrow> [u])) db)"

definition postEdited :: "int \<Rightarrow> int \<Rightarrow> int \<Rightarrow> group_db \<Rightarrow> go_error + group_db" where
  "postEdited groupID postID at db =
     (case get_post db postID of
        None \<Rightarrow> Inl SqlNoRows
      | Some p \<Rightarrow>
        let v = p_version p + 1;
            db1 = db\<lparr>posts := upd_where (\<lambda>q. p_id q = postID) (\<lambda>q. q\<lparr>p_version := v\<rparr>) (posts db)\<rparr>
        in threadChanged groupID postID at (schedule JobCheck postID v at at db1))"

section \<open>A worker's side\<close>

record ClaimJob =
  cj_GroupID :: int
  cj_JobID :: int
  cj_Worker :: string
  cj_At :: int

definition claim_in :: "int \<Rightarrow> string \<Rightarrow> int \<Rightarrow> job list \<Rightarrow> bool \<times> job list" where
  "claim_in jobID worker at t =
     (let due = (\<lambda>j. j_id j = jobID \<and> j_done_at j = None \<and> j_run_after j \<le> at
                   \<and> (case j_lease_until j of None \<Rightarrow> True | Some l \<Rightarrow> l < at))
      in (affected due t = 1,
          upd_where due (\<lambda>j. j\<lparr>j_claimed_by := Some worker, j_lease_until := Some (at + JobLease),
                               j_attempts := j_attempts j + 1\<rparr>) t))"

definition apply_ClaimJob :: "ClaimJob \<Rightarrow> group_db plan" where
  "apply_ClaimJob c = Tx (VBool False) (\<lambda>db.
     let (got, t) = claim_in (cj_JobID c) (cj_Worker c) (cj_At c) (jobs db)
     in Inr (VBool got, db\<lparr>jobs := t\<rparr>))"

text \<open>\<^verbatim>\<open>sql.NullString\<close> read as a string: empty when NULL.\<close>

definition null_str :: "string option \<Rightarrow> string" where
  "null_str s = (case s of None \<Rightarrow> [] | Some x \<Rightarrow> x)"

record FailJob =
  fj_GroupID :: int
  fj_JobID :: int
  fj_Worker :: string
  fj_Error :: string
  fj_At :: int

definition fail_in :: "int \<Rightarrow> string \<Rightarrow> string \<Rightarrow> int \<Rightarrow> job list \<Rightarrow> job list" where
  "fail_in jobID worker err at t =
     (case find (\<lambda>j. j_id j = jobID) t of
        None \<Rightarrow> t
      | Some j \<Rightarrow>
        if null_str (j_claimed_by j) \<noteq> worker then t
        else if j_attempts j \<ge> MaxAttempts then
          upd_where (\<lambda>r. j_id r = jobID)
            (\<lambda>r. r\<lparr>j_claimed_by := None, j_lease_until := None, j_done_at := Some at, j_last_error := Some err\<rparr>) t
        else
          upd_where (\<lambda>r. j_id r = jobID)
            (\<lambda>r. r\<lparr>j_claimed_by := None, j_lease_until := None,
                   j_run_after := at + j_attempts j * j_attempts j * 60, j_last_error := Some err\<rparr>) t)"

definition apply_FailJob :: "FailJob \<Rightarrow> group_db plan" where
  "apply_FailJob c = nilTx (\<lambda>db.
     Inr (db\<lparr>jobs := fail_in (fj_JobID c) (fj_Worker c) (fj_Error c) (fj_At c) (jobs db)\<rparr>))"

definition finish_in :: "int \<Rightarrow> string \<Rightarrow> int \<Rightarrow> int \<Rightarrow> int \<Rightarrow> job list \<Rightarrow> bool \<times> job list" where
  "finish_in jobID worker version current at t =
     (case find (\<lambda>j. j_id j = jobID) t of
        None \<Rightarrow> (False, t)
      | Some j \<Rightarrow>
        if null_str (j_claimed_by j) \<noteq> worker then (False, t)
        else if version \<noteq> current then
          (False, upd_where (\<lambda>r. j_id r = jobID) (\<lambda>r. r\<lparr>j_claimed_by := None, j_lease_until := None\<rparr>) t)
        else
          (True, upd_where (\<lambda>r. j_id r = jobID)
             (\<lambda>r. r\<lparr>j_claimed_by := None, j_lease_until := None, j_done_at := Some at,
                    j_last_run := Some at, j_last_error := None\<rparr>) t))"

definition finishJob :: "int \<Rightarrow> string \<Rightarrow> int \<Rightarrow> int \<Rightarrow> int \<Rightarrow> group_db \<Rightarrow> bool \<times> group_db" where
  "finishJob jobID worker version current at db =
     (let (ok, t) = finish_in jobID worker version current at (jobs db) in (ok, db\<lparr>jobs := t\<rparr>))"

section \<open>What a thread's change leaves alone\<close>

lemma schedule_frame [frame]:
  "posts (schedule k r v a t db) = posts db"
  "comments (schedule k r v a t db) = comments db"
  "memberships (schedule k r v a t db) = memberships db"
  "settings_row (schedule k r v a t db) = settings_row db"
  "search_fts (schedule k r v a t db) = search_fts db"
  "note_rows (schedule k r v a t db) = note_rows db"
  "note_sources (schedule k r v a t db) = note_sources db"
  "faq_entries (schedule k r v a t db) = faq_entries db"
  "faq_sources (schedule k r v a t db) = faq_sources db"
  "votes (schedule k r v a t db) = votes db"
  "invites (schedule k r v a t db) = invites db"
  "sources (schedule k r v a t db) = sources db"
  "outbox (schedule k r v a t db) = outbox db"
  by (simp_all add: schedule_def)

text \<open>
  \<open>thread_frame db db'\<close>: \<open>db'\<close> differs from \<open>db\<close> in nothing but queued jobs, the
  thread versions of posts, which notes are stale, and the staleness and version of FAQ
  entries.
\<close>

definition mask_thread :: "group_db \<Rightarrow> group_db" where
  "mask_thread db =
     db\<lparr>jobs := [],
        posts := map (\<lambda>p. p\<lparr>p_thread_version := 0\<rparr>) (posts db),
        note_rows := map (\<lambda>n. n\<lparr>n_stale := False\<rparr>) (note_rows db),
        faq_entries := map (\<lambda>e. e\<lparr>e_stale := False, e_version := 0\<rparr>) (faq_entries db)\<rparr>"

definition thread_frame :: "group_db \<Rightarrow> group_db \<Rightarrow> bool" where
  "thread_frame db db' \<longleftrightarrow> mask_thread db' = mask_thread db"

lemma thread_frame_refl [intro, simp]: "thread_frame db db"
  by (simp add: thread_frame_def)

lemma thread_frame_trans [trans]: "thread_frame a b \<Longrightarrow> thread_frame b c \<Longrightarrow> thread_frame a c"
  by (simp add: thread_frame_def)

lemma thread_frame_schedule [intro, simp]: "thread_frame a b \<Longrightarrow> thread_frame a (schedule k r v t u b)"
  by (simp add: thread_frame_def mask_thread_def schedule_def)

lemma thread_frame_notes:
  "thread_frame a b \<Longrightarrow>
   thread_frame a (b\<lparr>note_rows := upd_where P (\<lambda>r. r\<lparr>n_stale := True\<rparr>) (note_rows b)\<rparr>)"
  by (simp add: thread_frame_def mask_thread_def map_upd_where)

lemma thread_frame_stale_note: "thread_frame a b \<Longrightarrow> thread_frame a (stale_note at n b)"
  by (simp add: stale_note_def Let_def thread_frame_notes)

lemma thread_frame_fold_stale: "thread_frame a b \<Longrightarrow> thread_frame a (fold (stale_note at) ns b)"
  by (induction ns arbitrary: b) (auto intro: thread_frame_stale_note)

lemma thread_frame_stale_entries: "thread_frame a b \<Longrightarrow> thread_frame a (stale_entries i b)"
  by (simp add: thread_frame_def mask_thread_def stale_entries_def map_upd_where)

lemma thread_frame_bump:
  "thread_frame a b \<Longrightarrow>
   thread_frame a (b\<lparr>posts := upd_where P (\<lambda>q. q\<lparr>p_thread_version := v\<rparr>) (posts b)\<rparr>)"
  by (simp add: thread_frame_def mask_thread_def map_upd_where)

lemma threadStep_frame: "threadStep g at i db = Inr db' \<Longrightarrow> thread_frame db db'"
  by (auto simp: threadStep_def Let_def split: option.splits if_splits
      intro!: thread_frame_fold_stale thread_frame_stale_entries thread_frame_schedule thread_frame_bump)

lemma foldE_threadStep_frame: "foldE (threadStep g at) is db = Inr db' \<Longrightarrow> thread_frame db db'"
  by (induction "is" arbitrary: db) (auto simp: bind_iffs dest!: threadStep_frame intro: thread_frame_trans)

lemma threadChanged_frame: "threadChanged g i at db = Inr db' \<Longrightarrow> thread_frame db db'"
  by (auto simp: threadChanged_def bind_iffs split: option.splits
      dest!: threadStep_frame intro: thread_frame_trans)

lemma thread_frame_eq:
  "thread_frame db db' \<Longrightarrow> f (mask_thread db') = f (mask_thread db)"
  by (simp add: thread_frame_def)

lemma thread_frame_comments: "thread_frame db db' \<Longrightarrow> comments db' = comments db"
  by (drule thread_frame_eq[where f = comments]) (simp add: mask_thread_def)

lemma thread_frame_memberships: "thread_frame db db' \<Longrightarrow> memberships db' = memberships db"
  by (drule thread_frame_eq[where f = memberships]) (simp add: mask_thread_def)

lemma thread_frame_settings_row: "thread_frame db db' \<Longrightarrow> settings_row db' = settings_row db"
  by (drule thread_frame_eq[where f = settings_row]) (simp add: mask_thread_def)

lemma thread_frame_search_fts: "thread_frame db db' \<Longrightarrow> search_fts db' = search_fts db"
  by (drule thread_frame_eq[where f = search_fts]) (simp add: mask_thread_def)

lemma thread_frame_note_sources: "thread_frame db db' \<Longrightarrow> note_sources db' = note_sources db"
  by (drule thread_frame_eq[where f = note_sources]) (simp add: mask_thread_def)

lemma thread_frame_faq_sources: "thread_frame db db' \<Longrightarrow> faq_sources db' = faq_sources db"
  by (drule thread_frame_eq[where f = faq_sources]) (simp add: mask_thread_def)

lemma thread_frame_faq_topics: "thread_frame db db' \<Longrightarrow> faq_topics db' = faq_topics db"
  by (drule thread_frame_eq[where f = faq_topics]) (simp add: mask_thread_def)

lemma thread_frame_post_topics: "thread_frame db db' \<Longrightarrow> post_topics db' = post_topics db"
  by (drule thread_frame_eq[where f = post_topics]) (simp add: mask_thread_def)

lemma thread_frame_votes: "thread_frame db db' \<Longrightarrow> votes db' = votes db"
  by (drule thread_frame_eq[where f = votes]) (simp add: mask_thread_def)

lemma thread_frame_invites: "thread_frame db db' \<Longrightarrow> invites db' = invites db"
  by (drule thread_frame_eq[where f = invites]) (simp add: mask_thread_def)

lemma thread_frame_sources: "thread_frame db db' \<Longrightarrow> sources db' = sources db"
  by (drule thread_frame_eq[where f = sources]) (simp add: mask_thread_def)

lemma thread_frame_source_links: "thread_frame db db' \<Longrightarrow> source_links db' = source_links db"
  by (drule thread_frame_eq[where f = source_links]) (simp add: mask_thread_def)

lemma thread_frame_outbox: "thread_frame db db' \<Longrightarrow> outbox db' = outbox db"
  by (drule thread_frame_eq[where f = outbox]) (simp add: mask_thread_def)

lemma thread_frame_outbox_seq: "thread_frame db db' \<Longrightarrow> outbox_seq db' = outbox_seq db"
  by (drule thread_frame_eq[where f = outbox_seq]) (simp add: mask_thread_def)

lemma thread_frame_sister_links: "thread_frame db db' \<Longrightarrow> sister_links db' = sister_links db"
  by (drule thread_frame_eq[where f = sister_links]) (simp add: mask_thread_def)

lemma thread_frame_mod_log: "thread_frame db db' \<Longrightarrow> mod_log db' = mod_log db"
  by (drule thread_frame_eq[where f = mod_log]) (simp add: mask_thread_def)

lemma thread_frame_reports: "thread_frame db db' \<Longrightarrow> reports db' = reports db"
  by (drule thread_frame_eq[where f = reports]) (simp add: mask_thread_def)

lemma thread_frame_revisions: "thread_frame db db' \<Longrightarrow> revisions db' = revisions db"
  by (drule thread_frame_eq[where f = revisions]) (simp add: mask_thread_def)

lemma thread_frame_follows: "thread_frame db db' \<Longrightarrow> follows db' = follows db"
  by (drule thread_frame_eq[where f = follows]) (simp add: mask_thread_def)

lemma thread_frame_notifications: "thread_frame db db' \<Longrightarrow> notifications db' = notifications db"
  by (drule thread_frame_eq[where f = notifications]) (simp add: mask_thread_def)

lemma thread_frame_notifications_seq: "thread_frame db db' \<Longrightarrow> notifications_seq db' = notifications_seq db"
  by (drule thread_frame_eq[where f = notifications_seq]) (simp add: mask_thread_def)

lemma thread_frame_post_links: "thread_frame db db' \<Longrightarrow> post_links db' = post_links db"
  by (drule thread_frame_eq[where f = post_links]) (simp add: mask_thread_def)

lemma thread_frame_images: "thread_frame db db' \<Longrightarrow> images db' = images db"
  by (drule thread_frame_eq[where f = images]) (simp add: mask_thread_def)

lemma thread_frame_nudges: "thread_frame db db' \<Longrightarrow> nudges db' = nudges db"
  by (drule thread_frame_eq[where f = nudges]) (simp add: mask_thread_def)

lemma thread_frame_flag_votes: "thread_frame db db' \<Longrightarrow> flag_votes db' = flag_votes db"
  by (drule thread_frame_eq[where f = flag_votes]) (simp add: mask_thread_def)

lemma thread_frame_mod_examples: "thread_frame db db' \<Longrightarrow> mod_examples db' = mod_examples db"
  by (drule thread_frame_eq[where f = mod_examples]) (simp add: mask_thread_def)

lemma thread_frame_mod_examples_seq: "thread_frame db db' \<Longrightarrow> mod_examples_seq db' = mod_examples_seq db"
  by (drule thread_frame_eq[where f = mod_examples_seq]) (simp add: mask_thread_def)

lemma thread_frame_faq_history: "thread_frame db db' \<Longrightarrow> faq_history db' = faq_history db"
  by (drule thread_frame_eq[where f = faq_history]) (simp add: mask_thread_def)

lemma thread_frame_faq_comments: "thread_frame db db' \<Longrightarrow> faq_comments db' = faq_comments db"
  by (drule thread_frame_eq[where f = faq_comments]) (simp add: mask_thread_def)

lemma thread_frame_source_domains: "thread_frame db db' \<Longrightarrow> source_domains db' = source_domains db"
  by (drule thread_frame_eq[where f = source_domains]) (simp add: mask_thread_def)

lemma thread_frame_ai_feedbacks: "thread_frame db db' \<Longrightarrow> ai_feedbacks db' = ai_feedbacks db"
  by (drule thread_frame_eq[where f = ai_feedbacks]) (simp add: mask_thread_def)

lemmas thread_frame_tables =
  thread_frame_comments thread_frame_memberships thread_frame_settings_row thread_frame_search_fts
  thread_frame_note_sources thread_frame_faq_sources thread_frame_faq_topics thread_frame_post_topics
  thread_frame_votes thread_frame_invites thread_frame_sources thread_frame_source_links
  thread_frame_outbox thread_frame_outbox_seq thread_frame_sister_links thread_frame_mod_log
  thread_frame_reports thread_frame_revisions thread_frame_follows thread_frame_notifications
  thread_frame_notifications_seq thread_frame_post_links thread_frame_images thread_frame_nudges
  thread_frame_flag_votes thread_frame_mod_examples thread_frame_mod_examples_seq thread_frame_faq_history
  thread_frame_faq_comments thread_frame_source_domains thread_frame_ai_feedbacks

text \<open>Of the posts, the notes and the FAQ entries, whatever does not look at the masked
  columns is as it was.\<close>

lemma thread_frame_posts:
  assumes "thread_frame db db'" and "\<And>p. f (p\<lparr>p_thread_version := 0\<rparr>) = f p"
  shows "map f (posts db') = map f (posts db)"
proof -
  have "map f (map (\<lambda>p. p\<lparr>p_thread_version := 0\<rparr>) (posts db')) = map f (map (\<lambda>p. p\<lparr>p_thread_version := 0\<rparr>) (posts db))"
    using thread_frame_eq[OF assms(1), of posts] by (simp add: mask_thread_def)
  then show ?thesis by (simp add: o_def assms(2))
qed

lemma thread_frame_note_rows:
  assumes "thread_frame db db'" and "\<And>n. f (n\<lparr>n_stale := False\<rparr>) = f n"
  shows "map f (note_rows db') = map f (note_rows db)"
proof -
  have "map f (map (\<lambda>n. n\<lparr>n_stale := False\<rparr>) (note_rows db')) = map f (map (\<lambda>n. n\<lparr>n_stale := False\<rparr>) (note_rows db))"
    using thread_frame_eq[OF assms(1), of note_rows] by (simp add: mask_thread_def)
  then show ?thesis by (simp add: o_def assms(2))
qed

lemma thread_frame_faq_entries:
  assumes "thread_frame db db'" and "\<And>e. f (e\<lparr>e_stale := False, e_version := 0\<rparr>) = f e"
  shows "map f (faq_entries db') = map f (faq_entries db)"
proof -
  have "map f (map (\<lambda>e. e\<lparr>e_stale := False, e_version := 0\<rparr>) (faq_entries db'))
      = map f (map (\<lambda>e. e\<lparr>e_stale := False, e_version := 0\<rparr>) (faq_entries db))"
    using thread_frame_eq[OF assms(1), of faq_entries] by (simp add: mask_thread_def)
  then show ?thesis by (simp add: o_def assms(2))
qed

section \<open>The queue keeps its key\<close>

interpretation job_table: keyed_table job_key "\<lambda>f. \<forall>j. job_key (f j) = job_key j"
  by unfold_locales simp

lemma reschedule_simps [simp]:
  "j_id (reschedule v r a j) = j_id j"
  "job_key (reschedule v r a j) = job_key j"
  "j_claimed_by (reschedule v r a j) = j_claimed_by j"
  "j_lease_until (reschedule v r a j) = j_lease_until j"
  "j_done_at (reschedule v r a j) = None"
  "j_last_run (reschedule v r a j) = j_last_run j"
  by (simp_all add: reschedule_def job_key_def)

lemma new_job_simps [simp]:
  "job_key (new_job i k ref v r a) = (k, ref)"
  "j_id (new_job i k ref v r a) = i"
  "j_done_at (new_job i k ref v r a) = None"
  "j_run_after (new_job i k ref v r a) = r"
  "j_pending_since (new_job i k ref v r a) = a"
  by (simp_all add: new_job_def job_key_def)

lemma schedule_wf: "job_table.wf t \<Longrightarrow> job_table.wf (schedule_in k r v ra at t)"
  by (simp add: schedule_in_def job_table.wf_upsert)

lemma find_has_key: "has_key k x t \<longleftrightarrow> find (\<lambda>r. k r = x) t \<noteq> None"
  by (induction t) auto

lemma find_schedule:
  "find (\<lambda>j. job_key j = (k, r)) (schedule_in k r v ra at t) =
     Some (case find (\<lambda>j. job_key j = (k, r)) t of
             None \<Rightarrow> new_job (next_rowid j_id t) k r v ra at
           | Some j \<Rightarrow> reschedule v ra at j)"
proof (cases "find (\<lambda>j. job_key j = (k, r)) t")
  case None
  then show ?thesis by (simp add: schedule_in_def upsert_def find_has_key)
next
  case (Some j)
  then have "job_key j = (k, r)" by (auto dest: find_Some_mem)
  with Some show ?thesis
    by (simp add: schedule_in_def upsert_def find_has_key map_find_upd_key)
qed

lemma find_schedule_other:
  assumes "(k', r') \<noteq> (k, r)"
  shows "find (\<lambda>j. job_key j = (k, r)) (schedule_in k' r' v ra at t) = find (\<lambda>j. job_key j = (k, r)) t"
proof -
  have "map_option (\<lambda>j. if job_key j = (k', r') then f j else j) (find (\<lambda>j. job_key j = (k, r)) t)
      = find (\<lambda>j. job_key j = (k, r)) t" for f
    using assms by (cases "find (\<lambda>j. job_key j = (k, r)) t") (auto dest: find_Some_mem)
  with assms show ?thesis
    by (auto simp: schedule_in_def upsert_def map_find_upd_key split: option.splits)
qed

text \<open>
  A waiting job that keeps its place: its id, its waiting since \<open>p\<close>, and a time to run no
  later than \<open>p + MaxWait\<close>.
\<close>

definition waits :: "job_kind \<Rightarrow> int \<Rightarrow> int \<Rightarrow> int \<Rightarrow> job list \<Rightarrow> bool" where
  "waits k r i p t \<longleftrightarrow>
     (\<exists>j. find (\<lambda>j. job_key j = (k, r)) t = Some j \<and> j_id j = i \<and> j_done_at j = None
        \<and> j_pending_since j = p \<and> j_run_after j \<le> p + MaxWait)"

lemma waits_schedule: "waits k r i p t \<Longrightarrow> waits k r i p (schedule_in k' r' v ra at t)"
proof (cases "(k', r') = (k, r)")
  case True
  assume "waits k r i p t"
  then obtain j where "find (\<lambda>j. job_key j = (k, r)) t = Some j" "j_id j = i" "j_done_at j = None"
    "j_pending_since j = p" by (auto simp: waits_def)
  with True show ?thesis
    by (simp add: waits_def find_schedule) (simp add: reschedule_def)
qed (simp add: waits_def find_schedule_other)

type_synonym sched_req = "job_kind \<times> int \<times> int \<times> int \<times> int"

definition sched_req :: "sched_req \<Rightarrow> job list \<Rightarrow> job list" where
  "sched_req q t = (case q of (k, r, v, ra, at) \<Rightarrow> schedule_in k r v ra at t)"

lemma waits_fold: "waits k r i p t \<Longrightarrow> waits k r i p (fold sched_req qs t)"
  by (induction qs arbitrary: t) (auto simp: sched_req_def waits_schedule split: prod.splits)

section \<open>A lease is exclusive\<close>

text \<open>What commands do to the queue, one constructor per operation.\<close>

datatype queue_op =
    QSchedule job_kind int int int int
  | QClaim int string int
  | QFail int string string int
  | QFinish int string int int int

fun queue_step :: "queue_op \<Rightarrow> job list \<Rightarrow> job list" where
  "queue_step (QSchedule k r v ra at) t = schedule_in k r v ra at t"
| "queue_step (QClaim i w at) t = snd (claim_in i w at t)"
| "queue_step (QFail i w e at) t = fail_in i w e at t"
| "queue_step (QFinish i w v cur at) t = snd (finish_in i w v cur at t)"

text \<open>An operation that is not worker \<open>w\<close>'s on job \<open>i\<close>, submitted no later than \<open>u\<close>.\<close>

fun others :: "int \<Rightarrow> string \<Rightarrow> int \<Rightarrow> queue_op \<Rightarrow> bool" where
  "others i w u (QSchedule k r v ra at) = True"
| "others i w u (QClaim i' w' at) = (i' = i \<longrightarrow> at \<le> u)"
| "others i w u (QFail i' w' e at) = (i' = i \<longrightarrow> w' \<noteq> w)"
| "others i w u (QFinish i' w' v cur at) = (i' = i \<longrightarrow> w' \<noteq> w)"

definition leased :: "int \<Rightarrow> string \<Rightarrow> int \<Rightarrow> job list \<Rightarrow> bool" where
  "leased i w u t \<longleftrightarrow> (\<exists>j \<in> set t. j_id j = i) \<and>
     (\<forall>j \<in> set t. j_id j = i \<longrightarrow> j_claimed_by j = Some w \<and> j_lease_until j = Some u)"

lemma leased_upd:
  assumes "leased i w u t"
    and "\<And>j. j_id (f j) = j_id j"
    and "\<And>j. j \<in> set t \<Longrightarrow> P j \<Longrightarrow> j_id j = i \<Longrightarrow>
           j_claimed_by (f j) = j_claimed_by j \<and> j_lease_until (f j) = j_lease_until j"
  shows "leased i w u (upd_where P f t)"
  unfolding leased_def
proof (intro conjI ballI impI)
  obtain j where "j \<in> set t" "j_id j = i" using assms(1) by (auto simp: leased_def)
  then have "(if P j then f j else j) \<in> set (upd_where P f t)" "j_id (if P j then f j else j) = i"
    using assms(2) by (auto simp: set_upd_where)
  then show "\<exists>j \<in> set (upd_where P f t). j_id j = i" by (rule bexI[rotated])
next
  fix j' assume "j' \<in> set (upd_where P f t)" "j_id j' = i"
  then obtain j where j: "j \<in> set t" "j' = (if P j then f j else j)"
    by (auto simp: set_upd_where)
  have i: "j_id j = i" using j(2) \<open>j_id j' = i\<close> assms(2)[of j] by (cases "P j") simp_all
  then have "j_claimed_by j = Some w \<and> j_lease_until j = Some u"
    using assms(1) j(1) by (simp add: leased_def)
  then show "j_claimed_by j' = Some w" "j_lease_until j' = Some u"
    using j assms(3)[OF j(1) _ i] by (cases "P j"; simp)+
qed

lemma leased_schedule: "leased i w u t \<Longrightarrow> leased i w u (schedule_in k r v ra at t)"
proof (cases "has_key job_key (k, r) t")
  case True
  assume l: "leased i w u t"
  have "schedule_in k r v ra at t = upd_where (\<lambda>x. job_key x = (k, r)) (reschedule v ra at) t"
    using True by (simp add: schedule_in_def upsert_def)
  then show ?thesis using leased_upd[OF l] by simp
next
  case False
  assume l: "leased i w u t"
  then have "next_rowid j_id t \<noteq> i"
    using next_rowid_fresh[of j_id t] by (auto simp: leased_def has_key_iff)
  moreover have "schedule_in k r v ra at t = t @ [new_job (next_rowid j_id t) k r v ra at]"
    using False by (simp add: schedule_in_def upsert_def)
  ultimately show ?thesis using l by (simp add: leased_def)
qed

lemma leased_find:
  assumes "leased i w u t" "find (\<lambda>j. j_id j = i) t = Some j"
  shows "j_claimed_by j = Some w"
  using assms(1) find_Some_mem[OF assms(2)] by (auto simp: leased_def)

lemma leased_claim: "leased i w u t \<Longrightarrow> i' = i \<longrightarrow> at \<le> u \<Longrightarrow> leased i w u (snd (claim_in i' w' at t))"
  unfolding claim_in_def Let_def snd_conv by (rule leased_upd) (auto simp: leased_def)

lemma leased_fail: "leased i w u t \<Longrightarrow> i' = i \<longrightarrow> w' \<noteq> w \<Longrightarrow> leased i w u (fail_in i' w' e at t)"
  by (cases "find (\<lambda>j. j_id j = i') t")
    (auto simp: fail_in_def null_str_def dest: leased_find intro!: leased_upd split: option.splits)

lemma leased_finish: "leased i w u t \<Longrightarrow> i' = i \<longrightarrow> w' \<noteq> w \<Longrightarrow> leased i w u (snd (finish_in i' w' v cur at t))"
  by (cases "find (\<lambda>j. j_id j = i') t")
    (auto simp: finish_in_def null_str_def dest: leased_find intro!: leased_upd split: option.splits)

lemma leased_step: "leased i w u t \<Longrightarrow> others i w u op \<Longrightarrow> leased i w u (queue_step op t)"
  by (cases op) (simp_all add: leased_schedule leased_claim leased_fail leased_finish)

lemma leased_steps:
  "leased i w u t \<Longrightarrow> (\<forall>op \<in> set ops. others i w u op) \<Longrightarrow> leased i w u (fold queue_step ops t)"
  by (induction ops arbitrary: t) (auto simp: leased_step)

lemma leased_no_claim: "leased i w u t \<Longrightarrow> at \<le> u \<Longrightarrow> \<not> fst (claim_in i w' at t)"
  by (auto simp: claim_in_def Let_def affected_def leased_def filter_empty_conv)

lemma claim_leases:
  assumes "distinct (map j_id t)" "fst (claim_in i w at t)"
  shows "leased i w (at + JobLease) (snd (claim_in i w at t))"
proof -
  define due where "due = (\<lambda>j :: job. j_id j = i \<and> j_done_at j = None \<and> j_run_after j \<le> at
                   \<and> (case j_lease_until j of None \<Rightarrow> True | Some l \<Rightarrow> l < at))"
  have "filter due t \<noteq> []" using assms(2) by (auto simp: claim_in_def Let_def affected_def due_def)
  then obtain j where j: "j \<in> set t" "due j" by (auto simp: filter_empty_conv)
  have uniq: "\<forall>x \<in> set t. j_id x = i \<longrightarrow> x = j"
    using assms(1) j unfolding distinct_map inj_on_def due_def by metis
  have eq: "snd (claim_in i w at t) = upd_where due (\<lambda>j. j\<lparr>j_claimed_by := Some w,
          j_lease_until := Some (at + JobLease), j_attempts := j_attempts j + 1\<rparr>) t"
    by (simp add: claim_in_def Let_def due_def)
  have A: "due x" if "x \<in> set t" "j_id x = i" for x using that uniq j by blast
  have "j_id j = i" using j(2) by (simp add: due_def)
  have "\<exists>x \<in> set (snd (claim_in i w at t)). j_id x = i"
    unfolding eq set_upd_where using j \<open>j_id j = i\<close> by (intro bexI[OF _ imageI[OF j(1)]]) simp
  then show ?thesis
    unfolding leased_def by (auto simp: eq set_upd_where A split: if_splits)
qed

section \<open>Properties\<close>

text \<open>C2: steady activity cannot starve a job: once it waits, no sequence of further requests
  for it or for others moves the time it may run past \<open>MaxWait\<close> (two hours) after it began
  to wait, and it stays one row with the same id.\<close>

theorem schedule_never_starves:
  assumes "runAfter \<le> at + MaxWait" and "\<not> has_key job_key (k, r) t"
  shows "\<exists>j. find (\<lambda>j. job_key j = (k, r)) (fold sched_req qs (schedule_in k r v runAfter at t)) = Some j
     \<and> j_id j = next_rowid j_id t \<and> j_done_at j = None \<and> j_run_after j \<le> at + MaxWait"
proof -
  have "find (\<lambda>j. job_key j = (k, r)) t = None" using assms(2) by (simp add: find_has_key)
  then have "waits k r (next_rowid j_id t) at (schedule_in k r v runAfter at t)"
    using assms(1) by (simp add: waits_def find_schedule)
  from waits_fold[OF this, of qs] show ?thesis by (auto simp: waits_def)
qed

lemma schedule_never_starves_witness:
  "\<exists>j. find (\<lambda>j. job_key j = (JobDigest, 9))
         (fold sched_req [(JobDigest, 9, 2, 1600, 700), (JobDigest, 9, 3, 9500, 8600)]
            (schedule_in JobDigest 9 1 900 0 [])) = Some j
     \<and> j_id j = next_rowid j_id ([] :: job list) \<and> j_done_at j = None \<and> j_run_after j \<le> 0 + MaxWait"
  by (rule schedule_never_starves) simp_all

text \<open>C1: a lease is exclusive: from the moment a worker's claim succeeds until its lease runs
  out, whatever else is done to the queue (jobs scheduled, other workers claiming, failing or
  finishing, in any order), no claim of that job succeeds.\<close>

theorem lease_exclusive:
  assumes "distinct (map j_id t)" and "fst (claim_in i w at t)"
    and "\<forall>op \<in> set ops. others i w (at + JobLease) op" and "at' \<le> at + JobLease"
  shows "\<not> fst (claim_in i w' at' (fold queue_step ops (snd (claim_in i w at t))))"
  using leased_no_claim[OF leased_steps[OF claim_leases[OF assms(1,2)] assms(3)] assms(4)] .

lemma lease_exclusive_witness:
  "\<not> fst (claim_in 1 ''b'' 250 (fold queue_step [QSchedule JobDigest 9 2 1000 100, QFail 1 ''b'' ''x'' 200]
        (snd (claim_in 1 ''a'' 10 [new_job 1 JobDigest 9 1 5 0]))))"
  by (rule lease_exclusive) (simp_all add: claim_in_def affected_def new_job_def)

text \<open>"At most once an hour" is not kept: a digest that has just run at 0 and is re-opened by
  a change a minute later waits until the hour is over, but a second change a minute after that
  moves it back to fifteen minutes' quiet, and a worker may claim it 17 minutes after it last
  ran.\<close>

theorem rerun_within_the_hour:
  "\<exists>j. j_last_run j = Some 0 \<and>
     (let t1 = schedule_in JobDigest 9 2 (60 + QuietPeriod) 60 [j];
          t2 = schedule_in JobDigest 9 3 (120 + QuietPeriod) 120 t1
      in map j_run_after t1 = [MinRerun] \<and> map j_run_after t2 = [1020] \<and> fst (claim_in 1 ''w'' 1020 t2))"
proof -
  define j where "j = (new_job 1 JobDigest 9 1 0 0)\<lparr>j_done_at := Some 0, j_last_run := Some 0\<rparr>"
  have "j_last_run j = Some 0 \<and>
     (let t1 = schedule_in JobDigest 9 2 (60 + QuietPeriod) 60 [j];
          t2 = schedule_in JobDigest 9 3 (120 + QuietPeriod) 120 t1
      in map j_run_after t1 = [MinRerun] \<and> map j_run_after t2 = [1020] \<and> fst (claim_in 1 ''w'' 1020 t2))"
    by (simp add: j_def new_job_def schedule_in_def upsert_def reschedule_def job_key_def
        claim_in_def affected_def)
  then show ?thesis by (intro exI[of _ j])
qed

end
