(* ===== verification/Items.thy ===== *)
theory Items
  imports "HOL-Library.Product_Lexorder" Applier Jobs
begin

text \<open>
  What the commands on posts and comments share: membership, the search index, photos,
  revisions (\<^verbatim>\<open>posts.go\<close>), notifications (\<^verbatim>\<open>engage.go\<close>), the outbox
  (\<^verbatim>\<open>logs.go\<close>, \<^verbatim>\<open>crosslog.go\<close>, \<^verbatim>\<open>sisters.go\<close>) and the moderated item with its
  changes of status (\<^verbatim>\<open>moderation.go\<close>). A statement that cannot fail is a function of the
  file; one that can returns an error or the changed file.
\<close>

section \<open>Names in commands\<close>

text \<open>Commands carry kinds as strings; an unknown one takes the code's error branch.\<close>

definition kind_str :: "kind \<Rightarrow> string" where
  "kind_str k = (case k of Post \<Rightarrow> ''post'' | Comment \<Rightarrow> ''comment'')"

definition parse_kind :: "string \<Rightarrow> kind option" where
  "parse_kind s = (if s = ''post'' then Some Post else if s = ''comment'' then Some Comment else None)"

lemma parse_kind_Some: "parse_kind s = Some k \<longleftrightarrow> s = kind_str k"
  by (cases k) (auto simp: parse_kind_def kind_str_def)

lemma parse_kind_str [simp]: "parse_kind (kind_str k) = Some k"
  by (simp add: parse_kind_Some)

definition itemTable :: "string \<Rightarrow> go_error + kind" where
  "itemTable k = (case parse_kind k of Some t \<Rightarrow> Inr t | None \<Rightarrow> Inl (QuotedErr ''unknown kind '' k []))"

definition nullIfEmpty :: "string \<Rightarrow> string option" where
  "nullIfEmpty s = (if s = [] then None else Some s)"

definition nullIfZero :: "int \<Rightarrow> int option" where
  "nullIfZero n = (if n = 0 then None else Some n)"

definition notFoundGone :: "go_error \<Rightarrow> go_error" where
  "notFoundGone e = (if e = SqlNoRows then ErrGone else e)"

text \<open>\<^verbatim>\<open>sql.NullInt64\<close> read as a number: zero when NULL.\<close>

definition null_int :: "int option \<Rightarrow> int" where
  "null_int x = (case x of None \<Rightarrow> 0 | Some i \<Rightarrow> i)"

text \<open>A \<^verbatim>\<open>SELECT\<close> of one row by id, its missing row turned into \<^verbatim>\<open>ErrGone\<close>.\<close>

definition the_post :: "group_db \<Rightarrow> int \<Rightarrow> go_error + post" where
  "the_post db i = (case get_post db i of None \<Rightarrow> Inl ErrGone | Some p \<Rightarrow> Inr p)"

definition the_comment :: "group_db \<Rightarrow> int \<Rightarrow> go_error + comment" where
  "the_comment db i = (case get_comment db i of None \<Rightarrow> Inl ErrGone | Some c \<Rightarrow> Inr c)"

lemma the_post_Inr: "the_post db i = Inr p \<longleftrightarrow> get_post db i = Some p"
  by (auto simp: the_post_def split: option.splits)

lemma the_comment_Inr: "the_comment db i = Inr c \<longleftrightarrow> get_comment db i = Some c"
  by (auto simp: the_comment_def split: option.splits)

section \<open>Members\<close>

definition active_member :: "group_db \<Rightarrow> int \<Rightarrow> bool" where
  "active_member db u \<longleftrightarrow> (\<exists>m. get_member db u = Some m \<and> m_status m = Active)"

lemma active_member_code [code]:
  "active_member db u = (case get_member db u of None \<Rightarrow> False | Some m \<Rightarrow> m_status m = Active)"
  by (auto simp: active_member_def split: option.splits)

definition requireMember :: "group_db \<Rightarrow> int \<Rightarrow> go_error + unit" where
  "requireMember db u =
     (case get_member db u of
        None \<Rightarrow> Inl ErrNotMember
      | Some m \<Rightarrow> if m_status m \<noteq> Active then Inl ErrNotMember else Inr ())"

definition anonymousAllowed :: "group_db \<Rightarrow> bool \<Rightarrow> go_error + unit" where
  "anonymousAllowed db anonymous =
     (if \<not> anonymous then Inr ()
      else case settings_row db of
             None \<Rightarrow> Inl SqlNoRows
           | Some s \<Rightarrow>
             if \<not> s_allow_anonymous s
             then Inl (Invalid ''this group doesn't allow anonymous posts'')
             else Inr ())"

lemma requireMember_Inr: "requireMember db u = Inr x \<longleftrightarrow> active_member db u"
  by (auto simp: requireMember_def active_member_def split: option.splits)

definition shown_count :: "group_db \<Rightarrow> int \<Rightarrow> nat" where
  "shown_count db u =
     length (filter (\<lambda>p. p_user p = Some u \<and> shown (p_status p)) (posts db))
     + length (filter (\<lambda>c. c_user c = Some u \<and> shown (c_status c)) (comments db))"

definition firstPostStatus :: "group_db \<Rightarrow> int \<Rightarrow> go_error + status" where
  "firstPostStatus db u =
     (case settings_row db of
        None \<Rightarrow> Inl SqlNoRows
      | Some s \<Rightarrow>
        if \<not> s_hold_first_post s then Inr Visible
        else let r = map_option m_role (get_member db u) in
             if shown_count db u > 0 \<or> r = Some Owner \<or> r = Some Mod then Inr Visible
             else Inr Held)"

section \<open>The search index\<close>

definition ftsPut :: "fts_kind \<Rightarrow> int \<Rightarrow> int \<Rightarrow> string \<Rightarrow> string \<Rightarrow> group_db \<Rightarrow> group_db" where
  "ftsPut k i postID title body db =
     db\<lparr>search_fts := del_where (\<lambda>r. f_rowid r = i) (search_fts db)
          @ [\<lparr>f_rowid = i, f_kind = k, f_ref = i, f_post = postID, f_title = title, f_body = body\<rparr>]\<rparr>"

definition ftsDel :: "int \<Rightarrow> group_db \<Rightarrow> group_db" where
  "ftsDel i db = db\<lparr>search_fts := del_where (\<lambda>r. f_rowid r = i) (search_fts db)\<rparr>"

section \<open>Photos and revisions\<close>

record Image =
  img_ID :: int
  img_Hash :: string
  img_Width :: int
  img_Height :: int
  img_Bytes :: int

definition image_row :: "int \<Rightarrow> int option \<Rightarrow> int option \<Rightarrow> int \<Rightarrow> nat \<times> Image \<Rightarrow> image" where
  "image_row postID commentID userID at x =
     (case x of (i, im) \<Rightarrow>
        \<lparr>im_id = img_ID im, im_post = postID, im_comment = commentID, im_user = userID,
         im_hash = img_Hash im, im_width = img_Width im, im_height = img_Height im,
         im_bytes = img_Bytes im, im_sort = int i, im_created = at\<rparr>)"

definition insertImages :: "int \<Rightarrow> int option \<Rightarrow> int option \<Rightarrow> Image list \<Rightarrow> int \<Rightarrow> group_db \<Rightarrow> go_error + group_db" where
  "insertImages postID commentID userID imgs at db =
     bindE (foldE (\<lambda>x t. ins_new im_id (image_row postID commentID userID at x) t)
              (enumerate 0 imgs) (images db))
       (\<lambda>t. Inr (db\<lparr>images := t\<rparr>))"

abbreviation day :: int where "day \<equiv> 24 * 60 * 60"
abbreviation RevisionKeep :: int where "RevisionKeep \<equiv> 90 * day"

definition rev_key :: "revision \<Rightarrow> kind \<times> int \<times> int" where
  "rev_key r = (r_kind r, r_ref r, r_version r)"

definition saveRevision :: "kind \<Rightarrow> int \<Rightarrow> string option \<Rightarrow> string \<Rightarrow> int \<Rightarrow> int \<Rightarrow> group_db \<Rightarrow> go_error + group_db" where
  "saveRevision k i title body editor at db =
     (let n = affected (\<lambda>r. r_kind r = k \<and> r_ref r = i) (revisions db)
      in bindE (ins_new rev_key
                  \<lparr>r_kind = k, r_ref = i, r_version = int n + 1, r_title = title, r_body = body,
                   r_edited_by = editor, r_edited_at = at, r_purge_after = at + RevisionKeep\<rparr>
                  (revisions db))
           (\<lambda>t. Inr (db\<lparr>revisions := t\<rparr>)))"

section \<open>The mod log and the outbox\<close>

definition modLog :: "int \<Rightarrow> string \<Rightarrow> string \<Rightarrow> int \<Rightarrow> string \<Rightarrow> int \<Rightarrow> group_db \<Rightarrow> group_db" where
  "modLog actor action targetType targetID reason at db =
     db\<lparr>mod_log := mod_log db @
         [\<lparr>l_id = next_rowid l_id (mod_log db), l_actor = nullIfZero actor, l_action = action,
           l_target_type = targetType, l_target = targetID, l_reason = reason, l_created = at\<rparr>]\<rparr>"

text \<open>\<^verbatim>\<open>LogOf\<close> for the commands that are sent: their group's log, \<^verbatim>\<open>MirrorGroup\<close> excepted.\<close>

fun followup_group :: "followup \<Rightarrow> int" where
  "followup_group (F_InitGroup c) = ig_GroupID c"
| "followup_group (F_MirrorGroup c) = mg_GroupID c"
| "followup_group (F_DropSisterLinks c) = dl_GroupID c"
| "followup_group (F_PutSisterSide c) = ps_GroupID c"
| "followup_group (F_ShowSisterNotes c) = sn_GroupID c"
| "followup_group (F_RemoveSisterLink c) = rl_GroupID c"
| "followup_group (F_ModLogEntry c) = ml_GroupID c"
| "followup_group (F_PurgeGroup c) = pg_GroupID c"
| "followup_group (F_QueueGroupFAQ c) = qg_GroupID c"

definition LogOf_followup :: "followup \<Rightarrow> int" where
  "LogOf_followup c =
     (case c of F_MirrorGroup _ \<Rightarrow> SiteLog
      | _ \<Rightarrow> if followup_group c > 0 then followup_group c else SiteLog)"

definition send :: "followup \<Rightarrow> int \<Rightarrow> group_db \<Rightarrow> group_db" where
  "send c at db =
     db\<lparr>outbox := outbox db @ [\<lparr>ob_id = outbox_seq db + 1, ob_target = LogOf_followup c,
                              ob_command = c, ob_created = at\<rparr>],
        outbox_seq := outbox_seq db + 1\<rparr>"

section \<open>Sister posts\<close>

definition sisterRefs :: "group_db \<Rightarrow> int \<Rightarrow> (int \<times> int) list" where
  "sisterRefs db postID =
     sort (map (\<lambda>x. (x_group x, x_other x))
       (filter (\<lambda>x. x_post x = postID \<and> x_state x = LinkActive) (sister_links db)))"

definition sendSisterNotes :: "int \<Rightarrow> int \<Rightarrow> (int \<times> int) list \<Rightarrow> bool \<Rightarrow> int \<Rightarrow> group_db \<Rightarrow> group_db" where
  "sendSisterNotes groupID post refs shw at db =
     fold (\<lambda>g. send (F_ShowSisterNotes
             \<lparr>sn_GroupID = g, sn_Hosts = map snd (filter (\<lambda>r. fst r = g) refs),
              sn_FromGroup = groupID, sn_FromPost = post, sn_Show = shw\<rparr>) at)
       (sort (remdups (map fst refs))) db"

section \<open>Notifications\<close>

definition notify :: "int \<Rightarrow> notice \<Rightarrow> int \<Rightarrow> int \<Rightarrow> int \<Rightarrow> int \<Rightarrow> group_db \<Rightarrow> group_db" where
  "notify userID k postID refID actorID at db =
     (if userID = 0 \<or> userID = actorID then db
      else if \<not> active_member db userID then db
      else db\<lparr>notifications := notifications db @
               [\<lparr>no_id = notifications_seq db + 1, no_user = userID, no_kind = k, no_post = postID,
                 no_ref = refID, no_actor = actorID, no_read = None, no_emailed = None, no_created = at\<rparr>],
              notifications_seq := notifications_seq db + 1\<rparr>)"

definition followers_of :: "group_db \<Rightarrow> int \<Rightarrow> int list" where
  "followers_of db postID = sort (map fo_user (filter (\<lambda>f. fo_post f = postID) (follows db)))"

definition notifyFollowers :: "int \<Rightarrow> notice \<Rightarrow> int \<Rightarrow> int \<Rightarrow> int list \<Rightarrow> int \<Rightarrow> group_db \<Rightarrow> group_db" where
  "notifyFollowers postID k refID actorID skip at db =
     fold (\<lambda>u d. if u \<in> set skip then d else notify u k postID refID actorID at d)
       (followers_of db postID) db"

definition commentNotices :: "int \<Rightarrow> int \<Rightarrow> int \<Rightarrow> int \<Rightarrow> int \<Rightarrow> group_db \<Rightarrow> group_db" where
  "commentNotices postID commentID replyTo actorID at db =
     (let author = (if replyTo \<noteq> 0
                    then case get_comment db replyTo of None \<Rightarrow> None | Some c \<Rightarrow> c_user c
                    else None)
      in case author of
           None \<Rightarrow> notifyFollowers postID NoteComment commentID actorID [actorID] at db
         | Some u \<Rightarrow> notifyFollowers postID NoteComment commentID actorID [u, actorID] at
                       (notify u NoteReply postID commentID actorID at db))"

section \<open>The moderated item\<close>

record item =
  it_kind :: kind
  it_id :: int
  it_post :: int
  it_author :: int
  it_parent :: int
  it_status :: status
  it_title :: string
  it_body :: string
  it_cleared :: bool

definition loadItem :: "group_db \<Rightarrow> string \<Rightarrow> int \<Rightarrow> go_error + item" where
  "loadItem db k i =
     (case parse_kind k of
        Some Post \<Rightarrow>
          bindE (the_post db i) (\<lambda>p. Inr
            \<lparr>it_kind = Post, it_id = i, it_post = i, it_author = null_int (p_user p), it_parent = 0,
             it_status = p_status p, it_title = p_title p, it_body = p_body p, it_cleared = p_ai_cleared p\<rparr>)
      | Some Comment \<Rightarrow>
          bindE (the_comment db i) (\<lambda>c. Inr
            \<lparr>it_kind = Comment, it_id = i, it_post = c_post c, it_author = null_int (c_user c),
             it_parent = null_int (c_parent c), it_status = c_status c, it_title = [], it_body = c_body c,
             it_cleared = c_ai_cleared c\<rparr>)
      | None \<Rightarrow> Inl (InvalidQuoted ''unknown kind '' k))"

text \<open>\<^verbatim>\<open>UPDATE\<close> of an item in the table \<^verbatim>\<open>it.table()\<close> names.\<close>

definition upd_item :: "kind \<Rightarrow> int \<Rightarrow> (post \<Rightarrow> post) \<Rightarrow> (comment \<Rightarrow> comment) \<Rightarrow> group_db \<Rightarrow> group_db" where
  "upd_item k i fp fc db =
     (case k of
        Post \<Rightarrow> db\<lparr>posts := upd_where (\<lambda>p. p_id p = i) fp (posts db)\<rparr>
      | Comment \<Rightarrow> db\<lparr>comments := upd_where (\<lambda>c. c_id c = i) fc (comments db)\<rparr>)"

definition add_comment_count :: "int \<Rightarrow> int \<Rightarrow> group_db \<Rightarrow> group_db" where
  "add_comment_count delta i db =
     db\<lparr>posts := upd_where (\<lambda>p. p_id p = i) (\<lambda>p. p\<lparr>p_comment_count := p_comment_count p + delta\<rparr>) (posts db)\<rparr>"

definition setFlag :: "item \<Rightarrow> string \<Rightarrow> string \<Rightarrow> string \<Rightarrow> group_db \<Rightarrow> group_db" where
  "setFlag it who category reason =
     upd_item (it_kind it) (it_id it)
       (\<lambda>p. p\<lparr>p_flagged_by := nullIfEmpty who, p_flag_category := nullIfEmpty category, p_flag_reason := nullIfEmpty reason\<rparr>)
       (\<lambda>c. c\<lparr>c_flagged_by := nullIfEmpty who, c_flag_category := nullIfEmpty category, c_flag_reason := nullIfEmpty reason\<rparr>)"

definition ellipsis :: string where "ellipsis = [CHR 0xE2, CHR 0x80, CHR 0xA6]"

definition excerpt :: "item \<Rightarrow> string" where
  "excerpt it =
     (let text = squeeze (TrimSpace (it_title it @ [CHR 0x0A] @ it_body it))
      in if rune_count text > 300 then rune_take 300 text @ ellipsis else text)"

abbreviation MaxExamples :: nat where "MaxExamples \<equiv> 20"

definition modExample :: "item \<Rightarrow> vote \<Rightarrow> int \<Rightarrow> group_db \<Rightarrow> group_db" where
  "modExample it decision at db =
     (if excerpt it = [] then db
      else let t = mod_examples db @
                 [\<lparr>me_id = mod_examples_seq db + 1, me_text = excerpt it, me_decision = decision, me_created = at\<rparr>];
               keep = take (MaxExamples * 2) (rev (sort (map me_id t)))
           in db\<lparr>mod_examples := del_where (\<lambda>r. me_id r \<notin> set keep) t,
                 mod_examples_seq := mod_examples_seq db + 1\<rparr>)"

definition resolveReports :: "item \<Rightarrow> int \<Rightarrow> group_db \<Rightarrow> group_db" where
  "resolveReports it at db =
     db\<lparr>reports := upd_where (\<lambda>r. rp_kind r = it_kind it \<and> rp_item r = it_id it \<and> rp_resolved r = None)
          (\<lambda>r. r\<lparr>rp_resolved := Some at\<rparr>) (reports db)\<rparr>"

definition authorNotice :: "item \<Rightarrow> notice \<Rightarrow> int \<Rightarrow> int \<Rightarrow> group_db \<Rightarrow> group_db" where
  "authorNotice it k who at db =
     (let tell = (case settings_row db of None \<Rightarrow> False | Some s \<Rightarrow> s_notify_hidden s);
          ref = (if it_kind it = Comment then it_id it else 0)
      in if (k = NoteHidden \<or> k = NoteRemoved) \<and> \<not> tell then db
         else notify (it_author it) k (it_post it) ref who at db)"

definition set_status :: "kind \<Rightarrow> int \<Rightarrow> status \<Rightarrow> group_db \<Rightarrow> group_db" where
  "set_status k i to =
     upd_item k i (\<lambda>p. p\<lparr>p_status := to\<rparr>) (\<lambda>c. c\<lparr>c_status := to\<rparr>)"

definition changeStatus :: "int \<Rightarrow> item \<Rightarrow> status \<Rightarrow> int \<Rightarrow> group_db \<Rightarrow> go_error + (int \<times> int) list \<times> group_db" where
  "changeStatus groupID it to at db =
     (let was = it_status it in
      if was = to then Inr ([], db)
      else
        let db1 = set_status (it_kind it) (it_id it) to db;
            db2 = (if shown to
                   then ftsPut (FtsItem (it_kind it)) (it_id it) (it_post it) (it_title it) (it_body it) db1
                   else ftsDel (it_id it) db1);
            db3 = (if it_kind it = Comment \<and> shown was \<noteq> shown to
                   then add_comment_count (if shown to then 1 else -1) (it_post it) db2
                   else db2)
        in bindE (threadChanged groupID (it_post it) at db3) (\<lambda>db4.
           let db5 = (if to = AutoHidden then authorNotice it NoteHidden 0 at db4 else db4) in
           if it_kind it = Post \<and> shown was \<noteq> shown to
           then let refs = sisterRefs db5 (it_id it)
                in Inr (refs, sendSisterNotes groupID (it_id it) refs (shown to) at db5)
           else Inr ([], db5)))"

end
