(* ===== verification/Core.thy ===== *)
theory Core
  imports Items
begin

text \<open>
  What has to stay in step whenever a post or comment changes: a post's stored comment
  count and the comments shown under it, the search index and what is shown, ids, and the
  retention date of what was removed. \<open>core\<close> is the part of a file these concern, and
  \<open>group_ok\<close> the invariant; every helper either leaves \<open>core\<close> alone (collected in
  \<open>frame\<close>) or is covered by a lemma here about a change of status, of text, or of count.
\<close>

section \<open>The part of a file the invariant is about\<close>

record post_core =
  kp_id :: int
  kp_status :: status
  kp_title :: string
  kp_body :: string
  kp_count :: int
  kp_expires :: "int option"
  kp_hold :: bool

record comment_core =
  kc_id :: int
  kc_post :: int
  kc_status :: status
  kc_body :: string
  kc_expires :: "int option"
  kc_hold :: bool

definition post_core :: "post \<Rightarrow> post_core" where
  "post_core p = \<lparr>kp_id = p_id p, kp_status = p_status p, kp_title = p_title p, kp_body = p_body p,
     kp_count = p_comment_count p, kp_expires = p_purge_after p, kp_hold = p_legal_hold p\<rparr>"

definition comment_core :: "comment \<Rightarrow> comment_core" where
  "comment_core c = \<lparr>kc_id = c_id c, kc_post = c_post c, kc_status = c_status c, kc_body = c_body c,
     kc_expires = c_purge_after c, kc_hold = c_legal_hold c\<rparr>"

definition core :: "group_db \<Rightarrow> post_core list \<times> comment_core list \<times> fts_row list" where
  "core db = (map post_core (posts db), map comment_core (comments db), search_fts db)"

text \<open>How many of \<open>cs\<close> are shown under post \<open>i\<close>.\<close>

definition shown_under :: "int \<Rightarrow> comment_core list \<Rightarrow> int" where
  "shown_under i cs = int (length (filter (\<lambda>c. kc_post c = i \<and> shown (kc_status c)) cs))"

definition gone :: "status \<Rightarrow> bool" where
  "gone s \<longleftrightarrow> s = Deleted \<or> s = Removed"

definition row_ok :: "post_core list \<Rightarrow> comment_core list \<Rightarrow> fts_row \<Rightarrow> bool" where
  "row_ok ps cs r \<longleftrightarrow>
     (case f_kind r of
        FtsItem Post \<Rightarrow> f_ref r = f_rowid r \<and> f_post r = f_ref r \<and>
          (\<exists>p \<in> set ps. kp_id p = f_ref r \<and> shown (kp_status p) \<and> f_title r = kp_title p \<and> f_body r = kp_body p)
      | FtsItem Comment \<Rightarrow> f_ref r = f_rowid r \<and>
          (\<exists>c \<in> set cs. kc_id c = f_ref r \<and> shown (kc_status c) \<and> f_post r = kc_post c \<and> f_body r = kc_body c)
      | _ \<Rightarrow> True)"

definition core_ok :: "post_core list \<times> comment_core list \<times> fts_row list \<Rightarrow> bool" where
  "core_ok k \<longleftrightarrow>
     (case k of (ps, cs, ix) \<Rightarrow>
        distinct (map kp_id ps) \<and> distinct (map kc_id cs)
        \<and> (\<forall>p \<in> set ps. kp_count p = shown_under (kp_id p) cs)
        \<and> (\<forall>r \<in> set ix. row_ok ps cs r)
        \<and> (\<forall>p \<in> set ps. (kp_expires p \<noteq> None \<longrightarrow> gone (kp_status p)) \<and> \<not> kp_hold p)
        \<and> (\<forall>c \<in> set cs. (kc_expires c \<noteq> None \<longrightarrow> gone (kc_status c)) \<and> \<not> kc_hold c
              \<and> kc_post c \<in> kp_id ` set ps))"

definition group_ok :: "group_db \<Rightarrow> bool" where
  "group_ok db \<longleftrightarrow> core_ok (core db)"

lemma group_ok_core: "core db' = core db \<Longrightarrow> group_ok db' = group_ok db"
  by (simp add: group_ok_def)

lemma kp_id_core: "kp_id ` set (map post_core ps) = p_id ` set ps"
  by (auto simp: post_core_def image_image)

lemma core_ok_ids: "core_ok (ps, cs, ix) \<Longrightarrow> distinct (map kp_id ps) \<and> distinct (map kc_id cs)"
  and core_ok_count: "core_ok (ps, cs, ix) \<Longrightarrow> p \<in> set ps \<Longrightarrow> kp_count p = shown_under (kp_id p) cs"
  and core_ok_row: "core_ok (ps, cs, ix) \<Longrightarrow> r \<in> set ix \<Longrightarrow> row_ok ps cs r"
  and core_ok_post: "core_ok (ps, cs, ix) \<Longrightarrow> p \<in> set ps \<Longrightarrow>
      (kp_expires p \<noteq> None \<longrightarrow> gone (kp_status p)) \<and> \<not> kp_hold p"
  and core_ok_comment: "core_ok (ps, cs, ix) \<Longrightarrow> c \<in> set cs \<Longrightarrow>
      (kc_expires c \<noteq> None \<longrightarrow> gone (kc_status c)) \<and> \<not> kc_hold c \<and> kc_post c \<in> kp_id ` set ps"
  by (simp_all add: core_ok_def)

lemma core_okI:
  assumes "distinct (map kp_id ps)" "distinct (map kc_id cs)"
    and "\<forall>p \<in> set ps. kp_count p = shown_under (kp_id p) cs"
    and "\<And>r. r \<in> set ix \<Longrightarrow> row_ok ps cs r"
    and "\<forall>p \<in> set ps. (kp_expires p \<noteq> None \<longrightarrow> gone (kp_status p)) \<and> \<not> kp_hold p"
    and "\<forall>c \<in> set cs. (kc_expires c \<noteq> None \<longrightarrow> gone (kc_status c)) \<and> \<not> kc_hold c \<and> kc_post c \<in> kp_id ` set ps"
  shows "core_ok (ps, cs, ix)"
  using assms by (simp add: core_ok_def)

lemma okE_core:
  assumes "group_ok x" "\<And>d. m = Inr d \<Longrightarrow> core d = core x"
  shows "okE group_ok m"
proof (cases m)
  case (Inr d)
  then have "core d = core x" by (rule assms(2))
  then have "group_ok d" using assms(1) by (simp only: group_ok_def)
  with Inr show ?thesis by simp
qed simp

lemma not_gone_shown: "shown s \<Longrightarrow> \<not> gone s"
  by (auto simp: shown_def gone_def)

section \<open>Helpers that leave it alone\<close>

lemma map_core_upd:
  "(\<And>p. post_core (f p) = post_core p) \<Longrightarrow> map post_core (upd_where P f t) = map post_core t"
  by (rule map_upd_where)

lemma core_schedule [frame]: "core (schedule k r v a t db) = core db"
  by (simp add: core_def schedule_def)

lemma core_modLog [frame]: "core (modLog a x y z r t db) = core db"
  by (simp add: core_def modLog_def)

lemma core_send [frame]: "core (send c t db) = core db"
  by (simp add: core_def send_def)

lemma core_notify [frame]: "core (notify u k p r a t db) = core db"
  by (simp add: core_def notify_def)

lemma core_fold: "(\<And>x d. core (f x d) = core d) \<Longrightarrow> core (fold f xs db) = core db"
  by (induction xs arbitrary: db) simp_all

lemma core_notifyFollowers [frame]: "core (notifyFollowers p k r a s t db) = core db"
  unfolding notifyFollowers_def by (rule core_fold) (simp add: core_notify)

lemma core_commentNotices [frame]: "core (commentNotices p c r a t db) = core db"
  by (simp add: commentNotices_def Let_def core_notifyFollowers core_notify split: option.splits)

lemma core_sendSisterNotes [frame]: "core (sendSisterNotes g p r s t db) = core db"
  unfolding sendSisterNotes_def by (rule core_fold) (simp add: core_send)

lemma core_modExample [frame]: "core (modExample it d t db) = core db"
  by (simp add: core_def modExample_def Let_def)

lemma core_resolveReports [frame]: "core (resolveReports it t db) = core db"
  by (simp add: core_def resolveReports_def)

lemma core_authorNotice [frame]: "core (authorNotice it k a t db) = core db"
  by (simp add: authorNotice_def Let_def core_notify)

lemma core_upd_item [frame]:
  assumes "\<And>p. post_core (fp p) = post_core p" "\<And>c. comment_core (fc c) = comment_core c"
  shows "core (upd_item k i fp fc db) = core db"
  using assms by (cases k) (simp_all add: upd_item_def core_def map_upd_where)

lemma core_setFlag [frame]: "core (setFlag it who cat why db) = core db"
  unfolding setFlag_def by (rule core_upd_item) (simp_all add: post_core_def comment_core_def)

lemma core_saveRevision: "saveRevision k i t b e u db = Inr db' \<Longrightarrow> core db' = core db"
  by (auto simp: saveRevision_def Let_def bind_iffs core_def)

lemma core_insertImages: "insertImages p c u im t db = Inr db' \<Longrightarrow> core db' = core db"
  by (auto simp: insertImages_def bind_iffs core_def)

lemma core_thread: "thread_frame db db' \<Longrightarrow> core db' = core db"
  by (simp add: core_def thread_frame_tables thread_frame_posts[where f = post_core] post_core_def)

lemma core_threadChanged: "threadChanged g p t db = Inr db' \<Longrightarrow> core db' = core db"
  by (rule core_thread) (rule threadChanged_frame)

lemma core_postEdited: "postEdited g p t db = Inr db' \<Longrightarrow> core db' = core db"
  by (auto simp: postEdited_def Let_def split: option.splits dest!: core_threadChanged)
    (simp add: core_def schedule_def map_upd_where post_core_def)

lemma core_finishJob: "finishJob j w v cur t db = (ok, db') \<Longrightarrow> core db' = core db"
  by (auto simp: finishJob_def core_def split: prod.splits)

text \<open>The same, of the invariant.\<close>

lemmas ok_frame = core_schedule[THEN group_ok_core] core_modLog[THEN group_ok_core]
  core_send[THEN group_ok_core] core_notify[THEN group_ok_core] core_notifyFollowers[THEN group_ok_core]
  core_commentNotices[THEN group_ok_core] core_sendSisterNotes[THEN group_ok_core]
  core_modExample[THEN group_ok_core] core_resolveReports[THEN group_ok_core]
  core_authorNotice[THEN group_ok_core] core_setFlag[THEN group_ok_core]

lemmas core_results = core_saveRevision core_insertImages core_threadChanged core_postEdited core_finishJob

section \<open>Index rows\<close>

lemma ftsDel_rows: "set (search_fts (ftsDel i db)) = {r \<in> set (search_fts db). f_rowid r \<noteq> i}"
  by (simp add: ftsDel_def)

lemma ftsPut_rows:
  "set (search_fts (ftsPut k i p t b db)) =
     {r \<in> set (search_fts db). f_rowid r \<noteq> i}
     \<union> {\<lparr>f_rowid = i, f_kind = k, f_ref = i, f_post = p, f_title = t, f_body = b\<rparr>}"
  by (auto simp: ftsPut_def)

lemma fts_frame [frame]:
  "posts (ftsPut k i p t b db) = posts db" "comments (ftsPut k i p t b db) = comments db"
  "posts (ftsDel i db) = posts db" "comments (ftsDel i db) = comments db"
  by (simp_all add: ftsPut_def ftsDel_def)

text \<open>The contract of the index, for every client: what a lookup by row id returns after an
  insert or a delete.\<close>

locale search_index =
  fixes put :: "int \<Rightarrow> 'v \<Rightarrow> 'd \<Rightarrow> 'd" and del :: "int \<Rightarrow> 'd \<Rightarrow> 'd"
    and look :: "'d \<Rightarrow> int \<Rightarrow> 'v option"
  assumes look_put: "look (put i v d) j = (if j = i then Some v else look d j)"
    and look_del: "look (del i d) j = (if j = i then None else look d j)"
begin

lemma put_put: "look (put i v (put i u d)) = look (put i v d)"
  by (auto simp: look_put)

lemma del_put: "look (del i (put i v d)) = look (del i d)"
  by (auto simp: look_put look_del)

lemma put_del: "look (put i v (del i d)) = look (put i v d)"
  by (auto simp: look_put look_del)

lemma put_commute: "i \<noteq> j \<Longrightarrow> look (put i v (put j u d)) = look (put j u (put i v d))"
  by (auto simp: look_put)

end

definition fts_look :: "group_db \<Rightarrow> int \<Rightarrow> (fts_kind \<times> int \<times> string \<times> string) option" where
  "fts_look db i =
     map_option (\<lambda>r. (f_kind r, f_post r, f_title r, f_body r)) (find (\<lambda>r. f_rowid r = i) (search_fts db))"

lemma find_del_same: "find P (del_where P t) = None"
  by (simp add: find_None_mem)

lemma find_del_other:
  "j \<noteq> i \<Longrightarrow> find (\<lambda>r. f_rowid r = j) (del_where (\<lambda>r. f_rowid r = i) t) = find (\<lambda>r. f_rowid r = j) t"
  by (induction t) auto

interpretation fts: search_index
  "\<lambda>i v. ftsPut (fst v) i (fst (snd v)) (fst (snd (snd v))) (snd (snd (snd v)))" ftsDel fts_look
proof unfold_locales
  fix i :: int and v :: "fts_kind \<times> int \<times> string \<times> string" and d :: group_db and j :: int
  show "fts_look (ftsPut (fst v) i (fst (snd v)) (fst (snd (snd v))) (snd (snd (snd v))) d) j
      = (if j = i then Some v else fts_look d j)"
    by (cases "j = i") (simp_all add: fts_look_def ftsPut_def find_del_same find_del_other split: option.split)
  show "fts_look (ftsDel i d) j = (if j = i then None else fts_look d j)"
    by (cases "j = i") (simp_all add: fts_look_def ftsDel_def find_del_same find_del_other)
qed

section \<open>One item changes\<close>

lemma get_post_mem: "get_post db i = Some p \<Longrightarrow> p \<in> set (posts db) \<and> p_id p = i"
  by (auto simp: get_post_def dest: find_Some_mem)

lemma get_comment_mem: "get_comment db i = Some c \<Longrightarrow> c \<in> set (comments db) \<and> c_id c = i"
  by (auto simp: get_comment_def dest: find_Some_mem)

lemma core_okD:
  assumes "group_ok db"
  shows "distinct (map p_id (posts db))" "distinct (map c_id (comments db))"
  using assms by (auto simp: group_ok_def core_ok_def core_def o_def post_core_def comment_core_def)

text \<open>Replacing the row of one id in a list of rows with distinct ids.\<close>

lemma upd_where_id_set:
  assumes "distinct (map k t)" "x \<in> set t" "k x = i"
  shows "set (upd_where (\<lambda>y. k y = i) f t) = insert (f x) (set t - {x})"
proof -
  have "(k y = i) = (y = x)" if "y \<in> set t" for y
    using assms that inj_onD[of k "set t" y x] by (auto simp: distinct_map)
  then have "set (upd_where (\<lambda>y. k y = i) f t) = (\<lambda>y. if y = x then f y else y) ` set t"
    unfolding set_upd_where by (intro image_cong) simp_all
  also have "\<dots> = insert (f x) (set t - {x})" using assms(2) by auto
  finally show ?thesis .
qed

lemma upd_where_split:
  assumes "distinct (map k t)" "x \<in> set t" "k x = i"
  shows "\<exists>as bs. t = as @ x # bs \<and> upd_where (\<lambda>y. k y = i) f t = as @ f x # bs"
proof -
  obtain as bs where t: "t = as @ x # bs" using assms(2) by (meson split_list)
  have "upd_where (\<lambda>y. k y = i) f as = as" "upd_where (\<lambda>y. k y = i) f bs = bs"
    using assms t by (auto intro!: upd_where_none) (metis image_eqI)+
  with t assms(3) show ?thesis by auto
qed

lemma shown_under_simps [simp]:
  "shown_under j [] = 0"
  "shown_under j (c # cs) = (if kc_post c = j \<and> shown (kc_status c) then 1 else 0) + shown_under j cs"
  "shown_under j (cs @ ds) = shown_under j cs + shown_under j ds"
  by (simp_all add: shown_under_def)

text \<open>A row of the index about other items stays right when the item \<open>i\<close> changes.\<close>

lemma row_ok_mono:
  assumes "row_ok ps cs r"
    and "\<And>p. p \<in> set ps \<Longrightarrow> f_kind r = FtsItem Post \<Longrightarrow> kp_id p = f_rowid r \<Longrightarrow>
           \<exists>q \<in> set ps'. kp_id q = kp_id p \<and> kp_status q = kp_status p \<and> kp_title q = kp_title p \<and> kp_body q = kp_body p"
    and "\<And>c. c \<in> set cs \<Longrightarrow> f_kind r = FtsItem Comment \<Longrightarrow> kc_id c = f_rowid r \<Longrightarrow> c \<in> set cs'"
  shows "row_ok ps' cs' r"
proof (cases "f_kind r")
  case (FtsItem k)
  show ?thesis
  proof (cases k)
    case Post
    with FtsItem assms(1) obtain p where p: "f_ref r = f_rowid r" "f_post r = f_ref r" "p \<in> set ps" "kp_id p = f_ref r"
      "shown (kp_status p)" "f_title r = kp_title p" "f_body r = kp_body p" by (auto simp: row_ok_def)
    with FtsItem Post assms(2)[of p] obtain q where "q \<in> set ps'" "kp_id q = kp_id p" "kp_status q = kp_status p"
      "kp_title q = kp_title p" "kp_body q = kp_body p" by auto
    with FtsItem Post p show ?thesis by (auto simp: row_ok_def)
  next
    case Comment
    with FtsItem assms(1) obtain c where c: "f_ref r = f_rowid r" "c \<in> set cs" "kc_id c = f_ref r"
      "shown (kc_status c)" "f_post r = kc_post c" "f_body r = kc_body c" by (auto simp: row_ok_def)
    with FtsItem Comment assms(3)[of c] have "c \<in> set cs'" by auto
    with FtsItem Comment c show ?thesis by (auto simp: row_ok_def)
  qed
qed (simp_all add: row_ok_def)

definition post_fts :: "post \<Rightarrow> fts_row" where
  "post_fts p = \<lparr>f_rowid = p_id p, f_kind = FtsItem Post, f_ref = p_id p, f_post = p_id p,
     f_title = p_title p, f_body = p_body p\<rparr>"

definition comment_fts :: "comment \<Rightarrow> fts_row" where
  "comment_fts c = \<lparr>f_rowid = c_id c, f_kind = FtsItem Comment, f_ref = c_id c, f_post = c_post c,
     f_title = [], f_body = c_body c\<rparr>"

lemma post_change_ok:
  assumes ok: "group_ok db" and p: "get_post db i = Some p"
    and ps: "posts db' = upd_where (\<lambda>r. p_id r = i) f (posts db)" and cs: "comments db' = comments db"
    and ix: "\<And>r. r \<in> set (search_fts db') \<Longrightarrow>
          r \<in> set (search_fts db) \<and> (f_kind r = FtsItem Post \<longrightarrow> f_rowid r \<noteq> i)
          \<or> shown (p_status (f p)) \<and> r = post_fts (f p)"
    and f: "p_id (f p) = i" "p_comment_count (f p) = p_comment_count p" "\<not> p_legal_hold (f p)"
      "p_purge_after (f p) \<noteq> None \<Longrightarrow> gone (p_status (f p))"
  shows "group_ok db'"
proof -
  have pm: "p \<in> set (posts db)" "p_id p = i" using get_post_mem[OF p] by auto
  obtain as bs where t: "posts db = as @ p # bs" "posts db' = as @ f p # bs"
    using upd_where_split[OF core_okD(1)[OF ok] pm] ps by metis
  let ?ps = "map post_core (posts db)" and ?cs = "map comment_core (comments db)"
  let ?ps' = "map post_core (posts db')"
  have okc: "core_ok (?ps, ?cs, search_fts db)" using ok by (simp add: group_ok_def core_def)
  have ids: "map kp_id ?ps' = map kp_id ?ps" using t pm f(1) by (simp add: post_core_def)
  have rows: "row_ok ?ps' ?cs r" if r: "r \<in> set (search_fts db')" for r
    using ix[OF r]
  proof
    assume a: "r \<in> set (search_fts db) \<and> (f_kind r = FtsItem Post \<longrightarrow> f_rowid r \<noteq> i)"
    then have "row_ok ?ps ?cs r" using okc by (auto simp: core_ok_def)
    then show ?thesis
    proof (rule row_ok_mono)
      fix x assume "x \<in> set ?ps" "f_kind r = FtsItem Post" "kp_id x = f_rowid r"
      with a t pm show "\<exists>q \<in> set ?ps'. kp_id q = kp_id x \<and> kp_status q = kp_status x \<and> kp_title q = kp_title x \<and> kp_body q = kp_body x"
        by (auto simp: post_core_def)
    qed
  next
    assume "shown (p_status (f p)) \<and> r = post_fts (f p)"
    with t f(1) show ?thesis by (auto simp: row_ok_def post_fts_def post_core_def)
  qed
  have "core_ok (?ps', ?cs, search_fts db')"
    using okc ids rows t f pm
    by (auto simp: core_ok_def post_core_def image_iff) (metis+)?
  then show ?thesis by (simp add: group_ok_def core_def cs)
qed

lemma comment_change_ok:
  assumes ok: "group_ok db" and c: "get_comment db i = Some c"
    and cs: "comments db' = upd_where (\<lambda>r. c_id r = i) g (comments db)"
    and ps: "map post_core (posts db') = map (\<lambda>q. if kp_id q = c_post c then q\<lparr>kp_count := kp_count q + delta\<rparr> else q)
               (map post_core (posts db))"
    and delta: "delta = (if shown (c_status (g c)) then 1 else 0) - (if shown (c_status c) then 1 else 0)"
    and ix: "\<And>r. r \<in> set (search_fts db') \<Longrightarrow>
          r \<in> set (search_fts db) \<and> (f_kind r = FtsItem Comment \<longrightarrow> f_rowid r \<noteq> i)
          \<or> shown (c_status (g c)) \<and> r = comment_fts (g c)"
    and g: "c_id (g c) = i" "c_post (g c) = c_post c" "\<not> c_legal_hold (g c)"
      "c_purge_after (g c) \<noteq> None \<Longrightarrow> gone (c_status (g c))"
  shows "group_ok db'"
proof -
  have cm: "c \<in> set (comments db)" "c_id c = i" using get_comment_mem[OF c] by auto
  obtain as bs where t: "comments db = as @ c # bs" "comments db' = as @ g c # bs"
    using upd_where_split[OF core_okD(2)[OF ok] cm] cs by metis
  let ?ps = "map post_core (posts db)" and ?cs = "map comment_core (comments db)"
  let ?ps' = "map post_core (posts db')" and ?cs' = "map comment_core (comments db')"
  define h where "h = (\<lambda>q :: post_core. if kp_id q = c_post c then q\<lparr>kp_count := kp_count q + delta\<rparr> else q)"
  have ps': "?ps' = map h ?ps" using ps by (simp add: h_def)
  have h: "kp_id (h q) = kp_id q" "kp_status (h q) = kp_status q" "kp_title (h q) = kp_title q"
    "kp_body (h q) = kp_body q" "kp_expires (h q) = kp_expires q" "kp_hold (h q) = kp_hold q"
    "kp_count (h q) = kp_count q + (if kp_id q = c_post c then delta else 0)" for q
    by (simp_all add: h_def)
  have okc: "core_ok (?ps, ?cs, search_fts db)" using ok by (simp add: group_ok_def core_def)
  have ids: "map kp_id ?ps' = map kp_id ?ps" unfolding ps' by (simp add: h o_def)
  have cids: "map kc_id ?cs' = map kc_id ?cs" using t cm g(1) by (simp add: comment_core_def)
  have under: "shown_under j ?cs' = shown_under j ?cs + (if j = c_post c then delta else 0)" for j
    using t g(2) delta by (simp add: comment_core_def)
  have rows: "row_ok ?ps' ?cs' r" if r: "r \<in> set (search_fts db')" for r
    using ix[OF r]
  proof
    assume a: "r \<in> set (search_fts db) \<and> (f_kind r = FtsItem Comment \<longrightarrow> f_rowid r \<noteq> i)"
    then have "row_ok ?ps ?cs r" using okc by (auto simp: core_ok_def)
    then show ?thesis
    proof (rule row_ok_mono)
      fix x assume x: "x \<in> set ?ps"
      show "\<exists>q \<in> set ?ps'. kp_id q = kp_id x \<and> kp_status q = kp_status x \<and> kp_title q = kp_title x \<and> kp_body q = kp_body x"
        by (rule bexI[where x = "h x"]) (simp add: h, unfold ps', simp only: set_map imageI[OF x[unfolded set_map]])
    next
      fix x assume "x \<in> set ?cs" "f_kind r = FtsItem Comment" "kc_id x = f_rowid r"
      with a t cm show "x \<in> set ?cs'" by (auto simp: comment_core_def)
    qed
  next
    assume "shown (c_status (g c)) \<and> r = comment_fts (g c)"
    with t g(1) show ?thesis by (auto simp: row_ok_def comment_fts_def comment_core_def)
  qed
  have counts: "\<forall>p \<in> set ?ps'. kp_count p = shown_under (kp_id p) ?cs'"
    using okc unfolding ps' by (auto simp: core_ok_def h under)
  have posts_ok: "\<forall>p \<in> set ?ps'. (kp_expires p \<noteq> None \<longrightarrow> gone (kp_status p)) \<and> \<not> kp_hold p"
    using okc unfolding ps' by (auto simp: core_ok_def h)
  have pids: "kp_id ` set ?ps' = kp_id ` set ?ps" using ids by (metis list.set_map)
  have comments_ok: "\<forall>x \<in> set ?cs'. (kc_expires x \<noteq> None \<longrightarrow> gone (kc_status x)) \<and> \<not> kc_hold x \<and> kc_post x \<in> kp_id ` set ?ps'"
  proof
    fix x assume "x \<in> set ?cs'"
    then consider "x \<in> set ?cs" | "x = comment_core (g c)" using t by auto
    then show "(kc_expires x \<noteq> None \<longrightarrow> gone (kc_status x)) \<and> \<not> kc_hold x \<and> kc_post x \<in> kp_id ` set ?ps'"
    proof cases
      case 1
      with core_ok_comment[OF okc 1] show ?thesis unfolding pids by blast
    next
      case 2
      have "comment_core c \<in> set ?cs" using cm by simp
      with core_ok_comment[OF okc] have "kc_post (comment_core c) \<in> kp_id ` set ?ps" by blast
      then have "c_post (g c) \<in> kp_id ` set ?ps" using g(2) by (simp add: comment_core_def)
      with 2 g(3,4) show ?thesis unfolding pids by (simp add: comment_core_def)
    qed
  qed
  have "core_ok (?ps', ?cs', search_fts db')"
    by (rule core_okI[OF _ _ counts rows posts_ok comments_ok])
      (simp_all only: ids cids core_ok_ids[OF okc])
  then show ?thesis by (simp add: group_ok_def core_def)
qed

lemma core_insert_post:
  assumes ok: "core_ok (ps, cs, ix)" and new: "kp_id q \<notin> kp_id ` set ps"
    and q: "kp_count q = 0" "\<not> kp_hold q" "kp_expires q = None"
    and ix: "\<And>r. r \<in> set ix' \<Longrightarrow> r \<in> set ix \<or> row_ok (ps @ [q]) cs r"
  shows "core_ok (ps @ [q], cs, ix')"
proof -
  have "\<forall>x \<in> set cs. kc_post x \<noteq> kp_id q" 
  proof
    fix x assume "x \<in> set cs"
    then have "kc_post x \<in> kp_id ` set ps" using core_ok_comment[OF ok] by blast
    with new show "kc_post x \<noteq> kp_id q" by (cases "kc_post x = kp_id q") simp_all
  qed
  then have "shown_under (kp_id q) cs = 0" by (simp add: shown_under_def filter_empty_conv)
  moreover have "row_ok (ps @ [q]) cs r" if "r \<in> set ix'" for r
    using ix[OF that]
  proof
    assume "r \<in> set ix"
    then have "row_ok ps cs r" using ok by (auto simp: core_ok_def)
    then show ?thesis by (auto simp: row_ok_def split: fts_kind.splits kind.splits)
  qed
  ultimately show ?thesis using ok new q by (auto simp: core_ok_def)
qed

text \<open>A new post has nothing under it; a new comment adds one to its post.\<close>

lemma post_insert_ok:
  assumes ok: "group_ok db" and new: "\<not> has_key p_id (p_id p) (posts db)"
    and ps: "posts db' = posts db @ [p]" and cs: "comments db' = comments db"
    and ix: "\<And>r. r \<in> set (search_fts db') \<Longrightarrow>
          r \<in> set (search_fts db) \<or> shown (p_status p) \<and> r = post_fts p"
    and p: "p_comment_count p = 0" "\<not> p_legal_hold p" "p_purge_after p = None"
  shows "group_ok db'"
proof -
  have "core_ok (map post_core (posts db) @ [post_core p], map comment_core (comments db), search_fts db')"
  proof (rule core_insert_post)
    show "core_ok (map post_core (posts db), map comment_core (comments db), search_fts db)"
      using ok by (simp add: group_ok_def core_def)
    show "kp_id (post_core p) \<notin> kp_id ` set (map post_core (posts db))"
      using new by (auto simp: has_key_iff post_core_def)
    fix r assume "r \<in> set (search_fts db')"
    with ix[of r] show "r \<in> set (search_fts db) \<or>
        row_ok (map post_core (posts db) @ [post_core p]) (map comment_core (comments db)) r"
      by (auto simp: row_ok_def post_fts_def post_core_def)
  qed (use p in \<open>simp_all add: post_core_def\<close>)
  then show ?thesis by (simp add: group_ok_def core_def ps cs)
qed

lemma comment_insert_ok:
  assumes ok: "group_ok db" and new: "\<not> has_key c_id (c_id c) (comments db)"
    and post: "has_key p_id (c_post c) (posts db)"
    and cs: "comments db' = comments db @ [c]"
    and ps: "map post_core (posts db') = map (\<lambda>q. if kp_id q = c_post c then q\<lparr>kp_count := kp_count q + 1\<rparr> else q)
               (map post_core (posts db))"
    and ix: "\<And>r. r \<in> set (search_fts db') \<Longrightarrow> r \<in> set (search_fts db) \<or> r = comment_fts c"
    and c: "shown (c_status c)" "\<not> c_legal_hold c" "c_purge_after c = None"
  shows "group_ok db'"
proof -
  let ?ps = "map post_core (posts db)" and ?cs = "map comment_core (comments db)"
  let ?ps' = "map post_core (posts db')" and ?cs' = "?cs @ [comment_core c]"
  define h where "h = (\<lambda>q :: post_core. if kp_id q = c_post c then q\<lparr>kp_count := kp_count q + 1\<rparr> else q)"
  have ps': "?ps' = map h ?ps" using ps by (simp add: h_def)
  have h: "kp_id (h q) = kp_id q" "kp_status (h q) = kp_status q" "kp_title (h q) = kp_title q"
    "kp_body (h q) = kp_body q" "kp_expires (h q) = kp_expires q" "kp_hold (h q) = kp_hold q"
    "kp_count (h q) = kp_count q + (if kp_id q = c_post c then 1 else 0)" for q
    by (simp_all add: h_def)
  have okc: "core_ok (?ps, ?cs, search_fts db)" using ok by (simp add: group_ok_def core_def)
  have ids: "map kp_id ?ps' = map kp_id ?ps" unfolding ps' by (simp add: h o_def)
  then have pids: "kp_id ` set ?ps' = kp_id ` set ?ps" by (metis list.set_map)
  have rows: "row_ok ?ps' ?cs' r" if r: "r \<in> set (search_fts db')" for r
    using ix[OF r]
  proof
    assume "r \<in> set (search_fts db)"
    then have "row_ok ?ps ?cs r" using okc by (auto simp: core_ok_def)
    then show ?thesis
    proof (rule row_ok_mono)
      fix x assume x: "x \<in> set ?ps"
      show "\<exists>q \<in> set ?ps'. kp_id q = kp_id x \<and> kp_status q = kp_status x \<and> kp_title q = kp_title x \<and> kp_body q = kp_body x"
        by (rule bexI[where x = "h x"]) (simp add: h, unfold ps', simp only: set_map imageI[OF x[unfolded set_map]])
    qed simp
  next
    assume "r = comment_fts c"
    with c show ?thesis by (auto simp: row_ok_def comment_fts_def comment_core_def)
  qed
  have counts: "\<forall>p \<in> set ?ps'. kp_count p = shown_under (kp_id p) ?cs'"
    using okc c unfolding ps' by (auto simp: core_ok_def h comment_core_def)
  have posts_ok: "\<forall>p \<in> set ?ps'. (kp_expires p \<noteq> None \<longrightarrow> gone (kp_status p)) \<and> \<not> kp_hold p"
    using okc unfolding ps' by (auto simp: core_ok_def h)
  have "c_post c \<in> kp_id ` set ?ps"
    unfolding kp_id_core using post by (simp add: has_key_iff)
  then have comments_ok: "\<forall>x \<in> set ?cs'. (kc_expires x \<noteq> None \<longrightarrow> gone (kc_status x)) \<and> \<not> kc_hold x \<and> kc_post x \<in> kp_id ` set ?ps'"
    using c core_ok_comment[OF okc] unfolding pids by (auto simp: comment_core_def simp del: set_map)
  have cids: "distinct (map kc_id ?cs')"
    using okc new by (auto simp: core_ok_def has_key_iff comment_core_def)
  have "core_ok (?ps', ?cs', search_fts db')"
    by (rule core_okI[OF _ cids counts rows posts_ok comments_ok])
      (simp_all only: ids core_ok_ids[OF okc])
  then show ?thesis by (simp add: group_ok_def core_def cs)
qed

section \<open>The core after a change depends on the core before it\<close>

lemma core_ftsPut_cong: "core a = core b \<Longrightarrow> core (ftsPut k i p t u a) = core (ftsPut k i p t u b)"
  by (simp add: core_def ftsPut_def)

lemma core_ftsDel_cong: "core a = core b \<Longrightarrow> core (ftsDel i a) = core (ftsDel i b)"
  by (simp add: core_def ftsDel_def)

definition bump :: "int \<Rightarrow> int \<Rightarrow> post_core \<Rightarrow> post_core" where
  "bump i d q = (if kp_id q = i then q\<lparr>kp_count := kp_count q + d\<rparr> else q)"

lemma add_count_posts:
  "map post_core (posts (add_comment_count d i db)) = map (bump i d) (map post_core (posts db))"
  by (induction "posts db" arbitrary: db) (simp_all add: add_comment_count_def upd_where_def bump_def post_core_def)

lemma add_count_frame [frame]:
  "comments (add_comment_count d i db) = comments db"
  "search_fts (add_comment_count d i db) = search_fts db"
  by (simp_all add: add_comment_count_def)

lemma core_add_count: "core (add_comment_count d i db) =
    (map (bump i d) (map post_core (posts db)), map comment_core (comments db), search_fts db)"
  using add_count_posts[of d i db] by (simp add: core_def add_count_frame)

lemma core_add_count_cong: "core a = core b \<Longrightarrow> core (add_comment_count d i a) = core (add_comment_count d i b)"
  unfolding core_add_count by (simp add: core_def)

lemma bump_0: "map (bump i 0) ps = ps"
  by (induction ps) (simp_all add: bump_def)

lemma core_add_0: "core (add_comment_count 0 i db) = core db"
  unfolding core_add_count bump_0 by (simp add: core_def)

section \<open>Changing an item's status\<close>

text \<open>\<open>it\<close> is an item of a file with this core.\<close>

definition item_in :: "item \<Rightarrow> group_db \<Rightarrow> bool" where
  "item_in it db \<longleftrightarrow>
     (case it_kind it of
        Post \<Rightarrow> it_post it = it_id it \<and>
          (\<exists>p \<in> set (map post_core (posts db)). kp_id p = it_id it \<and> kp_status p = it_status it
             \<and> kp_title p = it_title it \<and> kp_body p = it_body it)
      | Comment \<Rightarrow> it_title it = [] \<and>
          (\<exists>c \<in> set (map comment_core (comments db)). kc_id c = it_id it \<and> kc_post c = it_post it
             \<and> kc_status c = it_status it \<and> kc_body c = it_body it))"

lemma item_in_core: "core a = core b \<Longrightarrow> item_in it a = item_in it b"
  unfolding core_def prod.inject item_in_def by (elim conjE) (simp only:)

lemma loadItem_in: "loadItem db k i = Inr it \<Longrightarrow> item_in it db \<and> it_id it = i \<and> kind_str (it_kind it) = k"
  by (auto simp: loadItem_def item_in_def bind_iffs the_post_Inr the_comment_Inr parse_kind_Some
      post_core_def comment_core_def kind_str_def dest!: get_post_mem get_comment_mem split: option.splits kind.splits)

lemma find_id: "distinct (map k t) \<Longrightarrow> x \<in> set t \<Longrightarrow> find (\<lambda>y. k y = k x) t = Some x"
  by (induction t) (auto simp: image_iff)

lemma item_in_post:
  assumes "group_ok db" "item_in it db" "it_kind it = Post"
  obtains p where "get_post db (it_id it) = Some p" "p_status p = it_status it" "p_title p = it_title it"
    "p_body p = it_body it" "it_post it = it_id it"
proof -
  obtain p where p: "p \<in> set (posts db)" "p_id p = it_id it" "p_status p = it_status it" "p_title p = it_title it"
    "p_body p = it_body it" and "it_post it = it_id it"
    using assms(2,3) by (auto simp: item_in_def post_core_def)
  moreover have "get_post db (it_id it) = Some p"
    using find_id[OF core_okD(1)[OF assms(1)] p(1)] p(2) by (simp add: get_post_def)
  ultimately show thesis using that by blast
qed

lemma item_in_comment:
  assumes "group_ok db" "item_in it db" "it_kind it = Comment"
  obtains c where "get_comment db (it_id it) = Some c" "c_status c = it_status it" "c_post c = it_post it"
    "c_body c = it_body it" "it_title it = []"
proof -
  obtain c where c: "c \<in> set (comments db)" "c_id c = it_id it" "c_status c = it_status it" "c_post c = it_post it"
    "c_body c = it_body it" and "it_title it = []"
    using assms(2,3) by (auto simp: item_in_def comment_core_def)
  moreover have "get_comment db (it_id it) = Some c"
    using find_id[OF core_okD(2)[OF assms(1)] c(1)] c(2) by (simp add: get_comment_def)
  ultimately show thesis using that by blast
qed

text \<open>Rows are never on hold, and expire only when gone.\<close>

lemma group_ok_post_row:
  assumes "group_ok db" "get_post db i = Some p"
  shows "\<not> p_legal_hold p" "p_purge_after p \<noteq> None \<Longrightarrow> gone (p_status p)"
proof -
  have "core_ok (map post_core (posts db), map comment_core (comments db), search_fts db)"
    using assms(1) by (simp add: group_ok_def core_def)
  from core_ok_post[OF this, of "post_core p"] get_post_mem[OF assms(2)]
  show "\<not> p_legal_hold p" "p_purge_after p \<noteq> None \<Longrightarrow> gone (p_status p)"
    by (auto simp: post_core_def)
qed

lemma group_ok_comment_row:
  assumes "group_ok db" "get_comment db i = Some c"
  shows "\<not> c_legal_hold c" "c_purge_after c \<noteq> None \<Longrightarrow> gone (c_status c)"
    "has_key p_id (c_post c) (posts db)"
proof -
  have "core_ok (map post_core (posts db), map comment_core (comments db), search_fts db)"
    using assms(1) by (simp add: group_ok_def core_def)
  from core_ok_comment[OF this, of "comment_core c"] get_comment_mem[OF assms(2)]
  show "\<not> c_legal_hold c" "c_purge_after c \<noteq> None \<Longrightarrow> gone (c_status c)" "has_key p_id (c_post c) (posts db)"
    by (auto simp: comment_core_def post_core_def has_key_iff)
qed

text \<open>What is not shown is not in the index.\<close>

lemma hidden_not_indexed:
  assumes "group_ok db" "get_post db i = Some p" "\<not> shown (p_status p)" "r \<in> set (search_fts db)" "f_kind r = FtsItem Post"
  shows "f_rowid r \<noteq> i"
proof
  assume i: "f_rowid r = i"
  have "core_ok (map post_core (posts db), map comment_core (comments db), search_fts db)"
    using assms(1) by (simp add: group_ok_def core_def)
  from core_ok_row[OF this assms(4)] obtain q where q: "q \<in> set (posts db)" "p_id q = i" "shown (p_status q)"
    using assms(5) i by (auto simp: row_ok_def post_core_def)
  have "get_post db i = Some q"
    using find_id[OF core_okD(1)[OF assms(1)] q(1)] q(2) by (simp add: get_post_def)
  with assms(2,3) q(3) show False by simp
qed

lemma hidden_comment_not_indexed:
  assumes "group_ok db" "get_comment db i = Some c" "\<not> shown (c_status c)" "r \<in> set (search_fts db)" "f_kind r = FtsItem Comment"
  shows "f_rowid r \<noteq> i"
proof
  assume i: "f_rowid r = i"
  have "core_ok (map post_core (posts db), map comment_core (comments db), search_fts db)"
    using assms(1) by (simp add: group_ok_def core_def)
  from core_ok_row[OF this assms(4)] obtain q where q: "q \<in> set (comments db)" "c_id q = i" "shown (c_status q)"
    using assms(5) i by (auto simp: row_ok_def comment_core_def)
  have "get_comment db i = Some q"
    using find_id[OF core_okD(2)[OF assms(1)] q(1)] q(2) by (simp add: get_comment_def)
  with assms(2,3) q(3) show False by simp
qed

text \<open>
  The step every change of status takes: the row's status (and whatever else the command
  writes with it), the index row put or dropped, the comment count moved.
\<close>

lemma post_status_step:
  assumes "group_ok db" "get_post db i = Some p" "p_id (f p) = i" "p_title (f p) = p_title p" "p_body (f p) = p_body p"
    "p_comment_count (f p) = p_comment_count p" "p_legal_hold (f p) = p_legal_hold p"
    "p_purge_after (f p) \<noteq> None \<Longrightarrow> gone (p_status (f p))"
  shows "shown (p_status (f p)) \<Longrightarrow> group_ok (ftsPut (FtsItem Post) i i (p_title p) (p_body p) (upd_item Post i f g db))"
    and "\<not> shown (p_status (f p)) \<Longrightarrow> group_ok (ftsDel i (upd_item Post i f g db))"
proof -
  show "group_ok (ftsPut (FtsItem Post) i i (p_title p) (p_body p) (upd_item Post i f g db))"
    if s: "shown (p_status (f p))"
    by (rule post_change_ok[OF assms(1,2), where f = f])
      (use assms(3-8) s group_ok_post_row[OF assms(1,2)] in \<open>auto simp: upd_item_def ftsPut_def post_fts_def\<close>)
  show "group_ok (ftsDel i (upd_item Post i f g db))" if s: "\<not> shown (p_status (f p))"
    by (rule post_change_ok[OF assms(1,2), where f = f])
      (use assms(3-8) s group_ok_post_row[OF assms(1,2)] in \<open>auto simp: upd_item_def ftsDel_def\<close>)
qed

definition shown_delta :: "status \<Rightarrow> status \<Rightarrow> int" where
  "shown_delta was to = (if shown to then 1 else 0) - (if shown was then 1 else 0)"

lemma comment_status_step:
  assumes "group_ok db" "get_comment db i = Some c" "c_id (g c) = i" "c_post (g c) = c_post c" "c_body (g c) = c_body c"
    "c_legal_hold (g c) = c_legal_hold c" "c_purge_after (g c) \<noteq> None \<Longrightarrow> gone (c_status (g c))"
    and d: "d = shown_delta (c_status c) (c_status (g c))"
  shows "shown (c_status (g c)) \<Longrightarrow>
      group_ok (add_comment_count d (c_post c)
        (ftsPut (FtsItem Comment) i (c_post c) [] (c_body c) (upd_item Comment i f g db)))"
    and "\<not> shown (c_status (g c)) \<Longrightarrow>
      group_ok (add_comment_count d (c_post c) (ftsDel i (upd_item Comment i f g db)))"
proof -
  have ps: "map post_core (posts (add_comment_count d (c_post c) db')) =
      map (\<lambda>q. if kp_id q = c_post c then q\<lparr>kp_count := kp_count q + d\<rparr> else q) (map post_core (posts db))"
    if "posts db' = posts db" for db'
    unfolding add_count_posts that by (simp add: bump_def)
  show "group_ok (add_comment_count d (c_post c)
        (ftsPut (FtsItem Comment) i (c_post c) [] (c_body c) (upd_item Comment i f g db)))"
    if s: "shown (c_status (g c))"
  proof (rule comment_change_ok[OF assms(1,2), where g = g and delta = d])
    show "map post_core (posts (add_comment_count d (c_post c) (ftsPut (FtsItem Comment) i (c_post c) [] (c_body c) (upd_item Comment i f g db)))) =
        map (\<lambda>q. if kp_id q = c_post c then q\<lparr>kp_count := kp_count q + d\<rparr> else q) (map post_core (posts db))"
      by (rule ps) (simp add: upd_item_def frame)
    show "d = (if shown (c_status (g c)) then 1 else 0) - (if shown (c_status c) then 1 else 0)"
      using d by (simp add: shown_delta_def)
  qed (use assms(3-7) s group_ok_comment_row[OF assms(1,2)] in
        \<open>auto simp: upd_item_def ftsPut_def comment_fts_def add_count_frame\<close>)
  show "group_ok (add_comment_count d (c_post c) (ftsDel i (upd_item Comment i f g db)))"
    if s: "\<not> shown (c_status (g c))"
  proof (rule comment_change_ok[OF assms(1,2), where g = g and delta = d])
    show "map post_core (posts (add_comment_count d (c_post c) (ftsDel i (upd_item Comment i f g db)))) =
        map (\<lambda>q. if kp_id q = c_post c then q\<lparr>kp_count := kp_count q + d\<rparr> else q) (map post_core (posts db))"
      by (rule ps) (simp add: upd_item_def frame)
    show "d = (if shown (c_status (g c)) then 1 else 0) - (if shown (c_status c) then 1 else 0)"
      using d by (simp add: shown_delta_def)
  qed (use assms(3-7) s group_ok_comment_row[OF assms(1,2)] in
        \<open>auto simp: upd_item_def ftsDel_def add_count_frame\<close>)
qed

lemma changeStatus_ok:
  assumes ok: "group_ok db" and it: "item_in it db" and g: "\<not> gone (it_status it)"
    and run: "changeStatus groupID it to at db = Inr (refs, db')"
  shows "group_ok db'"
proof (cases "it_status it = to")
  case True
  with run ok show ?thesis by (simp add: changeStatus_def)
next
  case False
  let ?fp = "\<lambda>p. p\<lparr>p_status := to\<rparr>" and ?fc = "\<lambda>c. c\<lparr>c_status := to\<rparr>"
  define db1 where "db1 = upd_item (it_kind it) (it_id it) ?fp ?fc db"
  define db2 where "db2 = (if shown to
      then ftsPut (FtsItem (it_kind it)) (it_id it) (it_post it) (it_title it) (it_body it) db1 else ftsDel (it_id it) db1)"
  define db3 where "db3 = (if it_kind it = Comment \<and> shown (it_status it) \<noteq> shown to
      then add_comment_count (if shown to then 1 else -1) (it_post it) db2 else db2)"
  have eq: "changeStatus groupID it to at db =
      bindE (threadChanged groupID (it_post it) at db3) (\<lambda>db4.
        let db5 = (if to = AutoHidden then authorNotice it NoteHidden 0 at db4 else db4) in
        if it_kind it = Post \<and> shown (it_status it) \<noteq> shown to
        then let refs = sisterRefs db5 (it_id it)
             in Inr (refs, sendSisterNotes groupID (it_id it) refs (shown to) at db5)
        else Inr ([], db5))"
    using False by (simp only: changeStatus_def Let_def set_status_def db3_def db2_def db1_def if_False)
  from run[unfolded eq] obtain db4 where "threadChanged groupID (it_post it) at db3 = Inr db4" "core db' = core db4"
    by (auto simp: bind_iffs Let_def frame split: if_splits)
  then have "core db' = core db3" by (simp add: core_threadChanged)
  moreover have "group_ok db3"
  proof (cases "it_kind it")
    case Post
    then obtain p where p: "get_post db (it_id it) = Some p" "p_status p = it_status it" "p_title p = it_title it"
      "p_body p = it_body it" "it_post it = it_id it" using item_in_post[OF ok it] by blast
    have row: "p_purge_after p = None" using group_ok_post_row[OF ok p(1)] p(2) g by (cases "p_purge_after p") auto
    have "p_id p = it_id it" using get_post_mem[OF p(1)] by simp
    with Post p row show ?thesis
      using post_status_step[OF ok p(1), where f = ?fp and g = ?fc]
      by (simp add: db3_def db2_def db1_def)
  next
    case Comment
    then obtain c where c: "get_comment db (it_id it) = Some c" "c_status c = it_status it" "c_post c = it_post it"
      "c_body c = it_body it" "it_title it = []" using item_in_comment[OF ok it] by blast
    have row: "c_purge_after c = None" using group_ok_comment_row[OF ok c(1)] c(2) g by (cases "c_purge_after c") auto
    have "c_id c = it_id it" using get_comment_mem[OF c(1)] by simp
    with c row have step: "group_ok (add_comment_count (shown_delta (it_status it) to) (it_post it) db2)"
      using comment_status_step[OF ok c(1), where g = ?fc and f = ?fp and d = "shown_delta (it_status it) to"]
      by (simp add: db2_def db1_def Comment)
    have "core db3 = core (add_comment_count (shown_delta (it_status it) to) (it_post it) db2)"
      using Comment by (auto simp: db3_def shown_delta_def core_add_0)
    with step show ?thesis using group_ok_core by blast
  qed
  ultimately show ?thesis using group_ok_core by blast
qed

end
