(* ===== verification/Posts.thy ===== *)
theory Posts
  imports Core
begin

text \<open>
  Posts and comments: the commands of \<^verbatim>\<open>internal/cmd/posts.go\<close>, each a record of its
  fields and the plan its \<^verbatim>\<open>Apply\<close> makes, and that each keeps \<open>group_ok\<close>.
\<close>

section \<open>Limits\<close>

abbreviation AuthorDeleteKeep :: int where "AuthorDeleteKeep \<equiv> 30 * day"
abbreviation ModRemoveKeep :: int where "ModRemoveKeep \<equiv> 90 * day"
abbreviation MaxImagesPerPost :: nat where "MaxImagesPerPost \<equiv> 10"
abbreviation MaxTitleLen :: nat where "MaxTitleLen \<equiv> 300"
abbreviation MaxBodyLen :: nat where "MaxBodyLen \<equiv> 40000"
abbreviation MaxCommentLen :: nat where "MaxCommentLen \<equiv> 10000"

section \<open>Commands\<close>

record CreatePost =
  cp_GroupID :: int
  cp_PostID :: int
  cp_UserID :: int
  cp_Title :: string
  cp_Body :: string
  cp_Anonymous :: bool
  cp_Images :: "Image list"
  cp_At :: int

definition follow_key :: "follow \<Rightarrow> int \<times> int" where
  "follow_key f = (fo_user f, fo_post f)"

definition add_follow :: "int \<Rightarrow> int \<Rightarrow> int \<Rightarrow> group_db \<Rightarrow> group_db" where
  "add_follow u p at db =
     db\<lparr>follows := ins_ignore follow_key \<lparr>fo_user = u, fo_post = p, fo_created = at\<rparr> (follows db)\<rparr>"

definition apply_CreatePost :: "CreatePost \<Rightarrow> group_db plan" where
  "apply_CreatePost c =
     (if cp_Title c = [] \<or> length (cp_Title c) > MaxTitleLen \<or> length (cp_Body c) > MaxBodyLen
         \<or> length (cp_Images c) > MaxImagesPerPost
      then Refuse (Invalid ''a post needs a title (up to 300 characters), text up to 40000, and at most 10 photos'')
      else nilTx (\<lambda>db.
        bindE (requireMember db (cp_UserID c)) (\<lambda>_.
        bindE (firstPostStatus db (cp_UserID c)) (\<lambda>status.
        bindE (anonymousAllowed db (cp_Anonymous c)) (\<lambda>_.
        bindE (ins_new p_id
                 ((new_post (cp_PostID c) (Some (cp_UserID c)) (cp_Title c) (cp_Body c) (cp_At c) (cp_At c))
                    \<lparr>p_anonymous := cp_Anonymous c, p_status := status\<rparr>) (posts db)) (\<lambda>t.
        bindE (insertImages (cp_PostID c) None (Some (cp_UserID c)) (cp_Images c) (cp_At c) (db\<lparr>posts := t\<rparr>)) (\<lambda>db1.
        let db2 = add_follow (cp_UserID c) (cp_PostID c) (cp_At c) db1;
            db3 = schedule JobCheck (cp_PostID c) 1 (cp_At c) (cp_At c) db2;
            db4 = schedule JobDigest (cp_PostID c) 1 (cp_At c + QuietPeriod) (cp_At c) db3
        in if status \<noteq> Visible then Inr db4
           else Inr (ftsPut (FtsItem Post) (cp_PostID c) (cp_PostID c) (cp_Title c) (cp_Body c) db4))))))))"

record EditPost =
  ep_GroupID :: int
  ep_PostID :: int
  ep_EditorID :: int
  ep_Title :: string
  ep_Body :: string
  ep_At :: int

definition apply_EditPost :: "EditPost \<Rightarrow> group_db plan" where
  "apply_EditPost c =
     (if ep_Title c = [] \<or> length (ep_Title c) > MaxTitleLen \<or> length (ep_Body c) > MaxBodyLen
      then Refuse (Invalid ''a post needs a title (up to 300 characters) and text up to 40000'')
      else nilTx (\<lambda>db.
        bindE (the_post db (ep_PostID c)) (\<lambda>p.
        failIf (p_status p = Deleted \<or> p_status p = Removed) ErrGone (
        bindE (saveRevision Post (ep_PostID c) (Some (p_title p)) (p_body p) (ep_EditorID c) (ep_At c) db) (\<lambda>db1.
        let db2 = db1\<lparr>posts := upd_where (\<lambda>q. p_id q = ep_PostID c)
                      (\<lambda>q. q\<lparr>p_title := ep_Title c, p_body := ep_Body c, p_edited := Some (ep_At c)\<rparr>) (posts db1)\<rparr>
        in bindE (postEdited (ep_GroupID c) (ep_PostID c) (ep_At c) db2) (\<lambda>db3.
           if p_status p = Visible \<or> p_status p = Flagged
           then Inr (ftsPut (FtsItem Post) (ep_PostID c) (ep_PostID c) (ep_Title c) (ep_Body c) db3)
           else Inr db3))))))"

record CreateComment =
  cc_GroupID :: int
  cc_CommentID :: int
  cc_PostID :: int
  cc_ParentID :: int
  cc_UserID :: int
  cc_Body :: string
  cc_Anonymous :: bool
  cc_Image :: "Image option"
  cc_At :: int

text \<open>The comment a reply attaches to: its target, or the target's own parent.\<close>

definition reply_parent :: "group_db \<Rightarrow> int \<Rightarrow> int \<Rightarrow> go_error + int option" where
  "reply_parent db parentID postID =
     (if parentID = 0 then Inr None
      else bindE (the_comment db parentID) (\<lambda>pc.
           failIf (c_post pc \<noteq> postID) ErrGone (
           Inr (Some (case c_parent pc of Some q \<Rightarrow> q | None \<Rightarrow> parentID)))))"

definition insert_comment :: "comment \<Rightarrow> group_db \<Rightarrow> go_error + group_db" where
  "insert_comment cm db =
     (if \<not> has_key p_id (c_post cm) (posts db) then Inl (SqlConstraint ''FOREIGN KEY'')
      else bindE (ins_new c_id cm (comments db)) (\<lambda>t. Inr (db\<lparr>comments := t\<rparr>)))"

definition apply_CreateComment :: "CreateComment \<Rightarrow> group_db plan" where
  "apply_CreateComment c =
     (if cc_Body c = [] \<and> cc_Image c = None \<or> length (cc_Body c) > MaxCommentLen
      then Refuse (Invalid ''a comment needs text (up to 10000 characters) or a photo'')
      else nilTx (\<lambda>db.
        bindE (requireMember db (cc_UserID c)) (\<lambda>_.
        bindE (anonymousAllowed db (cc_Anonymous c)) (\<lambda>_.
        bindE (the_post db (cc_PostID c)) (\<lambda>p.
        failIf (p_status p \<noteq> Visible \<and> p_status p \<noteq> Flagged) ErrGone (
        failIf (p_locked p) ErrLocked (
        bindE (reply_parent db (cc_ParentID c) (cc_PostID c)) (\<lambda>parent.
        bindE (insert_comment
                 ((new_comment (cc_CommentID c) (cc_PostID c) parent (Some (cc_UserID c)) (cc_Body c) (cc_At c))
                    \<lparr>c_anonymous := cc_Anonymous c\<rparr>) db) (\<lambda>db1.
        bindE (insertImages (cc_PostID c) (Some (cc_CommentID c)) (Some (cc_UserID c))
                 (case cc_Image c of None \<Rightarrow> [] | Some im \<Rightarrow> [im]) (cc_At c) db1) (\<lambda>db2.
        let db3 = db2\<lparr>posts := upd_where (\<lambda>q. p_id q = cc_PostID c)
                      (\<lambda>q. q\<lparr>p_comment_count := p_comment_count q + 1, p_last_activity := cc_At c\<rparr>) (posts db2)\<rparr>
        in bindE (threadChanged (cc_GroupID c) (cc_PostID c) (cc_At c) db3) (\<lambda>db4.
           let db5 = schedule JobCheckComment (cc_CommentID c) 1 (cc_At c) (cc_At c) db4;
               db6 = commentNotices (cc_PostID c) (cc_CommentID c) (cc_ParentID c) (cc_UserID c) (cc_At c) db5
           in Inr (ftsPut (FtsItem Comment) (cc_CommentID c) (cc_PostID c) [] (cc_Body c) db6))))))))))))"

record EditComment =
  ec_GroupID :: int
  ec_CommentID :: int
  ec_EditorID :: int
  ec_Body :: string
  ec_At :: int

definition apply_EditComment :: "EditComment \<Rightarrow> group_db plan" where
  "apply_EditComment c =
     (if ec_Body c = [] \<or> length (ec_Body c) > MaxCommentLen
      then Refuse (Invalid ''a comment needs text, up to 10000 characters'')
      else nilTx (\<lambda>db.
        bindE (the_comment db (ec_CommentID c)) (\<lambda>cm.
        failIf (c_status cm = Deleted \<or> c_status cm = Removed) ErrGone (
        bindE (saveRevision Comment (ec_CommentID c) None (c_body cm) (ec_EditorID c) (ec_At c) db) (\<lambda>db1.
        let v = c_version cm + 1;
            db2 = db1\<lparr>comments := upd_where (\<lambda>q. c_id q = ec_CommentID c)
                      (\<lambda>q. q\<lparr>c_body := ec_Body c, c_edited := Some (ec_At c), c_version := v\<rparr>) (comments db1)\<rparr>;
            db3 = schedule JobCheckComment (ec_CommentID c) v (ec_At c) (ec_At c) db2
        in bindE (threadChanged (ec_GroupID c) (c_post cm) (ec_At c) db3) (\<lambda>db4.
           if c_status cm = Visible \<or> c_status cm = Flagged
           then Inr (ftsPut (FtsItem Comment) (ec_CommentID c) (c_post cm) [] (ec_Body c) db4)
           else Inr db4))))))"

section \<open>Deleting and restoring\<close>

record SoftDelete =
  sd_GroupID :: int
  sd_Kind :: string
  sd_ID :: int
  sd_By :: int
  sd_ByMod :: bool
  sd_Reason :: string
  sd_At :: int

definition item_status :: "group_db \<Rightarrow> kind \<Rightarrow> int \<Rightarrow> go_error + status" where
  "item_status db k i =
     (case k of
        Post \<Rightarrow> bindE (the_post db i) (\<lambda>p. Inr (p_status p))
      | Comment \<Rightarrow> bindE (the_comment db i) (\<lambda>cm. Inr (c_status cm)))"

definition threadOf :: "group_db \<Rightarrow> kind \<Rightarrow> int \<Rightarrow> int" where
  "threadOf db k i =
     (case k of Post \<Rightarrow> i
      | Comment \<Rightarrow> (case get_comment db i of None \<Rightarrow> 0 | Some cm \<Rightarrow> c_post cm))"

text \<open>The mod's part of a removal: reports settled, an example kept, the author told.\<close>

definition mod_removal :: "SoftDelete \<Rightarrow> group_db \<Rightarrow> go_error + group_db" where
  "mod_removal c db =
     bindE (loadItem db (sd_Kind c) (sd_ID c)) (\<lambda>it.
     let db1 = resolveReports it (sd_At c) db;
         db2 = modExample it Hide (sd_At c) db1;
         db3 = authorNotice it NoteRemoved (sd_By c) (sd_At c) db2
     in Inr (modLog (sd_By c) ''remove'' (sd_Kind c) (sd_ID c) (sd_Reason c) (sd_At c) db3))"

definition apply_SoftDelete :: "SoftDelete \<Rightarrow> group_db plan" where
  "apply_SoftDelete c =
     (let (status, keep) = (if sd_ByMod c then (Removed, ModRemoveKeep) else (Deleted, AuthorDeleteKeep)) in
      nilTx (\<lambda>db.
        bindE (itemTable (sd_Kind c)) (\<lambda>k.
        bindE (item_status db k (sd_ID c)) (\<lambda>was.
        if was = Deleted \<or> was = Removed then Inr db
        else
          let db1 = upd_item k (sd_ID c)
                (\<lambda>p. p\<lparr>p_status := status, p_removed_reason := nullIfEmpty (sd_Reason c),
                       p_deleted_at := Some (sd_At c), p_deleted_by := Some (sd_By c),
                       p_purge_after := Some (sd_At c + keep)\<rparr>)
                (\<lambda>q. q\<lparr>c_status := status, c_removed_reason := nullIfEmpty (sd_Reason c),
                       c_deleted_at := Some (sd_At c), c_deleted_by := Some (sd_By c),
                       c_purge_after := Some (sd_At c + keep)\<rparr>) db;
              db2 = ftsDel (sd_ID c) db1
          in bindE (threadChanged (sd_GroupID c) (threadOf db2 k (sd_ID c)) (sd_At c) db2) (\<lambda>db3.
             let db4 = (if k = Comment \<and> (was = Visible \<or> was = Flagged)
                        then add_comment_count (-1) (threadOf db3 k (sd_ID c)) db3 else db3);
                 db5 = (if k = Post \<and> (was = Visible \<or> was = Flagged)
                        then sendSisterNotes (sd_GroupID c) (sd_ID c) (sisterRefs db4 (sd_ID c)) False (sd_At c) db4
                        else db4)
             in if sd_ByMod c then mod_removal c db5 else Inr db5)))))"

record Restore =
  rs_GroupID :: int
  rs_Kind :: string
  rs_ID :: int
  rs_By :: int
  rs_At :: int

text \<open>Status, title, body and post of the item to restore.\<close>

definition restore_row :: "group_db \<Rightarrow> kind \<Rightarrow> int \<Rightarrow> go_error + status \<times> string \<times> string \<times> int" where
  "restore_row db k i =
     (case k of
        Post \<Rightarrow> bindE (the_post db i) (\<lambda>p. Inr (p_status p, p_title p, p_body p, p_id p))
      | Comment \<Rightarrow> bindE (the_comment db i) (\<lambda>q. Inr (c_status q, [], c_body q, c_post q)))"

definition apply_Restore :: "Restore \<Rightarrow> group_db plan" where
  "apply_Restore c = nilTx (\<lambda>db.
     bindE (itemTable (rs_Kind c)) (\<lambda>k.
     bindE (restore_row db k (rs_ID c)) (\<lambda>(was, title, body, postID).
     if was = Visible then Inr db
     else
       let db1 = upd_item k (rs_ID c)
             (\<lambda>p. p\<lparr>p_status := Visible, p_removed_reason := None, p_deleted_at := None,
                    p_deleted_by := None, p_purge_after := None\<rparr>)
             (\<lambda>q. q\<lparr>c_status := Visible, c_removed_reason := None, c_deleted_at := None,
                    c_deleted_by := None, c_purge_after := None\<rparr>) db;
           db2 = ftsPut (FtsItem k) (rs_ID c) postID title body db1
       in bindE (threadChanged (rs_GroupID c) postID (rs_At c) db2) (\<lambda>db3.
          let db4 = (if k = Comment \<and> was \<noteq> Flagged then add_comment_count 1 postID db3 else db3);
              db5 = (if k = Post
                     then sendSisterNotes (rs_GroupID c) (rs_ID c) (sisterRefs db4 (rs_ID c)) True (rs_At c) db4
                     else db4)
          in Inr (modLog (rs_By c) ''restore'' (rs_Kind c) (rs_ID c) [] (rs_At c) db5)))))"

section \<open>Each keeps the invariant\<close>

lemma core_add_follow [frame]: "core (add_follow u p t db) = core db"
  by (simp add: core_def add_follow_def)

lemma new_post_simps [simp]:
  "p_id (new_post i u t b c a) = i" "p_comment_count (new_post i u t b c a) = 0"
  "p_legal_hold (new_post i u t b c a) = False" "p_purge_after (new_post i u t b c a) = None"
  "p_status (new_post i u t b c a) = Visible" "p_title (new_post i u t b c a) = t"
  "p_body (new_post i u t b c a) = b"
  by (simp_all add: new_post_def)

lemma new_comment_simps [simp]:
  "c_id (new_comment i p r u b t) = i" "c_post (new_comment i p r u b t) = p"
  "c_legal_hold (new_comment i p r u b t) = False" "c_purge_after (new_comment i p r u b t) = None"
  "c_status (new_comment i p r u b t) = Visible" "c_body (new_comment i p r u b t) = b"
  "c_parent (new_comment i p r u b t) = r"
  by (simp_all add: new_comment_def)

lemma firstPostStatus_cases: "firstPostStatus db u = Inr s \<Longrightarrow> s = Visible \<or> s = Held"
  by (auto simp: firstPostStatus_def Let_def split: option.splits if_splits)

lemma CreatePost_step:
  assumes ok: "group_ok db" and st: "firstPostStatus db (cp_UserID c) = Inr s"
    and ins: "ins_new p_id ((new_post (cp_PostID c) (Some (cp_UserID c)) (cp_Title c) (cp_Body c) (cp_At c) (cp_At c))
        \<lparr>p_anonymous := cp_Anonymous c, p_status := s\<rparr>) (posts db) = Inr t"
    and img: "insertImages (cp_PostID c) None (Some (cp_UserID c)) (cp_Images c) (cp_At c) (db\<lparr>posts := t\<rparr>) = Inr db1"
    and db4: "core db4 = core db1"
  shows "group_ok (if s \<noteq> Visible then db4
      else ftsPut (FtsItem Post) (cp_PostID c) (cp_PostID c) (cp_Title c) (cp_Body c) db4)"
proof -
  let ?p = "(new_post (cp_PostID c) (Some (cp_UserID c)) (cp_Title c) (cp_Body c) (cp_At c) (cp_At c))
      \<lparr>p_anonymous := cp_Anonymous c, p_status := s\<rparr>"
  let ?put = "ftsPut (FtsItem Post) (cp_PostID c) (cp_PostID c) (cp_Title c) (cp_Body c)"
  let ?db0 = "db\<lparr>posts := posts db @ [?p]\<rparr>"
  have t: "t = posts db @ [?p]" and new: "\<not> has_key p_id (p_id ?p) (posts db)"
    using ins by (simp_all add: ins_new_Inr)
  have "core db4 = core ?db0" using core_insertImages[OF img] t db4 by simp
  then have "core (if s \<noteq> Visible then db4 else ?put db4) = core (if s \<noteq> Visible then ?db0 else ?put ?db0)"
    using core_ftsPut_cong[of db4 ?db0] by simp
  moreover have "group_ok (if s \<noteq> Visible then ?db0 else ?put ?db0)"
    by (rule post_insert_ok[OF ok new]) (auto simp: ftsPut_def post_fts_def split: if_splits)
  ultimately show ?thesis using group_ok_core by blast
qed

lemma okE_if_Inr: "okE P (if b then Inr x else Inr y) = P (if b then x else y)"
  by simp

lemma CreatePost_ok: "keeps group_ok (apply_CreatePost c)"
  unfolding apply_CreatePost_def
  by (intro keeps_if keeps_Refuse, unfold keeps_nilTx, intro allI impI okE_bind_any, unfold Let_def okE_if_Inr,
      rule CreatePost_step) (assumption | simp add: frame)+

text \<open>Editing: a row's text changes, and its index row with it while it is shown.\<close>

lemma saveRevision_frame:
  "saveRevision k i t b e u db = Inr db' \<Longrightarrow> \<exists>rs. db' = db\<lparr>revisions := rs\<rparr>"
  by (auto simp: saveRevision_def Let_def bind_iffs)

lemma EditPost_step:
  assumes ok: "group_ok db" and p: "get_post db (ep_PostID c) = Some p"
    and rev: "saveRevision Post (ep_PostID c) (Some (p_title p)) (p_body p) (ep_EditorID c) (ep_At c) db = Inr db1"
    and ed: "postEdited (ep_GroupID c) (ep_PostID c) (ep_At c)
        (db1\<lparr>posts := upd_where (\<lambda>q. p_id q = ep_PostID c)
            (\<lambda>q. q\<lparr>p_title := ep_Title c, p_body := ep_Body c, p_edited := Some (ep_At c)\<rparr>) (posts db1)\<rparr>) = Inr db3"
  shows "group_ok (if shown (p_status p)
           then ftsPut (FtsItem Post) (ep_PostID c) (ep_PostID c) (ep_Title c) (ep_Body c) db3 else db3)"
proof -
  let ?f = "\<lambda>q. q\<lparr>p_title := ep_Title c, p_body := ep_Body c, p_edited := Some (ep_At c)\<rparr>"
  let ?put = "ftsPut (FtsItem Post) (ep_PostID c) (ep_PostID c) (ep_Title c) (ep_Body c)"
  let ?db0 = "db\<lparr>posts := upd_where (\<lambda>q. p_id q = ep_PostID c) ?f (posts db)\<rparr>"
  have "core db3 = core ?db0"
    using core_postEdited[OF ed] saveRevision_frame[OF rev] by (auto simp: core_def)
  then have "core (if shown (p_status p) then ?put db3 else db3) = core (if shown (p_status p) then ?put ?db0 else ?db0)"
    using core_ftsPut_cong[of db3 ?db0] by simp
  moreover have "group_ok (if shown (p_status p) then ?put ?db0 else ?db0)"
  proof (rule post_change_ok[OF ok p, where f = ?f])
    fix r assume r: "r \<in> set (search_fts (if shown (p_status p) then ?put ?db0 else ?db0))"
    show "r \<in> set (search_fts db) \<and> (f_kind r = FtsItem Post \<longrightarrow> f_rowid r \<noteq> ep_PostID c)
        \<or> shown (p_status (?f p)) \<and> r = post_fts (?f p)"
      using r get_post_mem[OF p] hidden_not_indexed[OF ok p, of r]
      by (auto simp: ftsPut_def post_fts_def split: if_splits)
  qed (use get_post_mem[OF p] group_ok_post_row[OF ok p] in \<open>auto simp: frame\<close>)
  ultimately show ?thesis using group_ok_core by blast
qed

lemma EditPost_ok: "keeps group_ok (apply_EditPost c)"
  unfolding apply_EditPost_def
  by (intro keeps_if keeps_Refuse, unfold keeps_nilTx, intro allI impI okE_bind_any okE_failIf,
      unfold Let_def the_post_Inr, intro okE_bind_any)
    (drule (3) EditPost_step, auto simp: shown_def split: if_splits)

lemma EditComment_step:
  assumes ok: "group_ok db" and cm: "get_comment db (ec_CommentID c) = Some cm"
    and rev: "saveRevision Comment (ec_CommentID c) None (c_body cm) (ec_EditorID c) (ec_At c) db = Inr db1"
    and ed: "threadChanged (ec_GroupID c) (c_post cm) (ec_At c)
        (schedule JobCheckComment (ec_CommentID c) v (ec_At c) (ec_At c)
          (db1\<lparr>comments := upd_where (\<lambda>q. c_id q = ec_CommentID c)
              (\<lambda>q. q\<lparr>c_body := ec_Body c, c_edited := Some (ec_At c), c_version := v\<rparr>) (comments db1)\<rparr>)) = Inr db4"
  shows "group_ok (if shown (c_status cm)
           then ftsPut (FtsItem Comment) (ec_CommentID c) (c_post cm) [] (ec_Body c) db4 else db4)"
proof -
  let ?g = "\<lambda>q. q\<lparr>c_body := ec_Body c, c_edited := Some (ec_At c), c_version := v\<rparr>"
  let ?put = "ftsPut (FtsItem Comment) (ec_CommentID c) (c_post cm) [] (ec_Body c)"
  let ?db0 = "db\<lparr>comments := upd_where (\<lambda>q. c_id q = ec_CommentID c) ?g (comments db)\<rparr>"
  have "core db4 = core ?db0"
    using core_threadChanged[OF ed] saveRevision_frame[OF rev] by (auto simp: core_schedule) (simp add: core_def)
  then have "core (if shown (c_status cm) then ?put db4 else db4) = core (if shown (c_status cm) then ?put ?db0 else ?db0)"
    using core_ftsPut_cong[of db4 ?db0] by simp
  moreover have "group_ok (if shown (c_status cm) then ?put ?db0 else ?db0)"
  proof (rule comment_change_ok[OF ok cm, where g = ?g and delta = 0])
    fix r assume r: "r \<in> set (search_fts (if shown (c_status cm) then ?put ?db0 else ?db0))"
    show "r \<in> set (search_fts db) \<and> (f_kind r = FtsItem Comment \<longrightarrow> f_rowid r \<noteq> ec_CommentID c)
        \<or> shown (c_status (?g cm)) \<and> r = comment_fts (?g cm)"
      using r get_comment_mem[OF cm] hidden_comment_not_indexed[OF ok cm, of r]
      by (auto simp: ftsPut_def comment_fts_def split: if_splits)
  qed (use get_comment_mem[OF cm] group_ok_comment_row[OF ok cm] in \<open>auto simp: frame\<close>)
  ultimately show ?thesis using group_ok_core by blast
qed

lemma EditComment_ok: "keeps group_ok (apply_EditComment c)"
  unfolding apply_EditComment_def
  by (intro keeps_if keeps_Refuse, unfold keeps_nilTx, intro allI impI okE_bind_any okE_failIf,
      unfold Let_def the_comment_Inr, intro okE_bind_any)
    (drule (3) EditComment_step, auto simp: shown_def split: if_splits)

text \<open>A new comment: its row, one more in its post's count, its index row.\<close>

lemma insertImages_frame:
  "insertImages p cm u im t db = Inr db' \<Longrightarrow> \<exists>rs. db' = db\<lparr>images := rs\<rparr>"
  by (auto simp: insertImages_def bind_iffs)

lemma insert_comment_Inr:
  "insert_comment cm db = Inr db' \<longleftrightarrow>
     has_key p_id (c_post cm) (posts db) \<and> \<not> has_key c_id (c_id cm) (comments db)
     \<and> db' = db\<lparr>comments := comments db @ [cm]\<rparr>"
  by (auto simp: insert_comment_def bind_iffs ins_new_Inr)

lemma map_core_count:
  assumes "\<And>q. post_core (f q) = (post_core q)\<lparr>kp_count := kp_count (post_core q) + d\<rparr>"
  shows "map post_core (upd_where (\<lambda>q. p_id q = i) f t) =
     map (\<lambda>q. if kp_id q = i then q\<lparr>kp_count := kp_count q + d\<rparr> else q) (map post_core t)"
proof (induction t)
  case (Cons q t)
  have "kp_id (post_core q) = p_id q" by (simp add: post_core_def)
  with Cons assms show ?case by simp
qed simp

lemma CreateComment_step:
  assumes ok: "group_ok db"
    and ins: "insert_comment cm db = Inr db1" "cm = (new_comment (cc_CommentID c) (cc_PostID c) parent (Some (cc_UserID c))
        (cc_Body c) (cc_At c))\<lparr>c_anonymous := cc_Anonymous c\<rparr>"
    and img: "insertImages (cc_PostID c) (Some (cc_CommentID c)) (Some (cc_UserID c)) imgs (cc_At c) db1 = Inr db2"
    and tc: "threadChanged (cc_GroupID c) (cc_PostID c) (cc_At c)
        (db2\<lparr>posts := upd_where (\<lambda>q. p_id q = cc_PostID c)
           (\<lambda>q. q\<lparr>p_comment_count := p_comment_count q + 1, p_last_activity := cc_At c\<rparr>) (posts db2)\<rparr>) = Inr db4"
  shows "group_ok (ftsPut (FtsItem Comment) (cc_CommentID c) (cc_PostID c) [] (cc_Body c)
      (commentNotices (cc_PostID c) (cc_CommentID c) (cc_ParentID c) (cc_UserID c) (cc_At c)
        (schedule JobCheckComment (cc_CommentID c) 1 (cc_At c) (cc_At c) db4)))"
proof -
  let ?f = "\<lambda>q. q\<lparr>p_comment_count := p_comment_count q + 1, p_last_activity := cc_At c\<rparr>"
  let ?put = "ftsPut (FtsItem Comment) (cc_CommentID c) (cc_PostID c) [] (cc_Body c)"
  let ?db0 = "db\<lparr>comments := comments db @ [cm], posts := upd_where (\<lambda>q. p_id q = cc_PostID c) ?f (posts db)\<rparr>"
  have c: "has_key p_id (c_post cm) (posts db)" "\<not> has_key c_id (c_id cm) (comments db)"
    "db1 = db\<lparr>comments := comments db @ [cm]\<rparr>"
    using ins(1) by (auto simp: insert_comment_Inr)
  have "core db4 = core ?db0"
    using core_threadChanged[OF tc] insertImages_frame[OF img] c(3) by (auto simp: core_def)
  then have "core (?put (commentNotices (cc_PostID c) (cc_CommentID c) (cc_ParentID c) (cc_UserID c) (cc_At c)
        (schedule JobCheckComment (cc_CommentID c) 1 (cc_At c) (cc_At c) db4))) = core (?put ?db0)"
    by (intro core_ftsPut_cong) (simp add: frame)
  moreover have "group_ok (?put ?db0)"
  proof (rule comment_insert_ok[OF ok c(2,1)])
    show "map post_core (posts (?put ?db0)) =
        map (\<lambda>q. if kp_id q = c_post cm then q\<lparr>kp_count := kp_count q + 1\<rparr> else q) (map post_core (posts db))"
      using map_core_count[of ?f 1 "cc_PostID c" "posts db"] by (simp add: frame ins(2) post_core_def)
  qed (use ins(2) in \<open>auto simp: frame ftsPut_def comment_fts_def\<close>)
  ultimately show ?thesis using group_ok_core by blast
qed

lemma CreateComment_ok: "keeps group_ok (apply_CreateComment c)"
  unfolding apply_CreateComment_def
  by (intro keeps_if keeps_Refuse, unfold keeps_nilTx, intro allI impI okE_bind_any okE_failIf,
      unfold Let_def, intro okE_bind_any, unfold okE_simps) (rule CreateComment_step[OF _ _ refl])

text \<open>Deleting and restoring.\<close>

lemma threadOf_Post [simp]: "threadOf db Post i = i"
  by (simp add: threadOf_def)

lemma core_mod_removal: "mod_removal c db = Inr db' \<Longrightarrow> core db' = core db"
  by (auto simp: mod_removal_def bind_iffs Let_def frame)

lemma get_comment_upd:
  assumes "get_comment db i = Some cm" "\<And>q. c_id (g q) = c_id q" "comments db' = upd_where (\<lambda>q. c_id q = i) g (comments db)"
  shows "get_comment db' i = Some (g cm)"
  using assms(1) get_comment_mem[OF assms(1)] by (simp add: get_comment_def assms(3) map_find_upd_key[of c_id, OF assms(2)])

lemma SoftDelete_step:
  fixes c :: SoftDelete and keep :: int
  defines "fp st \<equiv> \<lambda>p. p\<lparr>p_status := st, p_removed_reason := nullIfEmpty (sd_Reason c),
                       p_deleted_at := Some (sd_At c), p_deleted_by := Some (sd_By c),
                       p_purge_after := Some (sd_At c + keep)\<rparr>"
    and "fc st \<equiv> \<lambda>q. q\<lparr>c_status := st, c_removed_reason := nullIfEmpty (sd_Reason c),
                       c_deleted_at := Some (sd_At c), c_deleted_by := Some (sd_By c),
                       c_purge_after := Some (sd_At c + keep)\<rparr>"
  assumes ok: "group_ok db" and was: "item_status db k (sd_ID c) = Inr was" and to: "gone st"
    and tc: "threadChanged (sd_GroupID c) (threadOf db2 k (sd_ID c)) (sd_At c) db2 = Inr db3"
    and db2: "db2 = ftsDel (sd_ID c) (upd_item k (sd_ID c) (fp st) (fc st) db)"
  shows "group_ok (if k = Comment \<and> (was = Visible \<or> was = Flagged)
            then add_comment_count (-1) (threadOf db3 k (sd_ID c)) db3 else db3)"
proof (cases k)
  case Post
  obtain p where p: "get_post db (sd_ID c) = Some p" "p_status p = was"
    using was Post by (auto simp: item_status_def bind_iffs the_post_Inr)
  have "group_ok db2"
    unfolding db2 Post
    by (rule post_status_step(2)[OF ok p(1), where f = "fp st"])
      (use to get_post_mem[OF p(1)] not_gone_shown in \<open>auto simp: fp_def\<close>)
  with group_ok_core[OF core_threadChanged[OF tc]] Post show ?thesis by simp
next
  case Comment
  obtain cm where cm: "get_comment db (sd_ID c) = Some cm" "c_status cm = was"
    using was Comment by (auto simp: item_status_def bind_iffs the_comment_Inr)
  have st: "\<not> shown st" using to not_gone_shown by blast
  have cs3: "comments db3 = upd_where (\<lambda>q. c_id q = sd_ID c) (fc st) (comments db)"
    using thread_frame_comments[OF threadChanged_frame[OF tc]] by (simp add: db2 Comment upd_item_def frame)
  have "get_comment db3 (sd_ID c) = Some (fc st cm)"
    by (rule get_comment_upd[OF cm(1) _ cs3]) (simp add: fc_def)
  then have thread: "threadOf db3 k (sd_ID c) = c_post cm" by (simp add: threadOf_def Comment fc_def)
  have step: "group_ok (add_comment_count (shown_delta was st) (c_post cm) db2)"
    unfolding db2 Comment
    by (rule comment_status_step(2)[OF ok cm(1), where g = "fc st"])
      (use to st cm get_comment_mem[OF cm(1)] in \<open>auto simp: fc_def shown_delta_def\<close>)
  have "core (if k = Comment \<and> (was = Visible \<or> was = Flagged)
            then add_comment_count (-1) (threadOf db3 k (sd_ID c)) db3 else db3)
      = core (add_comment_count (shown_delta was st) (c_post cm) db2)"
  proof (cases "shown was")
    case True
    then have "shown_delta was st = -1" using st by (simp add: shown_delta_def)
    with True Comment thread core_add_count_cong[OF core_threadChanged[OF tc]] show ?thesis
      by (simp add: shown_def)
  next
    case False
    then have "shown_delta was st = 0" using st by (simp add: shown_delta_def)
    with False core_threadChanged[OF tc] show ?thesis by (simp add: shown_def core_add_0)
  qed
  with step show ?thesis using group_ok_core by blast
qed

lemma SoftDelete_ok: "keeps group_ok (apply_SoftDelete c)"
proof -
  define st where "st = (if sd_ByMod c then Removed else Deleted)"
  define keep where "keep = (if sd_ByMod c then ModRemoveKeep else AuthorDeleteKeep)"
  have pair: "(if sd_ByMod c then (Removed, ModRemoveKeep) else (Deleted, AuthorDeleteKeep)) = (st, keep)"
    by (simp add: st_def keep_def)
  have "gone st" by (simp add: st_def gone_def)
  note step = SoftDelete_step[OF _ _ this _ refl, where keep = keep and c = c]
  show ?thesis
    unfolding apply_SoftDelete_def pair Let_def prod.case keeps_nilTx
  proof (intro allI impI okE_bind_any, goal_cases)
    case (1 db k was)
    show ?case
    proof (cases "was = Deleted \<or> was = Removed")
      case False
      then show ?thesis
        unfolding if_not_P[OF False]
      proof (intro okE_bind_any, goal_cases)
        case (1 db3)
        from step[OF \<open>group_ok db\<close> \<open>item_status db k (sd_ID c) = Inr was\<close> 1(2)]
        have "group_ok (if k = Comment \<and> (was = Visible \<or> was = Flagged)
            then add_comment_count (-1) (threadOf db3 k (sd_ID c)) db3 else db3)" .
        then show ?case
          by (rule okE_core) (auto dest!: core_mod_removal simp: frame split: if_splits)
      qed
    qed (use \<open>group_ok db\<close> in simp)
  qed
qed

lemma Restore_step:
  fixes c :: Restore
  defines "fp \<equiv> \<lambda>p. p\<lparr>p_status := Visible, p_removed_reason := None, p_deleted_at := None,
                    p_deleted_by := None, p_purge_after := None\<rparr>"
    and "fc \<equiv> \<lambda>q. q\<lparr>c_status := Visible, c_removed_reason := None, c_deleted_at := None,
                    c_deleted_by := None, c_purge_after := None\<rparr>"
  assumes ok: "group_ok db" and row: "restore_row db k (rs_ID c) = Inr (was, title, body, postID)"
    and vis: "was \<noteq> Visible"
    and tc: "threadChanged (rs_GroupID c) postID (rs_At c)
      (ftsPut (FtsItem k) (rs_ID c) postID title body (upd_item k (rs_ID c) fp fc db)) = Inr db3"
  shows "group_ok (if k = Comment \<and> was \<noteq> Flagged then add_comment_count 1 postID db3 else db3)"
proof (cases k)
  case Post
  obtain p where p: "get_post db (rs_ID c) = Some p" "p_status p = was" "title = p_title p" "body = p_body p" "postID = p_id p"
    using row Post by (auto simp: restore_row_def bind_iffs the_post_Inr)
  have "group_ok (ftsPut (FtsItem Post) (rs_ID c) (rs_ID c) (p_title p) (p_body p) (upd_item Post (rs_ID c) fp fc db))"
    by (rule post_status_step(1)[OF ok p(1), where f = fp])
      (use get_post_mem[OF p(1)] in \<open>auto simp: fp_def\<close>)
  with group_ok_core[OF core_threadChanged[OF tc]] Post p get_post_mem[OF p(1)] show ?thesis by simp
next
  case Comment
  obtain cm where cm: "get_comment db (rs_ID c) = Some cm" "c_status cm = was" "title = []" "body = c_body cm" "postID = c_post cm"
    using row Comment by (auto simp: restore_row_def bind_iffs the_comment_Inr)
  let ?db2 = "ftsPut (FtsItem k) (rs_ID c) postID title body (upd_item k (rs_ID c) fp fc db)"
  have step: "group_ok (add_comment_count (shown_delta was Visible) postID ?db2)"
    unfolding cm(3,4,5) Comment
    by (rule comment_status_step(1)[OF ok cm(1), where g = fc])
      (use cm get_comment_mem[OF cm(1)] in \<open>auto simp: fc_def\<close>)
  have "core (if k = Comment \<and> was \<noteq> Flagged then add_comment_count 1 postID db3 else db3)
      = core (add_comment_count (shown_delta was Visible) postID ?db2)"
    using core_threadChanged[OF tc] core_add_count_cong[OF core_threadChanged[OF tc], of 1 postID] vis Comment
    by (cases was) (simp_all add: shown_delta_def core_add_0)
  with step show ?thesis using group_ok_core by blast
qed

lemma Restore_ok: "keeps group_ok (apply_Restore c)"
  unfolding apply_Restore_def Let_def keeps_nilTx
proof (intro allI impI okE_bind_any, goal_cases)
  case (1 db k row)
  obtain was title body postID where row: "row = (was, title, body, postID)" by (cases row)
  show ?case
  proof (cases "was = Visible")
    case False
    then show ?thesis
      unfolding row prod.case if_not_P[OF False]
    proof (intro okE_bind_any, goal_cases)
      case (1 db3)
      from Restore_step[OF \<open>group_ok db\<close> \<open>restore_row db k (rs_ID c) = Inr row\<close>[unfolded row] False 1(2)]
      show ?case by (rule okE_core) (auto simp: frame)
    qed
  qed (use \<open>group_ok db\<close> row in simp)
qed

end
