(* ===== verification/Engage.thy ===== *)
theory Engage
  imports Posts
begin

text \<open>
  Votes, follows and notifications: the group's commands of
  \<^verbatim>\<open>internal/cmd/engage.go\<close>. A stored score is the number of votes behind it, because
  \<open>Helpful\<close> recounts.
\<close>

section \<open>Commands\<close>

record Helpful =
  hv_GroupID :: int
  hv_Kind :: string
  hv_ID :: int
  hv_UserID :: int
  hv_On :: bool
  hv_At :: int

definition vote_key :: "helpful_vote \<Rightarrow> kind \<times> int \<times> int" where
  "vote_key v = (v_kind v, v_item v, v_user v)"

definition votes_for :: "kind \<Rightarrow> int \<Rightarrow> group_db \<Rightarrow> nat" where
  "votes_for k i db = affected (\<lambda>v. v_kind v = k \<and> v_item v = i) (votes db)"

definition recount :: "kind \<Rightarrow> int \<Rightarrow> group_db \<Rightarrow> group_db" where
  "recount k i db =
     upd_item k i (\<lambda>p. p\<lparr>p_score := int (votes_for k i db)\<rparr>) (\<lambda>c. c\<lparr>c_score := int (votes_for k i db)\<rparr>) db"

definition apply_Helpful :: "Helpful \<Rightarrow> group_db plan" where
  "apply_Helpful c = nilTx (\<lambda>db.
     bindE (requireMember db (hv_UserID c)) (\<lambda>_.
     bindE (loadItem db (hv_Kind c) (hv_ID c)) (\<lambda>it.
     failIf (\<not> shown (it_status it)) ErrGone (
     failIf (it_author it = hv_UserID c) (Invalid ''that's your own'') (
     let k = it_kind it;
         db1 = (if hv_On c
                then db\<lparr>votes := ins_ignore vote_key
                          \<lparr>v_kind = k, v_item = hv_ID c, v_user = hv_UserID c, v_created = hv_At c\<rparr> (votes db)\<rparr>
                else db\<lparr>votes := del_where (\<lambda>v. v_kind v = k \<and> v_item v = hv_ID c \<and> v_user v = hv_UserID c) (votes db)\<rparr>)
     in Inr (recount k (hv_ID c) db1))))))"

record Follow =
  fw_GroupID :: int
  fw_PostID :: int
  fw_UserID :: int
  fw_On :: bool
  fw_At :: int

definition apply_Follow :: "Follow \<Rightarrow> group_db plan" where
  "apply_Follow c = nilTx (\<lambda>db.
     bindE (requireMember db (fw_UserID c)) (\<lambda>_.
     if \<not> fw_On c
     then Inr (db\<lparr>follows := del_where (\<lambda>f. fo_user f = fw_UserID c \<and> fo_post f = fw_PostID c) (follows db)\<rparr>)
     else bindE (the_post db (fw_PostID c)) (\<lambda>p.
          failIf (\<not> shown (p_status p)) ErrGone (
          Inr (add_follow (fw_UserID c) (fw_PostID c) (fw_At c) db)))))"

record MarkRead =
  mr_GroupID :: int
  mr_UserID :: int
  mr_UpTo :: int
  mr_At :: int

definition apply_MarkRead :: "MarkRead \<Rightarrow> group_db plan" where
  "apply_MarkRead c = nilTx (\<lambda>db.
     Inr (db\<lparr>notifications := upd_where (\<lambda>n. no_user n = mr_UserID c \<and> no_id n \<le> mr_UpTo c \<and> no_read n = None)
                (\<lambda>n. n\<lparr>no_read := Some (mr_At c)\<rparr>) (notifications db)\<rparr>))"

record MarkEmailed =
  me_GroupID :: int
  me_UserID :: int
  me_UpTo :: int
  me_At :: int

definition apply_MarkEmailed :: "MarkEmailed \<Rightarrow> group_db plan" where
  "apply_MarkEmailed c = nilTx (\<lambda>db.
     Inr (db\<lparr>notifications := upd_where (\<lambda>n. no_user n = me_UserID c \<and> no_id n \<le> me_UpTo c \<and> no_emailed n = None)
                (\<lambda>n. n\<lparr>no_emailed := Some (me_At c)\<rparr>) (notifications db)\<rparr>))"

record DigestSent =
  ds_GroupID :: int
  ds_UserID :: int
  ds_At :: int

definition apply_DigestSent :: "DigestSent \<Rightarrow> group_db plan" where
  "apply_DigestSent c = nilTx (\<lambda>db.
     Inr (db\<lparr>memberships := upd_where (\<lambda>m. m_user m = ds_UserID c) (\<lambda>m. m\<lparr>m_digest_sent := ds_At c\<rparr>) (memberships db)\<rparr>))"

section \<open>They keep posts, comments and the index in step\<close>

lemma core_recount [frame]: "core (recount k i db) = core db"
  unfolding recount_def by (rule core_upd_item) (simp_all add: post_core_def comment_core_def)

lemma core_tables [frame]:
  "core (db\<lparr>votes := v\<rparr>) = core db" "core (db\<lparr>follows := f\<rparr>) = core db"
  "core (db\<lparr>notifications := n\<rparr>) = core db" "core (db\<lparr>memberships := m\<rparr>) = core db"
  "core (db\<lparr>invites := i\<rparr>) = core db" "core (db\<lparr>settings_row := s\<rparr>) = core db"
  "core (db\<lparr>reports := r\<rparr>) = core db" "core (db\<lparr>flag_votes := fv\<rparr>) = core db"
  "core (db\<lparr>jobs := j\<rparr>) = core db" "core (db\<lparr>outbox := ob\<rparr>) = core db"
  "core (db\<lparr>note_rows := nr\<rparr>) = core db" "core (db\<lparr>note_sources := ns\<rparr>) = core db"
  "core (db\<lparr>post_links := pl\<rparr>) = core db" "core (db\<lparr>sister_links := sl\<rparr>) = core db"
  "core (db\<lparr>nudges := nu\<rparr>) = core db" "core (db\<lparr>faq_sources := fs\<rparr>) = core db"
  "core (db\<lparr>faq_entries := fe\<rparr>) = core db" "core (db\<lparr>post_topics := pt\<rparr>) = core db"
  "core (db\<lparr>source_links := sol\<rparr>) = core db" "core (db\<lparr>mod_log := ml\<rparr>) = core db"
  by (simp_all add: core_def)

lemma keeps_core:
  "(\<And>db db'. fn db = Inr db' \<Longrightarrow> core db' = core db) \<Longrightarrow> keeps group_ok (nilTx fn)"
  unfolding keeps_nilTx by (auto intro: okE_core)

lemma Helpful_ok: "keeps group_ok (apply_Helpful c)"
  unfolding apply_Helpful_def by (rule keeps_core) (auto simp: bind_iffs Let_def frame split: if_splits)

lemma Follow_ok: "keeps group_ok (apply_Follow c)"
  unfolding apply_Follow_def by (rule keeps_core) (auto simp: bind_iffs frame split: if_splits)

lemma MarkRead_ok: "keeps group_ok (apply_MarkRead c)"
  unfolding apply_MarkRead_def by (rule keeps_core) (auto simp: frame)

lemma MarkEmailed_ok: "keeps group_ok (apply_MarkEmailed c)"
  unfolding apply_MarkEmailed_def by (rule keeps_core) (auto simp: frame)

lemma DigestSent_ok: "keeps group_ok (apply_DigestSent c)"
  unfolding apply_DigestSent_def by (rule keeps_core) (auto simp: frame)

section \<open>Tables by key\<close>

interpretation vote_table: keyed_table vote_key "\<lambda>f. \<forall>v. vote_key (f v) = vote_key v"
  by unfold_locales simp

interpretation follow_table: keyed_table follow_key "\<lambda>f. \<forall>v. follow_key (f v) = follow_key v"
  by unfold_locales simp

section \<open>Properties\<close>

definition item_score :: "group_db \<Rightarrow> kind \<Rightarrow> int \<Rightarrow> int option" where
  "item_score db k i =
     (case k of Post \<Rightarrow> map_option p_score (get_post db i) | Comment \<Rightarrow> map_option c_score (get_comment db i))"

lemma item_score_recount:
  assumes "item_score db k i \<noteq> None"
  shows "item_score (recount k i db) k i = Some (int (votes_for k i db))"
proof (cases k)
  case Post
  with assms obtain p where "find (\<lambda>p. p_id p = i) (posts db) = Some p" by (auto simp: item_score_def get_post_def)
  moreover from this have "p_id p = i" by (auto dest: find_Some_mem)
  ultimately show ?thesis using Post
    by (simp add: item_score_def recount_def upd_item_def get_post_def map_find_upd_key)
next
  case Comment
  with assms obtain c where "find (\<lambda>c. c_id c = i) (comments db) = Some c" by (auto simp: item_score_def get_comment_def)
  moreover from this have "c_id c = i" by (auto dest: find_Some_mem)
  ultimately show ?thesis using Comment
    by (simp add: item_score_def recount_def upd_item_def get_comment_def map_find_upd_key)
qed

lemma votes_recount: "votes (recount k i db) = votes db" "votes_for k' i' (recount k i db) = votes_for k' i' db"
  by (cases k; simp add: recount_def upd_item_def votes_for_def)+

lemma loadItem_score: "loadItem db k i = Inr it \<Longrightarrow> item_score db (it_kind it) i \<noteq> None"
  by (auto simp: loadItem_def item_score_def bind_iffs the_post_Inr the_comment_Inr split: option.splits kind.splits)

text \<open>C7: a "helpful" vote is counted once: when the command succeeds the item's score is the
  number of votes on it, the member's vote is there just when they turned it on, nobody else's
  vote changed, and the member is active, the item shown and not their own.\<close>

theorem helpful_counts_votes:
  assumes "run_plan (apply_Helpful c) db = Inr (v, db')" and "hv_Kind c = kind_str k"
  shows "item_score db' k (hv_ID c) = Some (int (votes_for k (hv_ID c) db'))
    \<and> has_key vote_key (k, hv_ID c, hv_UserID c) (votes db') = hv_On c
    \<and> (\<forall>x. x \<noteq> (k, hv_ID c, hv_UserID c) \<longrightarrow> has_key vote_key x (votes db') = has_key vote_key x (votes db))
    \<and> active_member db (hv_UserID c)
    \<and> (\<exists>it. loadItem db (hv_Kind c) (hv_ID c) = Inr it \<and> shown (it_status it) \<and> it_author it \<noteq> hv_UserID c)"
proof -
  obtain it where it: "loadItem db (hv_Kind c) (hv_ID c) = Inr it" "active_member db (hv_UserID c)"
    "shown (it_status it)" "it_author it \<noteq> hv_UserID c"
    "db' = recount (it_kind it) (hv_ID c)
       (if hv_On c
        then db\<lparr>votes := ins_ignore vote_key
               \<lparr>v_kind = it_kind it, v_item = hv_ID c, v_user = hv_UserID c, v_created = hv_At c\<rparr> (votes db)\<rparr>
        else db\<lparr>votes := del_where (\<lambda>v. v_kind v = it_kind it \<and> v_item v = hv_ID c \<and> v_user v = hv_UserID c) (votes db)\<rparr>)"
    using assms(1) by (auto simp: apply_Helpful_def run_nilTx bind_iffs Let_def requireMember_Inr)
  have k: "it_kind it = k" using loadItem_in[OF it(1)] assms(2) by (cases k; cases "it_kind it") (auto simp: kind_str_def)
  have "item_score db' k (hv_ID c) = Some (int (votes_for k (hv_ID c) db'))"
  proof -
    have same: "item_score (db\<lparr>votes := w\<rparr>) k i = item_score db k i" for w i
      by (cases k) (simp_all add: item_score_def get_post_def get_comment_def)
    show ?thesis
      using loadItem_score[OF it(1)] unfolding it(5) k votes_recount
      by (intro item_score_recount) (simp add: same)
  qed
  moreover have "has_key vote_key (k, hv_ID c, hv_UserID c) (votes db') = hv_On c"
    unfolding it(5) k by (auto simp: votes_recount ins_ignore_def has_key_iff vote_key_def)
  moreover have "has_key vote_key x (votes db') = has_key vote_key x (votes db)"
    if "x \<noteq> (k, hv_ID c, hv_UserID c)" for x
    using that unfolding it(5) k by (auto simp: votes_recount ins_ignore_def has_key_iff vote_key_def image_iff)
  ultimately show ?thesis using it(1-4) by blast
qed

lemma helpful_counts_votes_witness:
  "item_score (empty_group_db\<lparr>posts := [(new_post 7 (Some 1) ''t'' ''b'' 0 0)\<lparr>p_score := 1\<rparr>],
       votes := [\<lparr>v_kind = Post, v_item = 7, v_user = 2, v_created = 5\<rparr>],
       memberships := [\<lparr>m_user = 2, m_role = Member, m_status = Active, m_answers = [], m_banned_until = 0,
                         m_created = 0, m_digest_sent = 0\<rparr>]\<rparr>) Post 7
   = Some (int (votes_for Post 7 (empty_group_db\<lparr>votes := [\<lparr>v_kind = Post, v_item = 7, v_user = 2, v_created = 5\<rparr>]\<rparr>)))"
proof -
  let ?m = "\<lparr>m_user = 2, m_role = Member, m_status = Active, m_answers = [], m_banned_until = 0,
       m_created = 0, m_digest_sent = 0\<rparr>"
  let ?db = "empty_group_db\<lparr>posts := [new_post 7 (Some 1) ''t'' ''b'' 0 0], memberships := [?m]\<rparr>"
  let ?v = "\<lparr>v_kind = Post, v_item = 7, v_user = 2, v_created = 5\<rparr>"
  let ?c = "\<lparr>hv_GroupID = 1, hv_Kind = ''post'', hv_ID = 7, hv_UserID = 2, hv_On = True, hv_At = 5\<rparr>"
  have run: "run_plan (apply_Helpful ?c) ?db = Inr (VNil, ?db\<lparr>votes := [?v],
      posts := [(new_post 7 (Some 1) ''t'' ''b'' 0 0)\<lparr>p_score := 1\<rparr>]\<rparr>)"
    by (simp add: apply_Helpful_def run_nilTx requireMember_def get_member_def loadItem_def parse_kind_def
        the_post_def get_post_def null_int_def new_post_def ins_ignore_def recount_def upd_item_def
        votes_for_def affected_def empty_group_db_def)
  from helpful_counts_votes[OF run, of Post] show ?thesis
    by (simp add: kind_str_def item_score_def get_post_def votes_for_def)
qed

end
