(* ===== verification/Moderation.thy ===== *)
theory Moderation
  imports Engage
begin

text \<open>
  Moderation: \<^verbatim>\<open>internal/cmd/moderation.go\<close>. The AI check's verdicts, member reports
  and votes, a mod's approval, flags on posts, roles and bans (\<open>SuspendUser\<close>, which is the
  site's, is in the theory \<open>Site\<close>).
\<close>

section \<open>Verdicts\<close>

definition Categories :: "string list" where
  "Categories = [''mean'', ''off_topic'', ''spam'', ''unsafe'']"

abbreviation MemberVoteAge :: int where "MemberVoteAge \<equiv> 30 * 86400"

definition cut_reason :: "string \<Rightarrow> string" where
  "cut_reason reason =
     (let r = TrimSpace reason in if rune_count r > 200 then rune_take 200 r else reason)"

definition applyVerdict :: "int \<Rightarrow> string \<Rightarrow> int \<Rightarrow> string \<Rightarrow> string \<Rightarrow> string \<Rightarrow> int \<Rightarrow> group_db
    \<Rightarrow> go_error + (int \<times> int) list \<times> group_db" where
  "applyVerdict groupID k i verdict category0 reason0 at db =
     (if verdict \<noteq> ''borderline'' \<and> verdict \<noteq> ''violation'' then Inr ([], db)
      else bindE (loadItem db k i) (\<lambda>it.
        if it_cleared it \<or> \<not> shown (it_status it) then Inr ([], db)
        else
          let category = (if category0 \<in> set Categories then category0 else []);
              reason = cut_reason reason0;
              (to, action) = (if verdict = ''violation'' then (AutoHidden, ''auto_hide'') else (Flagged, ''flag''))
          in if verdict \<noteq> ''violation'' \<and> it_status it = Flagged then Inr ([], db)
             else bindE (changeStatus groupID it to at db) (\<lambda>(refs, db1).
               let db2 = setFlag it ''auto'' category reason db1
               in Inr (refs, modLog 0 action k i (TrimSpace (category @ '': '' @ reason)) at db2))))"

record SetCommentCheck =
  scc_GroupID :: int
  scc_JobID :: int
  scc_Worker :: string
  scc_CommentID :: int
  scc_Version :: int
  scc_Verdict :: string
  scc_Category :: string
  scc_Reason :: string
  scc_At :: int

definition apply_SetCommentCheck :: "SetCommentCheck \<Rightarrow> group_db plan" where
  "apply_SetCommentCheck c = nilTx (\<lambda>db.
     bindE (the_comment db (scc_CommentID c)) (\<lambda>cm.
     let (ok, db1) = finishJob (scc_JobID c) (scc_Worker c) (scc_Version c) (c_version cm) (scc_At c) db in
     if \<not> ok then Inr db1
     else bindE (applyVerdict (scc_GroupID c) ''comment'' (scc_CommentID c) (scc_Verdict c) (scc_Category c)
                   (scc_Reason c) (scc_At c) db1) (\<lambda>(refs, db2). Inr db2)))"

section \<open>Approving, reporting, voting\<close>

definition clear_flags :: "kind \<Rightarrow> int \<Rightarrow> group_db \<Rightarrow> group_db" where
  "clear_flags k i =
     upd_item k i
       (\<lambda>p. p\<lparr>p_ai_cleared := True, p_flagged_by := None, p_flag_category := None, p_flag_reason := None\<rparr>)
       (\<lambda>q. q\<lparr>c_ai_cleared := True, c_flagged_by := None, c_flag_category := None, c_flag_reason := None\<rparr>)"

definition flagged_by :: "group_db \<Rightarrow> kind \<Rightarrow> int \<Rightarrow> string option" where
  "flagged_by db k i =
     (case k of
        Post \<Rightarrow> (case get_post db i of None \<Rightarrow> None | Some p \<Rightarrow> p_flagged_by p)
      | Comment \<Rightarrow> (case get_comment db i of None \<Rightarrow> None | Some q \<Rightarrow> c_flagged_by q))"

definition post_version :: "group_db \<Rightarrow> int \<Rightarrow> int" where
  "post_version db i = (case get_post db i of None \<Rightarrow> 0 | Some p \<Rightarrow> p_version p)"

definition comment_version :: "group_db \<Rightarrow> int \<Rightarrow> int" where
  "comment_version db i = (case get_comment db i of None \<Rightarrow> 0 | Some q \<Rightarrow> c_version q)"

record Approve =
  ap_GroupID :: int
  ap_Kind :: string
  ap_ID :: int
  ap_By :: int
  ap_At :: int

definition apply_Approve :: "Approve \<Rightarrow> group_db plan" where
  "apply_Approve c = nilTx (\<lambda>db.
     bindE (loadItem db (ap_Kind c) (ap_ID c)) (\<lambda>it.
     failIf (it_status it = Removed \<or> it_status it = Deleted)
       (Invalid ''use Restore for a removed or deleted item'') (
     let who = flagged_by db (it_kind it) (ap_ID c);
         wasHeld = (it_status it = Held)
     in bindE (changeStatus (ap_GroupID c) it Visible (ap_At c) db) (\<lambda>(refs, db1).
        let db2 = clear_flags (it_kind it) (ap_ID c) db1;
            db3 = resolveReports it (ap_At c) db2;
            db4 = (if null_str who = ''auto'' then modExample it Keep (ap_At c) db3 else db3);
            db5 = (if wasHeld then authorNotice it NoteApproved (ap_By c) (ap_At c) db4 else db4);
            db6 = (if wasHeld \<and> it_kind it = Post
                   then schedule JobCheck (ap_ID c) (post_version db5 (ap_ID c)) (ap_At c) (ap_At c) db5
                   else db5)
        in Inr (modLog (ap_By c) (if wasHeld then ''approve_held'' else ''approve'')
                  (ap_Kind c) (ap_ID c) [] (ap_At c) db6)))))"

record Report =
  rt_GroupID :: int
  rt_Kind :: string
  rt_ID :: int
  rt_UserID :: int
  rt_Reason :: string
  rt_At :: int

definition report_key :: "report \<Rightarrow> kind \<times> int \<times> int" where
  "report_key r = (rp_kind r, rp_item r, rp_user r)"

definition apply_Report :: "Report \<Rightarrow> group_db plan" where
  "apply_Report c =
     (let reason = TrimSpace (rt_Reason c) in
      if length reason > 500 then Refuse (Invalid ''a report's reason can be up to 500 characters'')
      else nilTx (\<lambda>db.
        bindE (requireMember db (rt_UserID c)) (\<lambda>_.
        bindE (loadItem db (rt_Kind c) (rt_ID c)) (\<lambda>it.
        failIf (it_author it = rt_UserID c) (Invalid ''that's your own'') (
        let db1 = db\<lparr>reports := upsert report_key
                      \<lparr>rp_kind = it_kind it, rp_item = rt_ID c, rp_user = rt_UserID c, rp_reason = reason,
                       rp_created = rt_At c, rp_resolved = None\<rparr>
                      (\<lambda>r. r\<lparr>rp_reason := reason, rp_resolved := None\<rparr>) (reports db)\<rparr>
        in bindE (if it_status it = Visible \<and> \<not> it_cleared it
                  then bindE (changeStatus (rt_GroupID c) it Flagged (rt_At c) db1) (\<lambda>(refs, db2).
                       Inr (setFlag it ''report'' [] reason db2))
                  else Inr db1) (\<lambda>db3.
           Inr (case it_kind it of
                  Post \<Rightarrow> schedule JobCheck (rt_ID c) (post_version db3 (rt_ID c)) (rt_At c) (rt_At c) db3
                | Comment \<Rightarrow> schedule JobCheckComment (rt_ID c) (comment_version db3 (rt_ID c)) (rt_At c) (rt_At c) db3)))))))"

record Vote =
  vt_GroupID :: int
  vt_Kind :: string
  vt_ID :: int
  vt_UserID :: int
  vt_Vote :: string
  vt_At :: int

definition ErrCantVote :: go_error where
  "ErrCantVote = Invalid ''votes on flagged posts are for members of at least 30 days who have posted in the group, and not for anyone in the disagreement''"

definition canVote :: "group_db \<Rightarrow> item \<Rightarrow> int \<Rightarrow> int \<Rightarrow> go_error + unit" where
  "canVote db it userID at =
     (case get_member db userID of
        None \<Rightarrow> Inl ErrCantVote
      | Some m \<Rightarrow>
        if m_status m \<noteq> Active \<or> m_created m > at - MemberVoteAge \<or> userID = it_author it then Inl ErrCantVote
        else if shown_count db userID = 0 then Inl ErrCantVote
        else if it_kind it = Comment
                \<and> affected (\<lambda>q. c_user q = Some userID \<and> (c_id q = it_parent it \<or> c_parent q = Some (it_id it))) (comments db) > 0
        then Inl ErrCantVote
        else Inr ())"

definition flag_vote_key :: "flag_vote \<Rightarrow> kind \<times> int \<times> int" where
  "flag_vote_key v = (fv_kind v, fv_item v, fv_user v)"

definition tally :: "vote \<Rightarrow> kind \<Rightarrow> int \<Rightarrow> group_db \<Rightarrow> int" where
  "tally w k i db = int (affected (\<lambda>v. fv_kind v = k \<and> fv_item v = i \<and> fv_vote v = w) (flag_votes db))"

definition parse_vote :: "string \<Rightarrow> vote option" where
  "parse_vote s = (if s = ''keep'' then Some Keep else if s = ''hide'' then Some Hide else None)"

definition set_flagged_by_vote :: "kind \<Rightarrow> int \<Rightarrow> group_db \<Rightarrow> group_db" where
  "set_flagged_by_vote k i =
     upd_item k i (\<lambda>p. p\<lparr>p_flagged_by := Some ''vote''\<rparr>) (\<lambda>q. q\<lparr>c_flagged_by := Some ''vote''\<rparr>)"

definition vote_tx :: "Vote \<Rightarrow> vote \<Rightarrow> group_db \<Rightarrow> go_error + retval \<times> group_db" where
  "vote_tx c w db =
     bindE (loadItem db (vt_Kind c) (vt_ID c)) (\<lambda>it.
     failIf (it_status it \<noteq> Flagged) (Invalid ''only flagged items get votes'') (
     bindE (canVote db it (vt_UserID c) (vt_At c)) (\<lambda>_.
     let k = it_kind it;
         db1 = db\<lparr>flag_votes := upsert flag_vote_key
                   \<lparr>fv_kind = k, fv_item = vt_ID c, fv_user = vt_UserID c, fv_vote = w, fv_created = vt_At c\<rparr>
                   (\<lambda>v. v\<lparr>fv_vote := w\<rparr>) (flag_votes db)\<rparr>;
         keeps = tally Keep k (vt_ID c) db1;
         hides = tally Hide k (vt_ID c) db1
     in case settings_row db1 of
          None \<Rightarrow> Inl SqlNoRows
        | Some s \<Rightarrow>
          if hides \<ge> s_vote_threshold s \<and> hides > keeps then
            bindE (changeStatus (vt_GroupID c) it AutoHidden (vt_At c) db1) (\<lambda>(refs, db2).
            Inr (VStr ''hidden'', modLog 0 ''vote_hide'' (vt_Kind c) (vt_ID c) [] (vt_At c)
                                     (set_flagged_by_vote k (vt_ID c) db2)))
          else if keeps \<ge> s_vote_threshold s then
            bindE (changeStatus (vt_GroupID c) it Visible (vt_At c) db1) (\<lambda>(refs, db2).
            Inr (VStr ''kept'', modLog 0 ''vote_keep'' (vt_Kind c) (vt_ID c) [] (vt_At c)
                                   (clear_flags k (vt_ID c) db2)))
          else Inr (VStr [], db1))))"

definition apply_Vote :: "Vote \<Rightarrow> group_db plan" where
  "apply_Vote c =
     (case parse_vote (vt_Vote c) of
        None \<Rightarrow> Refuse (Invalid ''a vote is keep or hide'')
      | Some w \<Rightarrow> Tx (VStr []) (vote_tx c w))"

section \<open>Lock and pin\<close>

record SetPostFlag =
  sp_GroupID :: int
  sp_PostID :: int
  sp_Flag :: string
  sp_On :: bool
  sp_By :: int
  sp_At :: int

definition apply_SetPostFlag :: "SetPostFlag \<Rightarrow> group_db plan" where
  "apply_SetPostFlag c =
     (if sp_Flag c \<noteq> ''locked'' \<and> sp_Flag c \<noteq> ''pinned'' then Refuse (Invalid ''unknown flag'')
      else nilTx (\<lambda>db.
        failIf (affected (\<lambda>p. p_id p = sp_PostID c) (posts db) = 0) ErrGone (
        let db1 = db\<lparr>posts := upd_where (\<lambda>p. p_id p = sp_PostID c)
                     (\<lambda>p. if sp_Flag c = ''locked'' then p\<lparr>p_locked := sp_On c\<rparr> else p\<lparr>p_pinned := sp_On c\<rparr>) (posts db)\<rparr>;
            action0 = (if sp_Flag c = ''locked'' then ''lock'' else ''pin'');
            action = (if \<not> sp_On c then ''un'' @ action0 else action0)
        in Inr (modLog (sp_By c) action ''post'' (sp_PostID c) [] (sp_At c) db1))))"

section \<open>Roles and bans\<close>

definition parse_role :: "string \<Rightarrow> role option" where
  "parse_role s = (if s = ''owner'' then Some Owner else if s = ''mod'' then Some Mod
     else if s = ''member'' then Some Member else None)"

definition owners :: "group_db \<Rightarrow> nat" where
  "owners db = affected (\<lambda>m. m_role m = Owner \<and> m_status m = Active) (memberships db)"

definition upd_member :: "int \<Rightarrow> (membership \<Rightarrow> membership) \<Rightarrow> group_db \<Rightarrow> group_db" where
  "upd_member u f db = db\<lparr>memberships := upd_where (\<lambda>m. m_user m = u) f (memberships db)\<rparr>"

record SetRole =
  sr_GroupID :: int
  sr_UserID :: int
  sr_Role :: string
  sr_By :: int
  sr_At :: int

definition apply_SetRole :: "SetRole \<Rightarrow> group_db plan" where
  "apply_SetRole c =
     (case parse_role (sr_Role c) of
        None \<Rightarrow> Refuse (Invalid ''a role is owner, mod or member'')
      | Some r \<Rightarrow> nilTx (\<lambda>db.
        case get_member db (sr_UserID c) of
          None \<Rightarrow> Inl (Invalid ''only an active member can be given a role'')
        | Some m \<Rightarrow>
          failIf (m_status m \<noteq> Active) (Invalid ''only an active member can be given a role'') (
          failIf (m_role m = Owner \<and> r \<noteq> Owner \<and> owners db \<le> 1) (Invalid ''a group needs at least one owner'') (
          Inr (modLog (sr_By c) (''role_'' @ sr_Role c) ''user'' (sr_UserID c) [] (sr_At c)
                 (upd_member (sr_UserID c) (\<lambda>x. x\<lparr>m_role := r\<rparr>) db))))))"

record Ban =
  bn_GroupID :: int
  bn_UserID :: int
  bn_Until :: int
  bn_Reason :: string
  bn_By :: int
  bn_ByOperator :: bool
  bn_At :: int

definition new_member :: "int \<Rightarrow> role \<Rightarrow> mstatus \<Rightarrow> string \<Rightarrow> int \<Rightarrow> int \<Rightarrow> membership" where
  "new_member u r st answers until at = \<lparr>m_user = u, m_role = r, m_status = st, m_answers = answers,
     m_banned_until = until, m_created = at, m_digest_sent = 0\<rparr>"

definition apply_Ban :: "Ban \<Rightarrow> group_db plan" where
  "apply_Ban c =
     (if bn_Until c \<noteq> 0 \<and> bn_Until c \<le> bn_At c then Refuse (Invalid ''a ban has to end in the future'')
      else if bn_UserID c = bn_By c then Refuse (Invalid ''you can't ban yourself'')
      else nilTx (\<lambda>db.
        let r = map_option m_role (get_member db (bn_UserID c));
            byRole = (case get_member db (bn_By c) of None \<Rightarrow> None
                      | Some m \<Rightarrow> if m_status m = Active then Some (m_role m) else None)
        in failIf (r = Some Owner) (Invalid ''an owner can't be banned; make them a member first'') (
           failIf (r = Some Mod \<and> byRole \<noteq> Some Owner \<and> \<not> bn_ByOperator c)
             (Invalid ''only an owner can ban a moderator'') (
           let db1 = db\<lparr>memberships := upsert m_user
                         (new_member (bn_UserID c) Member Banned [] (bn_Until c) (bn_At c))
                         (\<lambda>m. m\<lparr>m_role := Member, m_status := Banned, m_banned_until := bn_Until c\<rparr>)
                         (memberships db)\<rparr>
           in Inr (modLog (bn_By c) ''ban'' ''user'' (bn_UserID c) (TrimSpace (bn_Reason c)) (bn_At c) db1)))))"

record Unban =
  ub_GroupID :: int
  ub_UserID :: int
  ub_By :: int
  ub_At :: int

definition apply_Unban :: "Unban \<Rightarrow> group_db plan" where
  "apply_Unban c = nilTx (\<lambda>db.
     Inr (modLog (ub_By c) ''unban'' ''user'' (ub_UserID c) [] (ub_At c)
       (db\<lparr>memberships := del_where (\<lambda>m. m_user m = ub_UserID c \<and> m_status m = Banned) (memberships db)\<rparr>)))"

section \<open>They keep posts, comments and the index in step\<close>

lemma core_clear_flags [frame]: "core (clear_flags k i db) = core db"
  unfolding clear_flags_def by (rule core_upd_item) (simp_all add: post_core_def comment_core_def)

lemma core_set_flagged_by_vote [frame]: "core (set_flagged_by_vote k i db) = core db"
  unfolding set_flagged_by_vote_def by (rule core_upd_item) (simp_all add: post_core_def comment_core_def)

lemma core_upd_member [frame]: "core (upd_member u f db) = core db"
  by (simp add: upd_member_def core_def)

lemmas mod_ok_frame = ok_frame core_clear_flags[THEN group_ok_core]
  core_set_flagged_by_vote[THEN group_ok_core] core_upd_member[THEN group_ok_core]

lemma core_posts_upd:
  "(\<And>p. post_core (f p) = post_core p) \<Longrightarrow> core (db\<lparr>posts := upd_where P f (posts db)\<rparr>) = core db"
  by (simp add: core_def map_upd_where)

text \<open>A change of status of a loaded item that is not gone, through \<open>changeStatus\<close>.\<close>

lemma changeStatus_core_ok:
  assumes "group_ok db" "loadItem db k i = Inr it" "core db1 = core db" "\<not> gone (it_status it)"
    "changeStatus g it to at db1 = Inr (refs, db2)"
  shows "group_ok db2"
proof -
  have "group_ok db1" using assms(1,3) by (simp only: group_ok_def)
  moreover have "item_in it db1" using loadItem_in[OF assms(2)] item_in_core[OF assms(3)] by simp
  ultimately show ?thesis using changeStatus_ok assms(4,5) by blast
qed

lemma applyVerdict_ok:
  assumes "group_ok db" "applyVerdict g k i v cat why at db = Inr (refs, db')"
  shows "group_ok db'"
proof (cases "db' = db")
  case False
  then obtain it to refs' db2 where it: "loadItem db k i = Inr it" "shown (it_status it)"
    "changeStatus g it to at db = Inr (refs', db2)" and eq: "core db' = core db2"
    using assms(2) by (auto simp: applyVerdict_def bind_iffs Let_def frame split: if_splits)
  have "group_ok db2" using changeStatus_core_ok[OF assms(1) it(1) refl _ it(3)] it(2) not_gone_shown by blast
  with eq show ?thesis by (simp only: group_ok_def)
qed (simp add: assms(1))

lemma SetCommentCheck_ok: "keeps group_ok (apply_SetCommentCheck c)"
  unfolding apply_SetCommentCheck_def keeps_nilTx
proof (intro allI impI okE_bind_any, goal_cases)
  case (1 db cm)
  obtain ok db1 where f: "finishJob (scc_JobID c) (scc_Worker c) (scc_Version c) (c_version cm) (scc_At c) db = (ok, db1)"
    by fastforce
  have "group_ok db1" using core_finishJob[OF f] 1(1) by (simp only: group_ok_def)
  with f show ?case by (auto simp: okE_iff bind_iffs dest: applyVerdict_ok split: prod.splits)
qed

lemma Approve_step:
  assumes "group_ok db" "loadItem db k i = Inr it" "\<not> (it_status it = Removed \<or> it_status it = Deleted)"
    "changeStatus g it Visible at db = Inr (refs, db1)"
  shows "group_ok db1"
  using changeStatus_core_ok[OF assms(1,2) refl _ assms(4)] assms(3) by (simp add: gone_def)

lemma Approve_ok: "keeps group_ok (apply_Approve c)"
  unfolding apply_Approve_def keeps_nilTx
proof (intro allI impI okE_bind_any okE_failIf, unfold Let_def, intro okE_bind_any, goal_cases)
  case (1 db it x)
  obtain refs db1 where x: "x = (refs, db1)" by (cases x)
  have "group_ok db1" using Approve_step[OF 1(1-3) 1(4)[unfolded x]] .
  then show ?case
    by (simp only: x prod.case okE_simps mod_ok_frame if_distrib[of group_ok] if_cancel)
qed

lemma Report_ok: "keeps group_ok (apply_Report c)"
proof -
  have step: "group_ok db3"
    if ok: "group_ok db" and it: "loadItem db (rt_Kind c) (rt_ID c) = Inr it"
      and c1: "core db1 = core db"
      and run: "(if it_status it = Visible \<and> \<not> it_cleared it
                  then bindE (changeStatus (rt_GroupID c) it Flagged (rt_At c) db1) (\<lambda>(refs, db2).
                       Inr (setFlag it ''report'' [] reason db2))
                  else Inr db1) = Inr db3"
    for db it db1 db3 reason
  proof (cases "it_status it = Visible \<and> \<not> it_cleared it")
    case True
    then obtain refs db2 where "changeStatus (rt_GroupID c) it Flagged (rt_At c) db1 = Inr (refs, db2)"
      "core db3 = core db2" using run by (auto simp: bind_iffs frame)
    moreover have "\<not> gone (it_status it)" using True by (simp add: gone_def)
    ultimately show ?thesis using changeStatus_core_ok[OF ok it c1] unfolding group_ok_def by metis
  qed (use run c1 ok in \<open>auto simp: group_ok_def\<close>)
  show ?thesis
    unfolding apply_Report_def Let_def
    by (intro keeps_if keeps_Refuse, unfold keeps_nilTx, intro allI impI okE_bind_any okE_failIf)
      (drule (1) step[rotated 2, rotated 1], auto simp: frame mod_ok_frame split: kind.splits)
qed

lemma vote_tx_ok:
  assumes "group_ok db"
  shows "okE (\<lambda>(v, db'). group_ok db') (vote_tx c w db)"
proof -
  have step: "group_ok db2"
    if "loadItem db (vt_Kind c) (vt_ID c) = Inr it" "it_status it = Flagged"
      "changeStatus (vt_GroupID c) it to (vt_At c) (db\<lparr>flag_votes := fv\<rparr>) = Inr (refs, db2)"
    for it to fv refs db2
    using changeStatus_core_ok[OF assms that(1) _ _ that(3)] that(2) by (simp add: frame gone_def)
  show ?thesis
    using assms unfolding vote_tx_def Let_def
    by (intro okE_bind_any okE_failIf)
      (auto simp: okE_iff bind_iffs mod_ok_frame frame core_tables[THEN group_ok_core]
        dest!: step split: option.splits if_splits)
qed

lemma Vote_ok: "keeps group_ok (apply_Vote c)"
  unfolding apply_Vote_def by (auto intro!: keepsI vote_tx_ok split: option.splits)

lemma SetPostFlag_ok: "keeps group_ok (apply_SetPostFlag c)"
proof -
  have "core (db\<lparr>posts := upd_where P (\<lambda>p. if b then p\<lparr>p_locked := x\<rparr> else p\<lparr>p_pinned := x\<rparr>) (posts db)\<rparr>) = core db"
    for db P b x
    by (rule core_posts_upd) (simp add: post_core_def)
  then show ?thesis
    unfolding apply_SetPostFlag_def Let_def
    by (intro keeps_if keeps_Refuse keeps_core) (auto simp: bind_iffs frame)
qed

lemma SetRole_ok: "keeps group_ok (apply_SetRole c)"
  unfolding apply_SetRole_def
  by (cases "parse_role (sr_Role c)") (auto intro!: keeps_core simp: bind_iffs frame split: option.splits)

lemma Ban_ok: "keeps group_ok (apply_Ban c)"
  unfolding apply_Ban_def Let_def
  by (intro keeps_if keeps_Refuse keeps_core) (auto simp: bind_iffs frame)

lemma Unban_ok: "keeps group_ok (apply_Unban c)"
  unfolding apply_Unban_def by (intro keeps_core) (auto simp: frame)

end
