(* ===== verification/Members.thy ===== *)
theory Members
  imports Moderation
begin

text \<open>
  Joining, invites, leaving and revealing an anonymous author:
  \<^verbatim>\<open>internal/cmd/members.go\<close>, and what holds of a group's memberships across these
  commands and those of \<open>Moderation\<close>: an owner is active, and a group that has an owner
  keeps one; an invite is never used more often than it may be.
\<close>

section \<open>Joining\<close>

abbreviation MaxJoinAnswers :: nat where "MaxJoinAnswers \<equiv> 2000"
abbreviation MaxInviteUses :: int where "MaxInviteUses \<equiv> 1000"
abbreviation MaxInviteDays :: int where "MaxInviteDays \<equiv> 90"

definition alnum :: "char \<Rightarrow> bool" where
  "alnum c \<longleftrightarrow> (let n = byte c in between 48 57 n \<or> between 65 90 n \<or> between 97 122 n)"

text \<open>\<open>inviteCodeRE\<close>: eight to forty letters and digits.\<close>

definition inviteCode :: "string \<Rightarrow> bool" where
  "inviteCode s \<longleftrightarrow> 8 \<le> length s \<and> length s \<le> 40 \<and> list_all alnum s"

record JoinGroup =
  jg_GroupID :: int
  jg_UserID :: int
  jg_Answers :: string
  jg_Invite :: string
  jg_At :: int

definition invite_good :: "string \<Rightarrow> int \<Rightarrow> invite \<Rightarrow> bool" where
  "invite_good code at i \<longleftrightarrow> i_code i = code \<and> \<not> i_revoked i \<and> i_uses i < i_max_uses i \<and> i_expires i > at"

definition useInvite :: "string \<Rightarrow> int \<Rightarrow> group_db \<Rightarrow> bool \<times> group_db" where
  "useInvite code at db =
     (affected (invite_good code at) (invites db) = 1,
      db\<lparr>invites := upd_where (invite_good code at) (\<lambda>i. i\<lparr>i_uses := i_uses i + 1\<rparr>) (invites db)\<rparr>)"

definition mstatus_str :: "mstatus \<Rightarrow> string" where
  "mstatus_str s = (case s of Active \<Rightarrow> ''active'' | Pending \<Rightarrow> ''pending'' | Banned \<Rightarrow> ''banned'')"

text \<open>The row written when someone joins with status \<open>st\<close>.\<close>

definition join_row :: "JoinGroup \<Rightarrow> bool \<Rightarrow> mstatus \<Rightarrow> group_db \<Rightarrow> go_error + retval \<times> group_db" where
  "join_row c have_row st db =
     (let answers = TrimSpace (jg_Answers c) in
      if have_row
      then Inr (VStr (mstatus_str st),
             upd_member (jg_UserID c)
               (\<lambda>m. m\<lparr>m_status := st, m_banned_until := 0, m_answers := (if answers = [] then m_answers m else answers)\<rparr>) db)
      else bindE (ins_new m_user (new_member (jg_UserID c) Member st answers 0 (jg_At c)) (memberships db))
             (\<lambda>t. Inr (VStr (mstatus_str st), db\<lparr>memberships := t\<rparr>)))"

definition join_tx :: "JoinGroup \<Rightarrow> group_db \<Rightarrow> go_error + retval \<times> group_db" where
  "join_tx c db =
     (let row = get_member db (jg_UserID c);
          have_row = (row \<noteq> None);
          banned = (case row of Some m \<Rightarrow> m_status m = Banned | None \<Rightarrow> False);
          until = (case row of Some m \<Rightarrow> m_banned_until m | None \<Rightarrow> 0);
          existing = (if banned then None else map_option m_status row)
      in failIf (banned \<and> (until = 0 \<or> until > jg_At c)) (Invalid ''you can't join this group'') (
         if existing = Some Active then Inr (VStr ''active'', db)
         else
           let (ok, db1) = (if jg_Invite c \<noteq> [] then useInvite (jg_Invite c) (jg_At c) db else (True, db));
               invited = (jg_Invite c \<noteq> [])
           in failIf (\<not> ok) (Invalid ''that invite link has expired or been used up'') (
              case settings_row db1 of
                None \<Rightarrow> Inl SqlNoRows
              | Some s \<Rightarrow>
                if invited \<or> s_join_policy s = Open then join_row c have_row Active db1
                else if existing = Some Pending then Inr (VStr ''pending'', db1)
                else if s_join_policy s = InviteOnly then Inl (Invalid ''this group is by invitation only'')
                else failIf (TrimSpace (s_join_questions s) \<noteq> [] \<and> TrimSpace (jg_Answers c) = [])
                       (Invalid ''please answer the group's questions'') (
                     join_row c have_row Pending db1))))"

definition apply_JoinGroup :: "JoinGroup \<Rightarrow> group_db plan" where
  "apply_JoinGroup c =
     (if length (TrimSpace (jg_Answers c)) > MaxJoinAnswers
      then Refuse (Invalid ''answers can be up to 2000 characters'')
      else Tx (VStr []) (join_tx c))"

record ReviewJoin =
  rj_GroupID :: int
  rj_UserID :: int
  rj_Approve :: bool
  rj_By :: int
  rj_At :: int

definition apply_ReviewJoin :: "ReviewJoin \<Rightarrow> group_db plan" where
  "apply_ReviewJoin c = nilTx (\<lambda>db.
     failIf (map_option m_status (get_member db (rj_UserID c)) \<noteq> Some Pending)
       (Invalid ''that request has already been answered'') (
     let db1 = (if rj_Approve c
                then notify (rj_UserID c) NoteJoined 0 0 (rj_By c) (rj_At c)
                       (upd_member (rj_UserID c) (\<lambda>m. m\<lparr>m_status := Active\<rparr>) db)
                else db\<lparr>memberships := del_where (\<lambda>m. m_user m = rj_UserID c) (memberships db)\<rparr>);
         action = (if rj_Approve c then ''approve_join'' else ''decline_join'')
     in Inr (modLog (rj_By c) action ''user'' (rj_UserID c) [] (rj_At c) db1)))"

section \<open>Invites\<close>

record CreateInvite =
  ci_GroupID :: int
  ci_Code :: string
  ci_MaxUses :: int
  ci_ExpiresAt :: int
  ci_By :: int
  ci_At :: int

definition apply_CreateInvite :: "CreateInvite \<Rightarrow> group_db plan" where
  "apply_CreateInvite c =
     (if \<not> inviteCode (ci_Code c) then Refuse (Invalid ''bad invite code'')
      else if ci_MaxUses c < 1 \<or> ci_MaxUses c > MaxInviteUses
      then Refuse (Invalid ''an invite can be used 1 to 1000 times'')
      else if ci_ExpiresAt c \<le> ci_At c \<or> ci_ExpiresAt c > ci_At c + MaxInviteDays * 86400
      then Refuse (Invalid ''an invite lasts 1 to 90 days'')
      else nilTx (\<lambda>db.
        bindE (ins_new i_code
                 \<lparr>i_code = ci_Code c, i_created_by = ci_By c, i_max_uses = ci_MaxUses c, i_uses = 0,
                  i_expires = ci_ExpiresAt c, i_created = ci_At c, i_revoked = False\<rparr> (invites db)) (\<lambda>t.
        Inr (modLog (ci_By c) ''create_invite'' ''invite'' 0 [] (ci_At c) (db\<lparr>invites := t\<rparr>)))))"

record RevokeInvite =
  ri_GroupID :: int
  ri_Code :: string
  ri_By :: int
  ri_At :: int

definition apply_RevokeInvite :: "RevokeInvite \<Rightarrow> group_db plan" where
  "apply_RevokeInvite c = nilTx (\<lambda>db.
     Inr (modLog (ri_By c) ''revoke_invite'' ''invite'' 0 [] (ri_At c)
       (db\<lparr>invites := upd_where (\<lambda>i. i_code i = ri_Code c) (\<lambda>i. i\<lparr>i_revoked := True\<rparr>) (invites db)\<rparr>)))"

section \<open>Leaving, and looking up an author\<close>

record LeaveGroup =
  lg_GroupID :: int
  lg_UserID :: int
  lg_At :: int

definition apply_LeaveGroup :: "LeaveGroup \<Rightarrow> group_db plan" where
  "apply_LeaveGroup c = nilTx (\<lambda>db.
     case get_member db (lg_UserID c) of
       None \<Rightarrow> Inr db
     | Some m \<Rightarrow>
       if m_status m = Banned then Inr db
       else failIf (m_role m = Owner \<and> owners db \<le> 1)
              (Invalid ''you're this group's only owner; make someone else an owner first'') (
            Inr (db\<lparr>memberships := del_where (\<lambda>x. m_user x = lg_UserID c) (memberships db)\<rparr>)))"

record RevealAuthor =
  ra_GroupID :: int
  ra_Kind :: string
  ra_ID :: int
  ra_By :: int
  ra_Reason :: string
  ra_At :: int

definition author_row :: "group_db \<Rightarrow> kind \<Rightarrow> int \<Rightarrow> go_error + int option \<times> bool" where
  "author_row db k i =
     (case k of
        Post \<Rightarrow> bindE (the_post db i) (\<lambda>p. Inr (p_user p, p_anonymous p))
      | Comment \<Rightarrow> bindE (the_comment db i) (\<lambda>q. Inr (c_user q, c_anonymous q)))"

definition apply_RevealAuthor :: "RevealAuthor \<Rightarrow> group_db plan" where
  "apply_RevealAuthor c =
     (let reason = TrimSpace (ra_Reason c) in
      if reason = [] \<or> length reason > 500
      then Refuse (Invalid ''say why (up to 500 characters); it goes in the mod log'')
      else case parse_kind (ra_Kind c) of
        None \<Rightarrow> Refuse (Invalid ''unknown kind'')
      | Some k \<Rightarrow> Tx (VInt 0) (\<lambda>db.
        bindE (author_row db k (ra_ID c)) (\<lambda>(uid, anon).
        failIf (\<not> anon) (Invalid ''that isn't anonymous'') (
        Inr (VInt (null_int uid),
             modLog (ra_By c) ''reveal_author'' (ra_Kind c) (ra_ID c) reason (ra_At c) db)))))"

section \<open>They keep posts, comments and the index in step\<close>

lemma core_useInvite: "core (snd (useInvite code at db)) = core db"
  by (simp add: useInvite_def frame)

lemma core_join_row: "join_row c h st db = Inr (v, db') \<Longrightarrow> core db' = core db"
  by (auto simp: join_row_def Let_def bind_iffs frame split: if_splits)

lemma core_join_tx: "join_tx c db = Inr (v, db') \<Longrightarrow> core db' = core db"
  by (auto simp: join_tx_def Let_def bind_iffs useInvite_def frame dest!: core_join_row
      split: option.splits if_splits)

lemma keeps_core_tx:
  "(\<And>db v db'. fn db = Inr (v, db') \<Longrightarrow> core db' = core db) \<Longrightarrow> keeps group_ok (Tx z fn)"
  by (rule keepsI) (fastforce simp: okE_iff group_ok_def)

lemma JoinGroup_ok: "keeps group_ok (apply_JoinGroup c)"
  unfolding apply_JoinGroup_def by (auto intro!: keeps_core_tx core_join_tx)

lemma ReviewJoin_ok: "keeps group_ok (apply_ReviewJoin c)"
  unfolding apply_ReviewJoin_def by (rule keeps_core) (auto simp: bind_iffs Let_def frame split: if_splits)

lemma CreateInvite_ok: "keeps group_ok (apply_CreateInvite c)"
  unfolding apply_CreateInvite_def by (intro keeps_if keeps_Refuse keeps_core) (auto simp: bind_iffs frame)

lemma RevokeInvite_ok: "keeps group_ok (apply_RevokeInvite c)"
  unfolding apply_RevokeInvite_def by (rule keeps_core) (auto simp: frame)

lemma LeaveGroup_ok: "keeps group_ok (apply_LeaveGroup c)"
  unfolding apply_LeaveGroup_def by (rule keeps_core) (auto simp: bind_iffs frame split: option.splits if_splits)

lemma RevealAuthor_ok: "keeps group_ok (apply_RevealAuthor c)"
  unfolding apply_RevealAuthor_def Let_def
  by (auto intro!: keeps_core_tx simp: bind_iffs frame split: option.splits)

section \<open>Who belongs to the group\<close>

text \<open>\<open>people\<close> is the part of a file that says who belongs to the group and how to join.
  Only the commands above, and \<open>DigestSent\<close>, change it.\<close>

definition people :: "group_db \<Rightarrow> membership list \<times> invite list \<times> settings option" where
  "people db = (memberships db, invites db, settings_row db)"

lemma people_simps [frame]:
  "people (schedule k r v a t db) = people db"
  "people (modLog ac ax y z rs t db) = people db"
  "people (send fc t db) = people db"
  "people (ftsPut fk i p ti b db) = people db"
  "people (ftsDel i db) = people db"
  "people (resolveReports it t db) = people db"
  "people (modExample it d t db) = people db"
  "people (add_comment_count n i db) = people db"
  "people (add_follow i p t db) = people db"
  by (simp_all add: people_def schedule_def modLog_def send_def ftsPut_def ftsDel_def resolveReports_def
      modExample_def Let_def add_comment_count_def add_follow_def)

lemma people_notify [frame]: "people (notify u k p r a t db) = people db"
  by (simp add: people_def notify_def)

lemma people_fold: "(\<And>x d. people (f x d) = people d) \<Longrightarrow> people (fold f xs db) = people db"
  by (induction xs arbitrary: db) simp_all

lemma people_folds [frame]:
  "people (notifyFollowers p k r a s t db) = people db"
  "people (sendSisterNotes g p rs sh t db) = people db"
  unfolding notifyFollowers_def sendSisterNotes_def
  by (rule people_fold, simp add: people_notify people_simps)+

lemma people_notices [frame]:
  "people (commentNotices p c r a t db) = people db"
  "people (authorNotice it k a t db) = people db"
  by (simp_all add: commentNotices_def authorNotice_def Let_def people_folds people_notify split: option.splits)

lemma people_upd_item [frame]: "people (upd_item k i fp fc db) = people db"
  by (cases k) (simp_all add: upd_item_def people_def)

lemma people_item_helpers [frame]:
  "people (setFlag it who cat why db) = people db" "people (clear_flags k i db) = people db"
  "people (set_flagged_by_vote k i db) = people db" "people (recount k i db) = people db"
  "people (set_status k i st db) = people db"
  by (simp_all add: setFlag_def clear_flags_def set_flagged_by_vote_def recount_def set_status_def people_upd_item)

lemma people_tables [frame]:
  "people (db\<lparr>votes := v\<rparr>) = people db" "people (db\<lparr>follows := f\<rparr>) = people db"
  "people (db\<lparr>notifications := n\<rparr>) = people db" "people (db\<lparr>reports := r\<rparr>) = people db"
  "people (db\<lparr>flag_votes := fv\<rparr>) = people db" "people (db\<lparr>jobs := j\<rparr>) = people db"
  "people (db\<lparr>posts := ps\<rparr>) = people db" "people (db\<lparr>comments := cs\<rparr>) = people db"
  "people (db\<lparr>revisions := rv\<rparr>) = people db" "people (db\<lparr>images := im\<rparr>) = people db"
  by (simp_all add: people_def)

lemma people_results:
  "threadChanged g p t db = Inr db' \<Longrightarrow> people db' = people db"
  "postEdited g p t db = Inr db' \<Longrightarrow> people db' = people db"
  "saveRevision k i ti b e u db = Inr db' \<Longrightarrow> people db' = people db"
  "insertImages p cm us im t db = Inr db' \<Longrightarrow> people db' = people db"
  "insert_comment x db = Inr db' \<Longrightarrow> people db' = people db"
  "finishJob j w v cur t db = (ok, db') \<Longrightarrow> people db' = people db"
proof -
  have tc: "people db' = people db" if "threadChanged g p t db = Inr db'" for g p t db db'
    using threadChanged_frame[OF that] by (simp add: people_def thread_frame_tables)
  show "threadChanged g p t db = Inr db' \<Longrightarrow> people db' = people db" by (rule tc)
  show "postEdited g p t db = Inr db' \<Longrightarrow> people db' = people db"
    by (auto simp: postEdited_def Let_def people_simps people_tables split: option.splits dest!: tc)
qed (auto simp: people_def finishJob_def insert_comment_Inr dest!: saveRevision_frame insertImages_frame split: prod.splits)

lemma people_changeStatus: "changeStatus g it to t db = Inr (refs, db') \<Longrightarrow> people db' = people db"
  by (auto simp: changeStatus_def Let_def bind_iffs frame dest!: people_results(1) split: if_splits)

text \<open>A plan that changes nobody's membership.\<close>

definition same_people :: "group_db plan \<Rightarrow> bool" where
  "same_people pl \<longleftrightarrow> (\<forall>db v db'. run_plan pl db = Inr (v, db') \<longrightarrow> people db' = people db)"

lemma same_people_simps [simp]: "same_people (Refuse e)" "same_people (NoTx v)"
  by (simp_all add: same_people_def)

lemma same_people_nilTx: "(\<And>db db'. fn db = Inr db' \<Longrightarrow> people db' = people db) \<Longrightarrow> same_people (nilTx fn)"
  by (auto simp: same_people_def run_nilTx bind_iffs)

lemma same_people_okE: "(\<And>db. okE (\<lambda>d. people d = people db) (fn db)) \<Longrightarrow> same_people (nilTx fn)"
  by (rule same_people_nilTx) (simp add: okE_iff)

lemma same_people_if: "(b \<Longrightarrow> same_people p) \<Longrightarrow> (\<not> b \<Longrightarrow> same_people q) \<Longrightarrow> same_people (if b then p else q)"
  by simp

lemma same_people_keeps:
  assumes "same_people pl" "\<And>a b. people a = people b \<Longrightarrow> P a = P b"
  shows "keeps P pl"
proof (rule keepsI)
  fix db assume P: "P db"
  have "P db'" if "run_plan pl db = Inr (v, db')" for v db'
  proof -
    have "people db' = people db" using assms(1) that unfolding same_people_def by blast
    from assms(2)[OF this] P show ?thesis by simp
  qed
  then show "okE (\<lambda>(v, db'). P db') (run_plan pl db)" by (simp add: okE_iff split_beta)
qed

lemma same_people_CreatePost: "same_people (apply_CreatePost c)"
  unfolding apply_CreatePost_def Let_def
  by (intro same_people_if same_people_simps same_people_okE okE_bind_any okE_failIf)
    (auto simp: frame dest!: people_results)

lemma same_people_EditPost: "same_people (apply_EditPost c)"
  unfolding apply_EditPost_def Let_def
  by (intro same_people_if same_people_simps same_people_okE okE_bind_any okE_failIf)
    (auto simp: frame dest!: people_results)

lemma same_people_CreateComment: "same_people (apply_CreateComment c)"
  unfolding apply_CreateComment_def Let_def
  by (intro same_people_if same_people_simps same_people_okE okE_bind_any okE_failIf)
    (auto simp: frame dest!: people_results)

lemma same_people_EditComment: "same_people (apply_EditComment c)"
  unfolding apply_EditComment_def Let_def
  by (intro same_people_if same_people_simps same_people_okE okE_bind_any okE_failIf)
    (auto simp: frame dest!: people_results)

lemma same_people_delete: "same_people (apply_SoftDelete c)"
  unfolding apply_SoftDelete_def Let_def
  by (auto intro!: same_people_nilTx simp: bind_iffs Let_def frame mod_removal_def dest!: people_results
      split: if_splits prod.splits)

lemma same_people_restore: "same_people (apply_Restore c)"
  unfolding apply_Restore_def
  by (auto intro!: same_people_nilTx simp: bind_iffs Let_def frame dest!: people_results split: if_splits prod.splits)

lemma same_people_engage:
  "same_people (apply_Helpful c1)" "same_people (apply_Follow c2)" "same_people (apply_MarkRead c3)"
  "same_people (apply_MarkEmailed c4)"
  unfolding apply_Helpful_def apply_Follow_def apply_MarkRead_def apply_MarkEmailed_def
  by (rule same_people_nilTx; auto simp: bind_iffs Let_def frame split: if_splits)+

end
