(* ===== verification/NoteLinks.thy ===== *)
theory NoteLinks
  imports Members
begin

text \<open>
  Links between posts and the notes written from them: the group's own part of
  \<^verbatim>\<open>internal/cmd/links.go\<close>, with the helpers of \<^verbatim>\<open>faq.go\<close> and
  \<^verbatim>\<open>sources.go\<close> that a link reaches (an entry that takes in a thread, a page placed on a
  post). The worker's results that use them are in the theory \<open>Check\<close>.
\<close>

abbreviation MaxNoteLen :: nat where "MaxNoteLen \<equiv> 1200"
abbreviation FeedSink :: int where "FeedSink \<equiv> 12 * 3600"
abbreviation CombinedMin :: nat where "CombinedMin \<equiv> 3"
abbreviation FAQMinComments :: int where "FAQMinComments \<equiv> 5"

section \<open>Entries and their sources\<close>

definition entryChanged :: "int \<Rightarrow> group_db \<Rightarrow> group_db" where
  "entryChanged entry db =
     db\<lparr>faq_entries := upd_where (\<lambda>e. e_id e = entry)
          (\<lambda>e. e\<lparr>e_stale := True, e_version := e_version e + 1\<rparr>) (faq_entries db)\<rparr>"

definition faq_source_key :: "faq_source \<Rightarrow> int \<times> int" where
  "faq_source_key s = (fs_entry s, fs_post s)"

definition addFAQSource :: "int \<Rightarrow> int \<Rightarrow> group_db \<Rightarrow> group_db" where
  "addFAQSource entry p db =
     (if has_key faq_source_key (entry, p) (faq_sources db) then db
      else entryChanged entry (db\<lparr>faq_sources := faq_sources db @ [\<lparr>fs_entry = entry, fs_post = p\<rparr>]\<rparr>))"

text \<open>The active entries a post is a source of.\<close>

definition in_faq :: "group_db \<Rightarrow> int \<Rightarrow> bool" where
  "in_faq db p = list_ex (\<lambda>s. fs_post s = p \<and> list_ex (\<lambda>e. e_id e = fs_entry s \<and> e_status e = EntryActive) (faq_entries db))
     (faq_sources db)"

section \<open>Notes\<close>

definition new_note :: "int \<Rightarrow> int \<Rightarrow> int \<Rightarrow> note_kind \<Rightarrow> int \<Rightarrow> int \<Rightarrow> note_row" where
  "new_note i host after k ext at = \<lparr>n_id = i, n_host = host, n_after = after, n_kind = k, n_text = [],
     n_stale = True, n_state = NoteActive, n_removed_by = None, n_created = at, n_updated = at,
     n_ext_version = ext\<rparr>"

definition note_source_key :: "note_source \<Rightarrow> int \<times> int \<times> int \<times> int \<times> int" where
  "note_source_key s = (ns_note s, ns_group s, ns_post s, ns_comment s, ns_source s)"

definition max_id :: "int list \<Rightarrow> int" where
  "max_id xs = (case xs of [] \<Rightarrow> 0 | x # ys \<Rightarrow> fold max ys x)"

text \<open>The note on \<open>host\<close> written from post \<open>other\<close> of group \<open>groupID\<close>, if there is one.\<close>

definition find_link_note :: "group_db \<Rightarrow> int \<Rightarrow> int \<Rightarrow> int \<Rightarrow> int option" where
  "find_link_note db groupID host other =
     (case [n_id n. n \<leftarrow> note_rows db, s \<leftarrow> note_sources db, ns_note s = n_id n,
              n_host n = host \<and> n_kind n = LinkNote \<and> ns_group s = groupID \<and> ns_post s = other] of
        [] \<Rightarrow> None | i # _ \<Rightarrow> Some i)"

definition linkNote :: "int \<Rightarrow> int \<Rightarrow> int \<Rightarrow> int \<Rightarrow> int \<Rightarrow> int \<Rightarrow> group_db \<Rightarrow> go_error + group_db" where
  "linkNote groupID host other newID ext at db =
     bindE
       (case find_link_note db groupID host other of
          Some i \<Rightarrow> Inr (i, db\<lparr>note_rows := upd_where (\<lambda>n. n_id n = i)
              (\<lambda>n. n\<lparr>n_state := NoteActive, n_removed_by := None, n_stale := True,
                     n_ext_version := max (n_ext_version n) ext\<rparr>) (note_rows db)\<rparr>)
        | None \<Rightarrow>
          let after = max_id (map c_id (filter (\<lambda>c. c_post c = host \<and> shown (c_status c)) (comments db)))
          in bindE (ins_new n_id (new_note newID host after LinkNote ext at) (note_rows db)) (\<lambda>t.
             bindE (ins_new note_source_key
                      \<lparr>ns_note = newID, ns_group = groupID, ns_post = other, ns_comment = 0,
                       ns_source = 0, ns_covers = False\<rparr> (note_sources db)) (\<lambda>u.
             Inr (newID, db\<lparr>note_rows := t, note_sources := u\<rparr>))))
       (\<lambda>(i, db1). Inr (schedule JobNote i (noteVersion db1 i) at at db1))"

section \<open>Combined notes\<close>

text \<open>What a combined note on \<open>host\<close> gathers: (post, 0) or (0, source), in the order kept.\<close>

definition related_posts :: "group_db \<Rightarrow> int \<Rightarrow> int list" where
  "related_posts db host =
     sort [p_id p. l \<leftarrow> post_links db, p \<leftarrow> posts db,
             p_id p = (if pl_older l = host then pl_newer l else pl_older l),
             (pl_older l = host \<or> pl_newer l = host) \<and> pl_state l = LinkActive \<and> shown (p_status p)]"

definition related_sources :: "group_db \<Rightarrow> int \<Rightarrow> int list" where
  "related_sources db host =
     sort [so_id s. l \<leftarrow> source_links db, s \<leftarrow> sources db, so_id s = sl_source l,
             sl_post l = host \<and> so_status s = SrcActive \<and> so_summary s \<noteq> []]"

definition wanted :: "group_db \<Rightarrow> int \<Rightarrow> (int \<times> int) list" where
  "wanted db host = map (\<lambda>p. (p, 0)) (related_posts db host) @ map (\<lambda>s. (0, s)) (related_sources db host)"

definition note_has :: "group_db \<Rightarrow> int \<Rightarrow> (int \<times> int) list" where
  "note_has db i =
     map (\<lambda>s. (ns_post s, ns_source s))
       (sort_key (\<lambda>s. (ns_source s \<noteq> 0, ns_post s, ns_source s)) (filter (\<lambda>s. ns_note s = i) (note_sources db)))"

definition set_note_state :: "int \<Rightarrow> note_state \<Rightarrow> group_db \<Rightarrow> group_db" where
  "set_note_state i st db =
     db\<lparr>note_rows := upd_where (\<lambda>n. n_id n = i) (\<lambda>n. n\<lparr>n_state := st\<rparr>) (note_rows db)\<rparr>"

text \<open>The combined note \<open>i\<close> rewritten from \<open>want\<close>.\<close>

definition fill_combined :: "int \<Rightarrow> int \<Rightarrow> (int \<times> int) list \<Rightarrow> int \<Rightarrow> group_db \<Rightarrow> go_error + group_db" where
  "fill_combined groupID i want at db =
     bindE (foldE (\<lambda>(p, s). ins_new note_source_key
                \<lparr>ns_note = i, ns_group = groupID, ns_post = p, ns_comment = 0, ns_source = s, ns_covers = False\<rparr>)
              want (del_where (\<lambda>s. ns_note s = i) (note_sources db))) (\<lambda>u.
     let db1 = db\<lparr>note_sources := u,
                  note_rows := upd_where (\<lambda>n. n_id n = i) (\<lambda>n. n\<lparr>n_state := NoteActive, n_stale := True\<rparr>) (note_rows db)\<rparr>
     in Inr (schedule JobNote i (noteVersion db1 i) at at db1))"

definition syncCombined :: "int \<Rightarrow> int \<Rightarrow> int \<Rightarrow> int \<Rightarrow> group_db \<Rightarrow> go_error + group_db" where
  "syncCombined groupID host newID at db =
     (let want = wanted db host in
      case find (\<lambda>n. n_host n = host \<and> n_kind n = CombinedNote) (note_rows db) of
        Some n \<Rightarrow>
          if length want < CombinedMin
          then Inr (if n_state n = NoteActive then set_note_state (n_id n) NoteRemovedState db else db)
          else if n_removed_by n \<noteq> None then Inr db
          else if n_state n = NoteActive \<and> note_has db (n_id n) = want then Inr db
          else fill_combined groupID (n_id n) want at db
      | None \<Rightarrow>
          if length want < CombinedMin \<or> newID = 0 then Inr db
          else bindE (ins_new n_id (new_note newID host 0 CombinedNote 0 at) (note_rows db)) (\<lambda>t.
               fill_combined groupID newID want at (db\<lparr>note_rows := t\<rparr>)))"

definition source_link_key :: "source_link \<Rightarrow> int \<times> int \<times> int" where
  "source_link_key l = (sl_source l, sl_post l, sl_entry l)"

definition linkSource :: "int \<Rightarrow> int \<Rightarrow> int \<Rightarrow> int \<Rightarrow> int \<Rightarrow> group_db \<Rightarrow> go_error + group_db" where
  "linkSource groupID source p entry at db =
     (if p = 0 \<and> entry = 0 then Inr db
      else let known = has_key source_link_key (source, p, entry) (source_links db);
               db1 = db\<lparr>source_links := ins_ignore source_link_key
                        \<lparr>sl_source = source, sl_post = p, sl_entry = entry, sl_created = at\<rparr> (source_links db)\<rparr>
           in if \<not> known \<and> entry \<noteq> 0 then Inr (entryChanged entry db1)
              else if p \<noteq> 0 then syncCombined groupID p 0 at db1
              else Inr db1)"

section \<open>Linking two posts\<close>

definition parse_source :: "string \<Rightarrow> link_source option" where
  "parse_source s = (if s = ''auto'' then Some ByAuto else if s = ''author'' then Some ByAuthor
     else if s = ''mod'' then Some ByMod else None)"

definition feedWeight :: "int \<Rightarrow> int \<Rightarrow> int \<Rightarrow> group_db \<Rightarrow> go_error + group_db" where
  "feedWeight older newer at db =
     (case get_post db older of
        None \<Rightarrow> Inl SqlNoRows
      | Some p \<Rightarrow>
        if p_comment_count p < FAQMinComments \<and> \<not> in_faq db older then Inr db
        else if list_ex (\<lambda>u. u_kind u = FeedWeight \<and> u_target u = newer) (nudges db) then Inr db
        else Inr (db\<lparr>nudges := nudges db @
                       [\<lparr>u_id = next_rowid u_id (nudges db), u_post = newer, u_kind = FeedWeight, u_target = newer,
                         u_value = FeedSink, u_reason = ''repeats answered thread '' @ FormatInt older,
                         u_set_by = None, u_state = NudgeActive, u_created = at\<rparr>],
                     posts := upd_where (\<lambda>q. p_id q = newer) (\<lambda>q. q\<lparr>p_sink := FeedSink\<rparr>) (posts db)\<rparr>))"

text \<open>Both ends exist and are shown, the older first.\<close>

definition linkable :: "group_db \<Rightarrow> int \<Rightarrow> go_error + unit" where
  "linkable db i = bindE (the_post db i) (\<lambda>p. failIf (\<not> shown (p_status p)) ErrGone (Inr ()))"

text \<open>What a new (or renewed) link sets off.\<close>

definition link_made :: "int \<Rightarrow> int \<Rightarrow> int \<Rightarrow> int \<times> int \<times> int \<times> int \<Rightarrow> int \<Rightarrow> group_db \<Rightarrow> go_error + group_db" where
  "link_made groupID a b ids at db =
     (case ids of (noteA, noteB, combA, combB) \<Rightarrow>
      let older = min a b; newer = max a b in
      bindE (linkNote groupID a b noteA 0 at db) (\<lambda>db1.
      bindE (linkNote groupID b a noteB 0 at db1) (\<lambda>db2.
      bindE (feedWeight older newer at db2) (\<lambda>db3.
      let author = (case get_post db3 newer of None \<Rightarrow> 0 | Some p \<Rightarrow> null_int (p_user p));
          db4 = notifyFollowers older NoteLinked newer 0 [author] at db3;
          entries = remdups [fs_entry s. s \<leftarrow> faq_sources db4, e \<leftarrow> faq_entries db4, e_id e = fs_entry s,
                       (fs_post s = older \<or> fs_post s = newer) \<and> e_status e = EntryActive];
          db5 = fold (\<lambda>e d. addFAQSource e newer (addFAQSource e older d)) entries db4
      in bindE (syncCombined groupID a combA at db5) (\<lambda>db6. syncCombined groupID b combB at db6)))))"

definition put_link :: "int \<Rightarrow> int \<Rightarrow> string \<Rightarrow> int \<Rightarrow> int \<Rightarrow> group_db \<Rightarrow> go_error + group_db" where
  "put_link older newer source who at db =
     (case parse_source source of
        None \<Rightarrow> Inl (SqlConstraint ''CHECK'')
      | Some src \<Rightarrow>
        (case find (\<lambda>l. pl_older l = older \<and> pl_newer l = newer) (post_links db) of
           Some l \<Rightarrow> Inr (db\<lparr>post_links := upd_where (\<lambda>l. pl_older l = older \<and> pl_newer l = newer)
               (\<lambda>l. l\<lparr>pl_state := LinkActive, pl_source := src, pl_created_by := nullIfZero who\<rparr>) (post_links db)\<rparr>)
         | None \<Rightarrow> Inr (db\<lparr>post_links := post_links db @
               [\<lparr>pl_older = older, pl_newer = newer, pl_source = src, pl_created_by = nullIfZero who,
                 pl_state = LinkActive, pl_created = at\<rparr>]\<rparr>)))"

definition addLink :: "int \<Rightarrow> int \<Rightarrow> int \<Rightarrow> string \<Rightarrow> int \<Rightarrow> int \<times> int \<times> int \<times> int \<Rightarrow> int \<Rightarrow> group_db
    \<Rightarrow> go_error + group_db" where
  "addLink groupID a b source who ids at db =
     failIf (a = b) (Invalid ''a post can't be linked to itself'') (
     let older = min a b; newer = max a b in
     bindE (linkable db older) (\<lambda>_.
     bindE (linkable db newer) (\<lambda>_.
     let row = find (\<lambda>l. pl_older l = older \<and> pl_newer l = newer) (post_links db) in
     if map_option pl_state row = Some LinkActive then Inr db
     else if row \<noteq> None \<and> source = ''auto'' then Inr db
     else bindE (put_link older newer source who at db) (link_made groupID a b ids at))))"

record AddLink =
  al_GroupID :: int
  al_PostA :: int
  al_PostB :: int
  al_Source :: string
  al_By :: int
  al_NoteA :: int
  al_NoteB :: int
  al_CombinedA :: int
  al_CombinedB :: int
  al_At :: int

definition apply_AddLink :: "AddLink \<Rightarrow> group_db plan" where
  "apply_AddLink c = nilTx (addLink (al_GroupID c) (al_PostA c) (al_PostB c) (al_Source c) (al_By c)
     (al_NoteA c, al_NoteB c, al_CombinedA c, al_CombinedB c) (al_At c))"

record RemoveLink =
  rk_GroupID :: int
  rk_PostA :: int
  rk_PostB :: int
  rk_By :: int
  rk_ByMod :: bool
  rk_At :: int

definition drop_pair_notes :: "int \<Rightarrow> int \<Rightarrow> int \<Rightarrow> group_db \<Rightarrow> group_db" where
  "drop_pair_notes older newer who db =
     db\<lparr>note_rows := upd_where
          (\<lambda>n. n_kind n = LinkNote \<and> list_ex (\<lambda>s. ns_note s = n_id n \<and>
                 (n_host n = older \<and> ns_post s = newer \<or> n_host n = newer \<and> ns_post s = older)) (note_sources db))
          (\<lambda>n. n\<lparr>n_state := NoteRemovedState, n_removed_by := Some who\<rparr>) (note_rows db)\<rparr>"

definition apply_RemoveLink :: "RemoveLink \<Rightarrow> group_db plan" where
  "apply_RemoveLink c =
     (let older = min (rk_PostA c) (rk_PostB c); newer = max (rk_PostA c) (rk_PostB c) in
      nilTx (\<lambda>db.
        let pair = (\<lambda>l. pl_older l = older \<and> pl_newer l = newer) in
        failIf (affected pair (post_links db) = 0) ErrGone (
        let db1 = db\<lparr>post_links := upd_where pair (\<lambda>l. l\<lparr>pl_state := LinkRejected\<rparr>) (post_links db)\<rparr>;
            db2 = drop_pair_notes older newer (rk_By c) db1
        in bindE (foldE (\<lambda>p. syncCombined (rk_GroupID c) p 0 (rk_At c)) [older, newer] db2) (\<lambda>db3.
           Inr (if rk_ByMod c then modLog (rk_By c) ''unlink'' ''post'' newer [] (rk_At c) db3 else db3)))))"

section \<open>A note written\<close>

record SetNote =
  st_GroupID :: int
  st_JobID :: int
  st_Worker :: string
  st_NoteID :: int
  st_Version :: int
  st_Text :: string
  st_NoChange :: bool
  st_At :: int

definition apply_SetNote :: "SetNote \<Rightarrow> group_db plan" where
  "apply_SetNote c =
     (let text = take MaxNoteLen (TrimSpace (st_Text c)) in
      nilTx (\<lambda>db.
        let (ok, db1) = finishJob (st_JobID c) (st_Worker c) (st_Version c) (noteVersion db (st_NoteID c)) (st_At c) db in
        if \<not> ok then Inr db1
        else case get_note db1 (st_NoteID c) of
          None \<Rightarrow> Inl ErrGone
        | Some n \<Rightarrow>
          if st_NoChange c \<and> n_text n \<noteq> [] \<or> text = []
          then Inr (db1\<lparr>note_rows := upd_where (\<lambda>r. n_id r = st_NoteID c) (\<lambda>r. r\<lparr>n_stale := False\<rparr>) (note_rows db1)\<rparr>)
          else Inr (db1\<lparr>note_rows := upd_where (\<lambda>r. n_id r = st_NoteID c)
                 (\<lambda>r. r\<lparr>n_text := text, n_stale := False, n_updated := st_At c\<rparr>) (note_rows db1)\<rparr>)))"

section \<open>Updates: a post under an earlier one\<close>

record MoveUnder =
  mu_GroupID :: int
  mu_PostID :: int
  mu_UnderID :: int
  mu_By :: int
  mu_ByMod :: bool
  mu_At :: int

definition stands_alone :: "group_db \<Rightarrow> int \<Rightarrow> go_error + unit" where
  "stands_alone db i =
     bindE (the_post db i) (\<lambda>p.
     failIf (p_status p \<noteq> Visible \<and> p_status p \<noteq> Flagged) ErrGone (
     failIf (p_continues p \<noteq> None) (Invalid ''that post is already an update under another post'') (Inr ())))"

definition put_under :: "int \<Rightarrow> int \<Rightarrow> int \<Rightarrow> group_db \<Rightarrow> group_db" where
  "put_under i parent at db =
     (let db1 = db\<lparr>posts := upd_where (\<lambda>q. p_id q = i)
                  (\<lambda>q. q\<lparr>p_continues := Some parent, p_continued_at := Some at\<rparr>) (posts db)\<rparr>;
          active = (case get_post db1 i of None \<Rightarrow> None | Some p \<Rightarrow> Some (p_last_activity p))
      in case active of
           None \<Rightarrow> db1
         | Some t \<Rightarrow> db1\<lparr>posts := upd_where (\<lambda>q. p_id q = parent)
             (\<lambda>q. q\<lparr>p_last_activity := max (p_last_activity q) t\<rparr>) (posts db1)\<rparr>)"

definition apply_MoveUnder :: "MoveUnder \<Rightarrow> group_db plan" where
  "apply_MoveUnder c =
     (if mu_UnderID c \<ge> mu_PostID c then Refuse (Invalid ''an update can only go under an earlier post'')
      else nilTx (\<lambda>db.
        bindE (stands_alone db (mu_PostID c)) (\<lambda>_.
        bindE (stands_alone db (mu_UnderID c)) (\<lambda>_.
        failIf (list_ex (\<lambda>q. p_continues q = Some (mu_PostID c)) (posts db))
          (Invalid ''this post has updates of its own; move those first'') (
        let db1 = put_under (mu_PostID c) (mu_UnderID c) (mu_At c) db;
            db2 = (if mu_ByMod c then modLog (mu_By c) ''move_under'' ''post'' (mu_PostID c) [] (mu_At c) db1 else db1)
        in threadChanged (mu_GroupID c) (mu_PostID c) (mu_At c) db2)))))"

record MoveOut =
  mo_GroupID :: int
  mo_PostID :: int
  mo_By :: int
  mo_ByMod :: bool
  mo_At :: int

definition apply_MoveOut :: "MoveOut \<Rightarrow> group_db plan" where
  "apply_MoveOut c = nilTx (\<lambda>db.
     bindE (the_post db (mo_PostID c)) (\<lambda>p.
     if p_continues p = None then Inr db
     else bindE (threadChanged (mo_GroupID c) (mo_PostID c) (mo_At c) db) (\<lambda>db1.
       let db2 = db1\<lparr>posts := upd_where (\<lambda>q. p_id q = mo_PostID c)
                     (\<lambda>q. q\<lparr>p_continues := None, p_continued_at := None\<rparr>) (posts db1)\<rparr>
       in Inr (if mo_ByMod c then modLog (mo_By c) ''move_out'' ''post'' (mo_PostID c) [] (mo_At c) db2 else db2))))"

section \<open>They keep posts, comments and the index in step\<close>

lemma core_entryChanged [frame]: "core (entryChanged e db) = core db"
  by (simp add: core_def entryChanged_def)

lemma core_addFAQSource [frame]: "core (addFAQSource e p db) = core db"
  by (simp add: addFAQSource_def frame)

lemma core_set_note_state [frame]: "core (set_note_state i st db) = core db"
  by (simp add: core_def set_note_state_def)

lemma core_linkNote: "linkNote g h k i x t db = Inr db' \<Longrightarrow> core db' = core db"
  by (auto simp: linkNote_def bind_iffs Let_def frame split: option.splits)

lemma core_fill_combined: "fill_combined g i w t db = Inr db' \<Longrightarrow> core db' = core db"
  by (auto simp: fill_combined_def bind_iffs Let_def frame)

lemma core_syncCombined: "syncCombined g h i t db = Inr db' \<Longrightarrow> core db' = core db"
  by (auto simp: syncCombined_def bind_iffs Let_def frame dest!: core_fill_combined split: option.splits if_splits)

lemma core_linkSource: "linkSource g s p e t db = Inr db' \<Longrightarrow> core db' = core db"
  by (auto simp: linkSource_def Let_def frame dest!: core_syncCombined split: if_splits)

lemma core_feedWeight: "feedWeight a b t db = Inr db' \<Longrightarrow> core db' = core db"
  by (auto simp: feedWeight_def core_def map_upd_where post_core_def split: option.splits if_splits)

lemma core_link_made: "link_made g a b ids t db = Inr db' \<Longrightarrow> core db' = core db"
proof -
  assume run: "link_made g a b ids t db = Inr db'"
  obtain na nb ca cb where ids: "ids = (na, nb, ca, cb)" by (cases ids) auto
  have fold: "core (fold (\<lambda>e d. addFAQSource e q (addFAQSource e p d)) es d) = core d" for p q es d
    by (rule core_fold) (simp add: frame)
  show ?thesis using run unfolding ids
    by (auto simp: link_made_def bind_iffs Let_def fold core_notifyFollowers
        dest!: core_linkNote core_feedWeight core_syncCombined)
qed

lemma core_put_link: "put_link a b s w t db = Inr db' \<Longrightarrow> core db' = core db"
  by (auto simp: put_link_def frame split: option.splits)

lemma core_addLink: "addLink g a b s w ids t db = Inr db' \<Longrightarrow> core db' = core db"
  by (auto simp: addLink_def bind_iffs Let_def dest!: core_put_link core_link_made split: if_splits)

lemma AddLink_ok: "keeps group_ok (apply_AddLink c)"
  unfolding apply_AddLink_def by (rule keeps_core) (rule core_addLink)

lemma RemoveLink_ok: "keeps group_ok (apply_RemoveLink c)"
  unfolding apply_RemoveLink_def Let_def
  by (rule keeps_core) (auto simp: bind_iffs drop_pair_notes_def frame dest!: core_syncCombined split: if_splits)

lemma SetNote_ok: "keeps group_ok (apply_SetNote c)"
  unfolding apply_SetNote_def Let_def
  by (rule keeps_core) (auto simp: frame dest!: core_finishJob split: option.splits if_splits prod.splits)

lemma core_put_under [frame]: "core (put_under i p t db) = core db"
  by (simp add: put_under_def Let_def core_def map_upd_where post_core_def split: option.splits)

lemma MoveUnder_ok: "keeps group_ok (apply_MoveUnder c)"
  unfolding apply_MoveUnder_def Let_def
  by (intro keeps_if keeps_Refuse, rule keeps_core)
    (auto simp: bind_iffs frame dest!: core_threadChanged split: if_splits)

lemma MoveOut_ok: "keeps group_ok (apply_MoveOut c)"
proof -
  have upd: "core (db\<lparr>posts := upd_where P (\<lambda>q. q\<lparr>p_continues := x, p_continued_at := y\<rparr>) (posts db)\<rparr>) = core db" for db P x y
    by (simp add: core_def map_upd_where post_core_def)
  show ?thesis unfolding apply_MoveOut_def Let_def
    by (rule keeps_core) (auto simp: bind_iffs frame upd dest!: core_threadChanged split: if_splits)
qed

section \<open>Updates stay one level deep\<close>

text \<open>Which post each post is an update of; at most one level, always under an earlier post.\<close>

definition tree :: "group_db \<Rightarrow> (int \<times> int option) list" where
  "tree db = map (\<lambda>p. (p_id p, p_continues p)) (posts db)"

definition flat :: "group_db \<Rightarrow> bool" where
  "flat db \<longleftrightarrow> (\<forall>(i, c) \<in> set (tree db). case c of None \<Rightarrow> True
      | Some u \<Rightarrow> u < i \<and> (\<forall>(j, d) \<in> set (tree db). j = u \<longrightarrow> d = None))"

definition redirect :: "int \<Rightarrow> int option \<Rightarrow> (int \<times> int option) list \<Rightarrow> (int \<times> int option) list" where
  "redirect i x t = map (\<lambda>(j, d). if j = i then (j, x) else (j, d)) t"

lemma tree_threadChanged: "threadChanged g i t db = Inr db' \<Longrightarrow> tree db' = tree db"
  unfolding tree_def by (rule thread_frame_posts[OF threadChanged_frame]) simp_all

lemma tree_modLog [simp]: "tree (modLog a x y z r t db) = tree db"
  by (simp add: tree_def modLog_def)

lemma tree_set_continues:
  "tree (db\<lparr>posts := upd_where (\<lambda>q. p_id q = i) (\<lambda>q. q\<lparr>p_continues := x, p_continued_at := y\<rparr>) (posts db)\<rparr>)
   = redirect i x (tree db)"
  by (simp add: tree_def upd_where_def redirect_def)

lemma tree_put_under:
  "tree (put_under i u t db) = redirect i (Some u) (tree db)"
  unfolding put_under_def Let_def tree_set_continues[symmetric, where y = "Some t"]
  by (simp add: tree_def map_upd_where split: option.splits)

lemma set_redirect: "(j, d) \<in> set (redirect i x t)
    \<longleftrightarrow> (if j = i then d = x \<and> (\<exists>e. (i, e) \<in> set t) else (j, d) \<in> set t)"
  by (induction t) (auto simp: redirect_def split: if_splits)

lemma redirect_back: "(\<And>e. (i, e) \<in> set t \<Longrightarrow> e = x) \<Longrightarrow> redirect i x (redirect i y t) = t"
  unfolding redirect_def map_map by (rule map_idI) auto

lemma tree_mem: "(i, c) \<in> set (tree db) \<longleftrightarrow> (\<exists>p \<in> set (posts db). p_id p = i \<and> p_continues p = c)"
  by (auto simp: tree_def)

lemma tree_get: "group_ok db \<Longrightarrow> get_post db i = Some p \<Longrightarrow> (i, c) \<in> set (tree db) \<longleftrightarrow> c = p_continues p"
proof
  assume ok: "group_ok db" and p: "get_post db i = Some p"
  note row = get_post_mem[OF p]
  show "c = p_continues p" if "(i, c) \<in> set (tree db)"
  proof -
    obtain q where "q \<in> set (posts db)" "p_id q = i" "p_continues q = c" using \<open>(i, c) \<in> _\<close> by (auto simp: tree_mem)
    with find_id[OF core_okD(1)[OF ok], of q] p show ?thesis by (simp add: get_post_def)
  qed
  show "(i, c) \<in> set (tree db)" if "c = p_continues p" using row that by (auto simp: tree_mem)
qed

lemma stands_alone_Inr:
  "stands_alone db i = Inr x \<Longrightarrow> \<exists>p. get_post db i = Some p \<and> p_continues p = None \<and> shown (p_status p)"
  by (auto simp: stands_alone_def bind_iffs the_post_Inr shown_def)

lemma MoveUnder_tree:
  assumes "run_plan (apply_MoveUnder c) db = Inr (v, db')"
  shows "tree db' = redirect (mu_PostID c) (Some (mu_UnderID c)) (tree db)"
    and "mu_UnderID c < mu_PostID c"
    and "\<exists>p. get_post db (mu_PostID c) = Some p \<and> p_continues p = None"
    and "\<exists>p. get_post db (mu_UnderID c) = Some p \<and> p_continues p = None"
    and "\<forall>(j, d) \<in> set (tree db). d \<noteq> Some (mu_PostID c)"
proof -
  have lt: "mu_UnderID c < mu_PostID c" using assms by (auto simp: apply_MoveUnder_def split: if_splits)
  then show "mu_UnderID c < mu_PostID c" .
  from assms lt obtain x y d where
    a: "stands_alone db (mu_PostID c) = Inr x" and b: "stands_alone db (mu_UnderID c) = Inr y"
    and none: "\<not> list_ex (\<lambda>q. p_continues q = Some (mu_PostID c)) (posts db)"
    and t: "threadChanged (mu_GroupID c) (mu_PostID c) (mu_At c) d = Inr db'"
    and d: "tree d = tree (put_under (mu_PostID c) (mu_UnderID c) (mu_At c) db)"
    by (auto simp: apply_MoveUnder_def run_nilTx bind_iffs Let_def split: if_splits)
  show "tree db' = redirect (mu_PostID c) (Some (mu_UnderID c)) (tree db)"
    using tree_threadChanged[OF t] d by (simp add: tree_put_under)
  show "\<exists>p. get_post db (mu_PostID c) = Some p \<and> p_continues p = None"
    "\<exists>p. get_post db (mu_UnderID c) = Some p \<and> p_continues p = None"
    using stands_alone_Inr[OF a] stands_alone_Inr[OF b] by blast+
  show "\<forall>(j, d) \<in> set (tree db). d \<noteq> Some (mu_PostID c)"
    using none by (auto simp: tree_mem list_ex_iff)
qed

text \<open>C9: an update goes one level deep: whatever a group's posts are, moving one under another
  leaves every update under an earlier post that is no update itself, and the moved post under
  the one that was asked for.\<close>

theorem updates_stay_flat:
  assumes "group_ok db" "flat db" "run_plan (apply_MoveUnder c) db = Inr (v, db')"
  shows "flat db' \<and> (mu_PostID c, Some (mu_UnderID c)) \<in> set (tree db')"
proof -
  note m = MoveUnder_tree[OF assms(3)]
  obtain p q where p: "get_post db (mu_PostID c) = Some p" "p_continues p = None"
    and q: "get_post db (mu_UnderID c) = Some q" "p_continues q = None" using m(3,4) by blast
  have under: "(mu_UnderID c, d) \<in> set (tree db) \<longleftrightarrow> d = None" for d
    using tree_get[OF assms(1) q(1)] q(2) by simp
  have self: "(mu_PostID c, d) \<in> set (tree db) \<longleftrightarrow> d = None" for d
    using tree_get[OF assms(1) p(1)] p(2) by simp
  have mem: "(j, d) \<in> set (tree db') \<longleftrightarrow>
      (if j = mu_PostID c then d = Some (mu_UnderID c) else (j, d) \<in> set (tree db))" for j d
    using self by (simp only: m(1) set_redirect) auto
  have old: "u < j \<and> (\<forall>e. (u, e) \<in> set (tree db) \<longrightarrow> e = None)" if "(j, Some u) \<in> set (tree db)" for j u
    using assms(2) that by (fastforce simp: flat_def)
  have away: "u \<noteq> mu_PostID c" if "(j, Some u) \<in> set (tree db)" for j u
    using m(5) that by fastforce
  have new: "u < j \<and> (\<forall>e. (u, e) \<in> set (tree db') \<longrightarrow> e = None)" if t: "(j, Some u) \<in> set (tree db')" for j u
  proof (cases "j = mu_PostID c")
    case True
    with t have "u = mu_UnderID c" unfolding mem by simp
    with True m(2) show ?thesis unfolding mem by (simp add: under)
  next
    case False
    with t have was: "(j, Some u) \<in> set (tree db)" unfolding mem by simp
    with away[OF was] old[OF was] show ?thesis unfolding mem by simp
  qed
  have "flat db'" unfolding flat_def using new by (auto split: option.splits)
  then show ?thesis by (simp add: mem)
qed

text \<open>C13: \<open>MoveOut\<close> undoes \<open>MoveUnder\<close>: after both, every post stands where it
  stood before.\<close>

theorem move_out_undoes_move_under:
  assumes "group_ok db" "run_plan (apply_MoveUnder c) db = Inr (v, db1)"
    and "run_plan (apply_MoveOut d) db1 = Inr (w, db2)" "mo_PostID d = mu_PostID c"
  shows "tree db2 = tree db"
proof -
  note m = MoveUnder_tree[OF assms(2)]
  obtain p where p: "get_post db (mu_PostID c) = Some p" "p_continues p = None" using m(3) by blast
  have self: "(mu_PostID c, e) \<in> set (tree db) \<longleftrightarrow> e = None" for e
    using tree_get[OF assms(1) p(1)] p(2) by simp
  have ok1: "group_ok db1" using keepsD[OF MoveUnder_ok assms(1,2)] .
  have "(mu_PostID c, Some (mu_UnderID c)) \<in> set (tree db1)"
    using self[of None] by (simp only: m(1) set_redirect) auto
  then obtain q where mem: "q \<in> set (posts db1)" "p_id q = mu_PostID c" "p_continues q = Some (mu_UnderID c)"
    by (auto simp: tree_mem)
  then have q: "get_post db1 (mu_PostID c) = Some q" "p_continues q = Some (mu_UnderID c)"
    using find_id[OF core_okD(1)[OF ok1] mem(1)] by (simp_all add: get_post_def)
  from assms(3,4) q obtain e where "threadChanged (mo_GroupID d) (mu_PostID c) (mo_At d) db1 = Inr e"
    and t2: "tree db2 = redirect (mu_PostID c) None (tree e)"
    by (auto simp: apply_MoveOut_def run_nilTx bind_iffs Let_def the_post_Inr tree_set_continues split: if_splits)
  from this(1) have "tree e = tree db1" by (rule tree_threadChanged)
  have "redirect (mu_PostID c) None (redirect (mu_PostID c) (Some (mu_UnderID c)) (tree db)) = tree db"
    using self by (intro redirect_back) simp
  with t2 \<open>tree e = tree db1\<close> m(1) show ?thesis by simp
qed

definition two_posts :: group_db where
  "two_posts = empty_group_db\<lparr>posts := [new_post 1 (Some 7) ''solar'' [] 0 0, new_post 2 (Some 7) ''part 2'' [] 5 9]\<rparr>"

lemma two_posts_ok: "group_ok two_posts" "flat two_posts"
  by (simp_all add: two_posts_def group_ok_def core_ok_def core_def post_core_def shown_under_def
      empty_group_db_def flat_def tree_def new_post_def)

lemma two_posts_moved: "\<exists>v db'. run_plan (apply_MoveUnder (MoveUnder.make 3 2 1 7 False 100)) two_posts = Inr (v, db')"
  by (simp add: apply_MoveUnder_def MoveUnder.defs run_nilTx two_posts_def empty_group_db_def new_post_def
      stands_alone_def the_post_def get_post_def put_under_def threadChanged_def threadStep_def
      Let_def frame notes_from_def stale_entries_def schedule_def)

lemma updates_stay_flat_witness:
  "\<exists>v db'. run_plan (apply_MoveUnder (MoveUnder.make 3 2 1 7 False 100)) two_posts = Inr (v, db')
     \<and> flat db' \<and> (2, Some 1) \<in> set (tree db')"
  using two_posts_moved updates_stay_flat[OF two_posts_ok, of "MoveUnder.make 3 2 1 7 False 100"]
  by (fastforce simp: MoveUnder.defs)

lemma two_posts_back:
  assumes "run_plan (apply_MoveUnder (MoveUnder.make 3 2 1 7 False 100)) two_posts = Inr (v, db1)"
  shows "\<exists>w db2. run_plan (apply_MoveOut (MoveOut.make 3 2 7 False 200)) db1 = Inr (w, db2)"
proof -
  have "db1 = snd (projr (run_plan (apply_MoveUnder (MoveUnder.make 3 2 1 7 False 100)) two_posts))"
    using assms by simp
  then show ?thesis
    by (simp add: apply_MoveUnder_def apply_MoveOut_def MoveUnder.defs MoveOut.defs run_nilTx two_posts_def
        empty_group_db_def new_post_def stands_alone_def the_post_def get_post_def put_under_def threadChanged_def
        threadStep_def Let_def frame notes_from_def stale_entries_def schedule_def)
qed

section \<open>A rejected pair\<close>

text \<open>The pair was unlinked by a person; nothing the AI asks for changes a rejected pair's row.\<close>

definition rejected :: "int \<Rightarrow> int \<Rightarrow> post_link list \<Rightarrow> bool" where
  "rejected older newer t \<longleftrightarrow>
     (\<exists>l \<in> set t. pl_older l = older \<and> pl_newer l = newer) \<and>
     (\<forall>l \<in> set t. pl_older l = older \<and> pl_newer l = newer \<longrightarrow> pl_state l = LinkRejected)"

lemma links_frame [frame]:
  "post_links (schedule k r ver ra t db) = post_links db"
  "post_links (modLog ac ax y z rs t db) = post_links db"
  "post_links (send fc t db) = post_links db"
  "post_links (notify u nk p rf ac t db) = post_links db"
  "post_links (entryChanged e db) = post_links db"
  "post_links (addFAQSource e p db) = post_links db"
  "post_links (set_note_state i st db) = post_links db"
  by (simp_all add: schedule_def modLog_def send_def notify_def entryChanged_def addFAQSource_def set_note_state_def)

lemma links_fold: "(\<And>x d. post_links (f x d) = post_links d) \<Longrightarrow> post_links (fold f xs db) = post_links db"
  by (induction xs arbitrary: db) simp_all

lemma links_notifyFollowers [frame]: "post_links (notifyFollowers p k r a s t db) = post_links db"
  unfolding notifyFollowers_def by (rule links_fold) (simp add: frame)

lemma links_linkNote: "linkNote g h k i x t db = Inr db' \<Longrightarrow> post_links db' = post_links db"
  by (auto simp: linkNote_def bind_iffs Let_def frame split: option.splits)

lemma links_syncCombined: "syncCombined g h i t db = Inr db' \<Longrightarrow> post_links db' = post_links db"
  by (auto simp: syncCombined_def fill_combined_def bind_iffs Let_def frame split: option.splits if_splits)

lemma links_linkSource: "linkSource g s p e t db = Inr db' \<Longrightarrow> post_links db' = post_links db"
  by (auto simp: linkSource_def Let_def frame dest!: links_syncCombined split: if_splits)

lemma links_feedWeight: "feedWeight a b t db = Inr db' \<Longrightarrow> post_links db' = post_links db"
  by (auto simp: feedWeight_def split: option.splits if_splits)

lemma links_link_made: "link_made g a b ids t db = Inr db' \<Longrightarrow> post_links db' = post_links db"
proof -
  assume run: "link_made g a b ids t db = Inr db'"
  obtain na nb ca cb where ids: "ids = (na, nb, ca, cb)" by (cases ids) auto
  have fold: "post_links (fold (\<lambda>e d. addFAQSource e q (addFAQSource e p d)) es d) = post_links d" for p q es d
    by (rule links_fold) (simp add: frame)
  show ?thesis using run unfolding ids
    by (auto simp: link_made_def bind_iffs Let_def fold links_notifyFollowers
        dest!: links_linkNote links_feedWeight links_syncCombined)
qed

lemma addLink_auto_rejected:
  assumes "rejected x y (post_links db)" "addLink g a b ''auto'' w ids t db = Inr db'"
  shows "rejected x y (post_links db')"
proof (cases "post_links db' = post_links db")
  case False
  let ?P = "\<lambda>l. pl_older l = min a b \<and> pl_newer l = max a b"
  have none: "find ?P (post_links db) = None" and
    new: "post_links db' = post_links db @ [\<lparr>pl_older = min a b, pl_newer = max a b, pl_source = ByAuto,
        pl_created_by = nullIfZero w, pl_state = LinkActive, pl_created = t\<rparr>]"
    using assms(2) False
    by (auto simp: addLink_def bind_iffs Let_def put_link_def parse_source_def dest!: links_link_made split: if_splits option.splits)
  have "\<not> (x = min a b \<and> y = max a b)"
    using assms(1) none by (auto simp: rejected_def find_None_mem)
  with assms(1) new show ?thesis by (auto simp: rejected_def)
qed (use assms(1) in simp)

lemma rejected_upd:
  fixes x y t
  defines "P \<equiv> \<lambda>l. pl_older l = x \<and> pl_newer l = y"
  assumes "affected P t \<noteq> 0"
  shows "rejected x y (upd_where P (\<lambda>l. l\<lparr>pl_state := LinkRejected\<rparr>) t)"
proof -
  obtain r where r: "r \<in> set t" "P r" using assms(2) by (auto simp: affected_0_iff)
  then have "r\<lparr>pl_state := LinkRejected\<rparr> \<in> set (upd_where P (\<lambda>l. l\<lparr>pl_state := LinkRejected\<rparr>) t)"
    unfolding set_upd_where by (intro image_eqI[of _ _ r]) simp_all
  moreover have "\<forall>l \<in> set (upd_where P (\<lambda>l. l\<lparr>pl_state := LinkRejected\<rparr>) t). P l \<longrightarrow> pl_state l = LinkRejected"
  proof (intro ballI impI)
    fix l assume "l \<in> set (upd_where P (\<lambda>l. l\<lparr>pl_state := LinkRejected\<rparr>) t)" and l: "P l"
    then obtain q where "l = (if P q then q\<lparr>pl_state := LinkRejected\<rparr> else q)" by (auto simp only: set_upd_where)
    with l show "pl_state l = LinkRejected" by (cases "P q") simp_all
  qed
  moreover have "P (r\<lparr>pl_state := LinkRejected\<rparr>)" using r(2) by (simp add: P_def)
  ultimately show ?thesis unfolding rejected_def P_def by blast
qed

lemma RemoveLink_rejects:
  assumes "run_plan (apply_RemoveLink c) db = Inr (v, db')"
  shows "rejected (min (rk_PostA c) (rk_PostB c)) (max (rk_PostA c) (rk_PostB c)) (post_links db')"
proof -
  let ?P = "\<lambda>l. pl_older l = min (rk_PostA c) (rk_PostB c) \<and> pl_newer l = max (rk_PostA c) (rk_PostB c)"
  have "post_links db' = upd_where ?P (\<lambda>l. l\<lparr>pl_state := LinkRejected\<rparr>) (post_links db)" "affected ?P (post_links db) \<noteq> 0"
    using assms by (auto simp: apply_RemoveLink_def run_nilTx bind_iffs Let_def drop_pair_notes_def frame dest!: links_syncCombined)
  with rejected_upd show ?thesis by simp
qed

end
