(* ===== verification/Sisters.thy ===== *)
theory Sisters
  imports NoteLinks
begin

text \<open>
  Sister groups, as far as a group's own file is concerned (\<^verbatim>\<open>internal/cmd/sisters.go\<close>),
  and the follow-up commands one log sends another (\<^verbatim>\<open>internal/cmd/crosslog.go\<close>,
  \<^verbatim>\<open>OutboxDone\<close> of \<^verbatim>\<open>logs.go\<close>). The pairings themselves are in \<^verbatim>\<open>site.db\<close>: see
  the theory \<open>SisterPairs\<close>.
\<close>

section \<open>The link rows\<close>

record SisterMatch =
  sm_Group :: int
  sm_Post :: int
  sm_Version :: int
  sm_Title :: string
  sm_Date :: int
  sm_NoteHere :: int
  sm_NoteThere :: int
  sm_CiteHere :: bool
  sm_CiteThere :: bool

definition sister_key :: "sister_link \<Rightarrow> int \<times> int \<times> int" where
  "sister_key x = (x_post x, x_group x, x_other x)"

definition putSisterLink :: "int \<Rightarrow> int \<Rightarrow> int \<Rightarrow> string \<Rightarrow> int \<Rightarrow> link_source \<Rightarrow> int \<Rightarrow> group_db \<Rightarrow> bool \<times> group_db" where
  "putSisterLink p g other title date src at db =
     (let is = (\<lambda>x. sister_key x = (p, g, other)) in
      case find is (sister_links db) of
        Some x \<Rightarrow>
          if x_state x = LinkActive
          then (True, db\<lparr>sister_links := upd_where is (\<lambda>x. x\<lparr>x_title := title, x_date := date\<rparr>) (sister_links db)\<rparr>)
          else (False, db)
      | None \<Rightarrow> (True, db\<lparr>sister_links := sister_links db @
          [\<lparr>x_post = p, x_group = g, x_other = other, x_source = src, x_state = LinkActive,
            x_title = title, x_date = date, x_created = at\<rparr>]\<rparr>))"

text \<open>\<open>sisterHere\<close>: this side of a check's matches; the matches kept, for the other side.\<close>

fun sisterHere :: "int \<Rightarrow> SisterMatch list \<Rightarrow> int \<Rightarrow> group_db \<Rightarrow> go_error + SisterMatch list \<times> group_db" where
  "sisterHere postID [] at db = Inr ([], db)"
| "sisterHere postID (m # ms) at db =
     (if \<not> sm_CiteHere m \<and> \<not> sm_CiteThere m then sisterHere postID ms at db
      else let (ok, db1) = putSisterLink postID (sm_Group m) (sm_Post m) (sm_Title m) (sm_Date m) ByAuto at db in
           if \<not> ok then sisterHere postID ms at db1
           else bindE (if sm_CiteHere m
                       then linkNote (sm_Group m) postID (sm_Post m) (sm_NoteHere m) (sm_Version m) at db1
                       else Inr db1) (\<lambda>db2.
                bindE (sisterHere postID ms at db2) (\<lambda>(kept, db3). Inr (m # kept, db3))))"

definition sendSisterSides :: "int \<Rightarrow> int \<Rightarrow> string \<Rightarrow> int \<Rightarrow> int \<Rightarrow> SisterMatch list \<Rightarrow> int \<Rightarrow> group_db \<Rightarrow> group_db" where
  "sendSisterSides groupID postID title date version kept at =
     fold (\<lambda>m. send (F_PutSisterSide
            \<lparr>ps_GroupID = sm_Group m, ps_Post = sm_Post m, ps_FromGroup = groupID, ps_FromPost = postID,
             ps_Title = title, ps_Date = date, ps_Version = version, ps_NoteID = sm_NoteThere m,
             ps_Cite = sm_CiteThere m, ps_At = at\<rparr>) at) kept"

section \<open>Taking a link down\<close>

text \<open>The link notes on \<open>host\<close> written from post \<open>p\<close> of group \<open>g\<close>.\<close>

definition cites :: "group_db \<Rightarrow> int \<Rightarrow> int \<Rightarrow> note_row \<Rightarrow> bool" where
  "cites db g p n = list_ex (\<lambda>s. ns_note s = n_id n \<and> ns_group s = g \<and> ns_post s = p) (note_sources db)"

definition apply_RemoveSisterLink :: "RemoveSisterLink \<Rightarrow> group_db plan" where
  "apply_RemoveSisterLink c = nilTx (\<lambda>db.
     let row = \<lparr>x_post = rl_PostID c, x_group = rl_OtherGroup c, x_other = rl_OtherPost c, x_source = ByMod,
                x_state = LinkRejected, x_title = [], x_date = 0, x_created = rl_At c\<rparr>;
         db1 = db\<lparr>sister_links := upsert sister_key row (\<lambda>x. x\<lparr>x_state := LinkRejected\<rparr>) (sister_links db)\<rparr>;
         db2 = db1\<lparr>note_rows := upd_where
                 (\<lambda>n. n_kind n = LinkNote \<and> n_host n = rl_PostID c \<and> cites db1 (rl_OtherGroup c) (rl_OtherPost c) n)
                 (\<lambda>n. n\<lparr>n_state := NoteRemovedState, n_removed_by := Some (rl_By c)\<rparr>) (note_rows db1)\<rparr>
     in if rl_Echo c then Inr db2
        else Inr (send (F_RemoveSisterLink
               \<lparr>rl_GroupID = rl_OtherGroup c, rl_PostID = rl_OtherPost c, rl_OtherGroup = rl_GroupID c,
                rl_OtherPost = rl_PostID c, rl_By = rl_By c, rl_Echo = True, rl_At = rl_At c\<rparr>) (rl_At c)
               (modLog (rl_By c) ''unlink_sister'' ''post'' (rl_PostID c) [] (rl_At c) db2)))"

record MarkSisterStale =
  mk_GroupID :: int
  mk_NoteID :: int
  mk_Version :: int
  mk_Title :: string
  mk_At :: int

definition apply_MarkSisterStale :: "MarkSisterStale \<Rightarrow> group_db plan" where
  "apply_MarkSisterStale c =
     (if mk_Title c = [] \<or> length (mk_Title c) > MaxTitleLen then Refuse (Invalid ''bad title'')
      else nilTx (\<lambda>db.
        let keys = [(n_host n, ns_group s, ns_post s). n \<leftarrow> note_rows db, s \<leftarrow> note_sources db,
                      ns_note s = n_id n, n_id n = mk_NoteID c];
            db1 = db\<lparr>sister_links := upd_where (\<lambda>x. sister_key x \<in> set keys) (\<lambda>x. x\<lparr>x_title := mk_Title c\<rparr>)
                       (sister_links db)\<rparr>;
            raise = (\<lambda>n. n_id n = mk_NoteID c \<and> n_ext_version n < mk_Version c \<and> n_state n = NoteActive)
        in if affected raise (note_rows db1) = 0 then Inr db1
           else let db2 = db1\<lparr>note_rows := upd_where raise
                      (\<lambda>n. n\<lparr>n_ext_version := mk_Version c, n_stale := True\<rparr>) (note_rows db1)\<rparr>
                in Inr (schedule JobNote (mk_NoteID c) (noteVersion db2 (mk_NoteID c)) (mk_At c) (mk_At c) db2)))"

section \<open>Follow-up commands\<close>

definition apply_InitGroup :: "InitGroup \<Rightarrow> group_db plan" where
  "apply_InitGroup c = nilTx (\<lambda>db.
     let db1 = (case settings_row db of
                  Some _ \<Rightarrow> db
                | None \<Rightarrow> db\<lparr>settings_row := Some (default_settings (ig_Name c) (ig_Description c)
                            (ig_Visibility c) (ig_Visibility c = Public))\<rparr>)
     in Inr (if ig_OwnerID c \<noteq> 0
             then db1\<lparr>memberships := ins_ignore m_user (new_member (ig_OwnerID c) Owner Active [] 0 (ig_At c))
                       (memberships db1)\<rparr>
             else db1))"

definition apply_DropSisterLinks :: "DropSisterLinks \<Rightarrow> group_db plan" where
  "apply_DropSisterLinks c = nilTx (\<lambda>db.
     let db1 = db\<lparr>sister_links := del_where (\<lambda>x. x_group x = dl_Other c \<and> x_state x = LinkActive) (sister_links db)\<rparr>;
         db2 = db1\<lparr>note_rows := upd_where (\<lambda>n. n_kind n = LinkNote \<and> n_state n = NoteActive
                        \<and> list_ex (\<lambda>s. ns_note s = n_id n \<and> ns_group s = dl_Other c) (note_sources db1))
                      (\<lambda>n. n\<lparr>n_state := NoteRemovedState\<rparr>) (note_rows db1)\<rparr>
     in Inr (if dl_By c \<noteq> 0 then modLog (dl_By c) ''sister_end'' ''group'' (dl_Other c) [] (dl_At c) db2 else db2))"

definition apply_PutSisterSide :: "PutSisterSide \<Rightarrow> group_db plan" where
  "apply_PutSisterSide c = nilTx (\<lambda>db.
     case get_post db (ps_Post c) of
       None \<Rightarrow> Inr db
     | Some p \<Rightarrow>
       if \<not> shown (p_status p) then Inr db
       else let (ok, db1) = putSisterLink (ps_Post c) (ps_FromGroup c) (ps_FromPost c) (ps_Title c) (ps_Date c)
                              ByAuto (ps_At c) db
            in if \<not> ok \<or> \<not> ps_Cite c then Inr db1
               else linkNote (ps_FromGroup c) (ps_Post c) (ps_FromPost c) (ps_NoteID c) (ps_Version c) (ps_At c) db1)"

definition apply_ShowSisterNotes :: "ShowSisterNotes \<Rightarrow> group_db plan" where
  "apply_ShowSisterNotes c =
     (let (from, to) = (if sn_Show c then (NoteRemovedState, NoteActive) else (NoteActive, NoteRemovedState)) in
      if sn_Hosts c = [] then NoTx VNil
      else nilTx (\<lambda>db.
        Inr (db\<lparr>note_rows := upd_where
               (\<lambda>n. n_kind n = LinkNote \<and> n_state n = from \<and> n_removed_by n = None \<and> n_host n \<in> set (sn_Hosts c)
                    \<and> cites db (sn_FromGroup c) (sn_FromPost c) n)
               (\<lambda>n. n\<lparr>n_state := to\<rparr>) (note_rows db)\<rparr>)))"

definition apply_ModLogEntry :: "ModLogEntry \<Rightarrow> group_db plan" where
  "apply_ModLogEntry c = nilTx (\<lambda>db.
     Inr (modLog (ml_By c) (ml_Action c) (ml_TargetType c) (ml_TargetID c) (ml_Reason c) (ml_At c) db))"

text \<open>The group's side of \<^verbatim>\<open>OutboxDone\<close>.\<close>

record OutboxDone =
  od_GroupID :: int
  od_UpTo :: int

definition apply_OutboxDone :: "OutboxDone \<Rightarrow> group_db plan" where
  "apply_OutboxDone c = nilTx (\<lambda>db. Inr (db\<lparr>outbox := del_where (\<lambda>b. ob_id b \<le> od_UpTo c) (outbox db)\<rparr>))"

section \<open>They keep posts, comments and the index in step\<close>

lemma core_putSisterLink: "putSisterLink p g x ti d s t db = (ok, db') \<Longrightarrow> core db' = core db"
  by (auto simp: putSisterLink_def Let_def frame split: option.splits if_splits)

lemma core_sisterHere: "sisterHere p ms t db = Inr (kept, db') \<Longrightarrow> core db' = core db"
proof (induction ms arbitrary: kept db)
  case (Cons m ms)
  obtain ok db1 where put: "putSisterLink p (sm_Group m) (sm_Post m) (sm_Title m) (sm_Date m) ByAuto t db = (ok, db1)"
    by fastforce
  show ?case
    using Cons core_putSisterLink[OF put]
    by (auto simp: put bind_iffs dest!: core_linkNote split: if_splits)
qed simp

lemma core_sendSisterSides [frame]: "core (sendSisterSides g p ti d v kept t db) = core db"
  unfolding sendSisterSides_def by (rule core_fold) (simp add: core_send)

lemma RemoveSisterLink_ok: "keeps group_ok (apply_RemoveSisterLink c)"
  unfolding apply_RemoveSisterLink_def Let_def by (rule keeps_core) (auto simp: frame split: if_splits)

lemma MarkSisterStale_ok: "keeps group_ok (apply_MarkSisterStale c)"
  unfolding apply_MarkSisterStale_def Let_def
  by (intro keeps_if keeps_Refuse, rule keeps_core) (auto simp: frame split: if_splits)

lemma InitGroup_ok: "keeps group_ok (apply_InitGroup c)"
  unfolding apply_InitGroup_def Let_def by (rule keeps_core) (auto simp: frame split: if_splits option.splits)

lemma DropSisterLinks_ok: "keeps group_ok (apply_DropSisterLinks c)"
  unfolding apply_DropSisterLinks_def Let_def by (rule keeps_core) (auto simp: frame split: if_splits)

lemma PutSisterSide_ok: "keeps group_ok (apply_PutSisterSide c)"
  unfolding apply_PutSisterSide_def
  by (rule keeps_core)
    (auto simp: frame dest!: core_linkNote core_putSisterLink split: if_splits option.splits prod.splits)

lemma ShowSisterNotes_ok: "keeps group_ok (apply_ShowSisterNotes c)"
  unfolding apply_ShowSisterNotes_def Let_def case_prod_unfold
  by (intro keeps_if keeps_NoTx, rule keeps_core) (auto simp: frame)

lemma ModLogEntry_ok: "keeps group_ok (apply_ModLogEntry c)"
  unfolding apply_ModLogEntry_def by (rule keeps_core) (auto simp: frame)

lemma OutboxDone_ok: "keeps group_ok (apply_OutboxDone c)"
  unfolding apply_OutboxDone_def by (rule keeps_core) (auto simp: frame)

section \<open>Delivered twice\<close>

text \<open>The relay may deliver a follow-up again after a crash: its plan run once, and run twice.\<close>

definition twice :: "group_db plan \<Rightarrow> group_db \<Rightarrow> go_error + retval \<times> group_db" where
  "twice pl db = bindE (run_plan pl db) (\<lambda>(v, db'). run_plan pl db')"

lemma twice_nilTx: "twice (nilTx (\<lambda>db. Inr (f db))) db = Inr (VNil, f (f db))"
  by (simp add: twice_def run_nilTx)



lemma find_upsert:
  assumes "\<And>x. k (f x) = k x"
  shows "find (\<lambda>x. k x = k r) (upsert k r f t)
    = Some (case find (\<lambda>x. k x = k r) t of None \<Rightarrow> r | Some x \<Rightarrow> f x)"
proof (cases "find (\<lambda>x. k x = k r) t")
  case None
  then have "\<not> has_key k (k r) t" by (simp add: find_has_key)
  with None show ?thesis by (simp add: upsert_def)
next
  case (Some x)
  then have "has_key k (k r) t" "k x = k r" by (auto simp: find_has_key dest: find_Some_mem)
  with Some show ?thesis by (simp add: upsert_def map_find_upd_key assms)
qed







text \<open>C11: the follow-ups that leave a line in the mod log are not harmless twice: a second
  delivery of \<open>ModLogEntry\<close>, or of the \<open>DropSisterLinks\<close> sent to the side that ended
  a pairing, writes a second line.\<close>

theorem mod_line_twice:
  "(\<exists>db'. twice (apply_ModLogEntry m) db = Inr (VNil, db') \<and> length (mod_log db') = length (mod_log db) + 2)
   \<and> (dl_By d \<noteq> 0 \<longrightarrow> (\<exists>db'. twice (apply_DropSisterLinks d) db = Inr (VNil, db') \<and> length (mod_log db') = length (mod_log db) + 2))"
  by (simp add: apply_ModLogEntry_def apply_DropSisterLinks_def twice_nilTx Let_def modLog_def)

lemma mod_line_twice_witness:
  "\<exists>db'. twice (apply_DropSisterLinks (DropSisterLinks.make 1 2 7 9)) empty_group_db = Inr (VNil, db')
     \<and> length (mod_log db') = 2"
  using mod_line_twice[of _ empty_group_db "DropSisterLinks.make 1 2 7 9"]
  by (simp add: DropSisterLinks.defs empty_group_db_def eval_nat_numeral)

section \<open>A link a mod took down\<close>

definition sister_rejected :: "int \<Rightarrow> int \<Rightarrow> int \<Rightarrow> group_db \<Rightarrow> bool" where
  "sister_rejected p g q db \<longleftrightarrow>
     map_option x_state (find (\<lambda>x. sister_key x = (p, g, q)) (sister_links db)) = Some LinkRejected"

lemma putSisterLink_rejected:
  "sister_rejected p g q db \<Longrightarrow> putSisterLink p g q ti d s t db = (False, db)"
  by (auto simp: sister_rejected_def putSisterLink_def)

lemma find_upd_other: "(\<And>r. P r \<Longrightarrow> \<not> Q r) \<Longrightarrow> (\<And>r. P (f r) = P r) \<Longrightarrow> find P (upd_where Q f t) = find P t"
  by (induction t) auto

lemma find_del_key_other: "(\<And>r. r \<in> set t \<Longrightarrow> P r \<Longrightarrow> \<not> Q r) \<Longrightarrow> find P (del_where Q t) = find P t"
  by (induction t) auto

lemma RemoveSisterLink_rejects:
  assumes "run_plan (apply_RemoveSisterLink c) db = Inr (v, db')"
  shows "sister_rejected (rl_PostID c) (rl_OtherGroup c) (rl_OtherPost c) db'"
proof -
  let ?row = "\<lparr>x_post = rl_PostID c, x_group = rl_OtherGroup c, x_other = rl_OtherPost c, x_source = ByMod,
                x_state = LinkRejected, x_title = [], x_date = 0, x_created = rl_At c\<rparr>"
  have "sister_links db' = upsert sister_key ?row (\<lambda>x. x\<lparr>x_state := LinkRejected\<rparr>) (sister_links db)"
    using assms by (auto simp: apply_RemoveSisterLink_def run_nilTx Let_def send_def modLog_def split: if_splits)
  moreover have "map_option x_state (find (\<lambda>x. sister_key x = sister_key ?row)
      (upsert sister_key ?row (\<lambda>x. x\<lparr>x_state := LinkRejected\<rparr>) t)) = Some LinkRejected" for t
    by (subst find_upsert) (auto simp: sister_key_def split: option.splits)
  ultimately show ?thesis by (simp add: sister_rejected_def sister_key_def)
qed

text \<open>C12: a cross-link a mod took down is never made again: whatever the other side's check
  sends (\<open>PutSisterSide\<close>) for that pair, the file does not change, and a check here
  (\<open>sisterHere\<close>) neither keeps the match nor changes the file.\<close>

theorem sister_removal_is_final:
  assumes "run_plan (apply_RemoveSisterLink c) db = Inr (v, db1)"
    and "ps_Post d = rl_PostID c" "ps_FromGroup d = rl_OtherGroup c" "ps_FromPost d = rl_OtherPost c"
    and "sm_Group m = rl_OtherGroup c" "sm_Post m = rl_OtherPost c"
  shows "run_plan (apply_PutSisterSide d) db1 = Inr (VNil, db1)
    \<and> sisterHere (rl_PostID c) [m] at db1 = Inr ([], db1)"
  using putSisterLink_rejected[OF RemoveSisterLink_rejects[OF assms(1)]] assms(2-)
  by (auto simp: apply_PutSisterSide_def run_nilTx split: option.splits)

lemma sister_removal_is_final_witness:
  "\<exists>v db1. run_plan (apply_RemoveSisterLink (RemoveSisterLink.make 1 2 8 6 3 False 9)) two_posts = Inr (v, db1)
     \<and> run_plan (apply_PutSisterSide (PutSisterSide.make 1 2 8 6 ''t'' 0 1 77 True 10)) db1 = Inr (VNil, db1)
     \<and> sisterHere 2 [SisterMatch.make 8 6 1 ''t'' 0 77 78 True True] 10 db1 = Inr ([], db1)"
proof -
  obtain v db1 where r: "run_plan (apply_RemoveSisterLink (RemoveSisterLink.make 1 2 8 6 3 False 9)) two_posts = Inr (v, db1)"
    by (simp add: apply_RemoveSisterLink_def RemoveSisterLink.defs run_nilTx Let_def)
  from sister_removal_is_final[OF r, of "PutSisterSide.make 1 2 8 6 ''t'' 0 1 77 True 10"
      "SisterMatch.make 8 6 1 ''t'' 0 77 78 True True" 10] r
  show ?thesis by (simp add: RemoveSisterLink.defs PutSisterSide.defs SisterMatch.defs)
qed

end
