(* ===== verification/Faq.thy ===== *)
theory Faq
  imports Clusters Sisters Names
begin

text \<open>
  The group FAQ: \<^verbatim>\<open>internal/cmd/faq.go\<close>. Topics and entries, what an entry is written
  from, its history, and the nightly batch with the clusters of linked threads no entry covers
  (\<open>components\<close> of the theory \<open>Clusters\<close>). \<^verbatim>\<open>QueueFAQ\<close>, which sends the batch
  to every group, is on the site's log and not modelled here.
\<close>

abbreviation MaxQuestionLen :: nat where "MaxQuestionLen \<equiv> 200"
abbreviation MaxAnswerLen :: nat where "MaxAnswerLen \<equiv> 2000"
abbreviation MaxTopicLen :: nat where "MaxTopicLen \<equiv> 80"
abbreviation FAQNewPerNight :: nat where "FAQNewPerNight \<equiv> 20"

section \<open>Topics\<close>

record NewTopic =
  nt_ID :: int
  nt_ParentID :: int
  nt_Title :: string

record CreateTopic =
  ct_GroupID :: int
  ct_TopicID :: int
  ct_ParentID :: int
  ct_Title :: string
  ct_By :: int
  ct_At :: int

definition topicTitle :: "string \<Rightarrow> go_error + string" where
  "topicTitle s =
     (let t = squeeze s in
      if t = [] \<or> length t > MaxTopicLen then Inl (Invalid ''a topic needs a title, up to 80 characters'') else Inr t)"

definition get_topic :: "group_db \<Rightarrow> int \<Rightarrow> faq_topic option" where
  "get_topic db i = find (\<lambda>t. t_id t = i) (faq_topics db)"

definition insertTopic :: "int \<Rightarrow> int \<Rightarrow> string \<Rightarrow> bool \<Rightarrow> int \<Rightarrow> group_db \<Rightarrow> go_error + group_db" where
  "insertTopic i parent title locked at db =
     bindE (if parent = 0 then Inr ()
            else case get_topic db parent of
                   None \<Rightarrow> Inl ErrGone
                 | Some t \<Rightarrow> failIf (t_parent t \<noteq> 0 \<or> t_merged_into t \<noteq> None)
                               (Invalid ''topics go at most two levels deep'') (Inr ())) (\<lambda>_.
     bindE (ins_new t_id \<lparr>t_id = i, t_parent = parent, t_title = title, t_sort = 0, t_locked = locked,
                          t_merged_into = None, t_created = at\<rparr> (faq_topics db)) (\<lambda>t.
     Inr (db\<lparr>faq_topics := t\<rparr>)))"

definition apply_CreateTopic :: "CreateTopic \<Rightarrow> group_db plan" where
  "apply_CreateTopic c =
     (case topicTitle (ct_Title c) of
        Inl e \<Rightarrow> Refuse e
      | Inr title \<Rightarrow> nilTx (\<lambda>db.
          bindE (insertTopic (ct_TopicID c) (ct_ParentID c) title (ct_By c \<noteq> 0) (ct_At c) db) (\<lambda>db1.
          Inr (modLog (ct_By c) ''faq_topic_create'' ''faq_topic'' (ct_TopicID c) title (ct_At c) db1))))"

text \<open>\<open>liveTopic\<close>: at most ten merges are followed.\<close>

fun follow_merges :: "nat \<Rightarrow> group_db \<Rightarrow> int \<Rightarrow> go_error + int" where
  "follow_merges 0 db i = Inr i"
| "follow_merges (Suc n) db i =
     (case get_topic db i of
        None \<Rightarrow> Inl ErrGone
      | Some t \<Rightarrow> (case t_merged_into t of None \<Rightarrow> Inr i | Some m \<Rightarrow> follow_merges n db m))"

definition liveTopic :: "group_db \<Rightarrow> int \<Rightarrow> go_error + int" where
  "liveTopic db i = follow_merges 10 db i"

record EditTopic =
  et_GroupID :: int
  et_TopicID :: int
  et_Title :: string
  et_ParentID :: int
  et_Sort :: int
  et_By :: int
  et_At :: int

definition arrow :: string where
  "arrow = [CHR 0x20, CHR 0xE2, CHR 0x86, CHR 0x92, CHR 0x20]"

text \<open>A topic that has not been merged away.\<close>

definition open_topic :: "group_db \<Rightarrow> int \<Rightarrow> go_error + faq_topic" where
  "open_topic db i =
     (case find (\<lambda>t. t_id t = i \<and> t_merged_into t = None) (faq_topics db) of
        None \<Rightarrow> Inl ErrGone | Some t \<Rightarrow> Inr t)"

definition has_kids :: "group_db \<Rightarrow> int \<Rightarrow> bool" where
  "has_kids db i = list_ex (\<lambda>t. t_parent t = i \<and> t_merged_into t = None) (faq_topics db)"

definition apply_EditTopic :: "EditTopic \<Rightarrow> group_db plan" where
  "apply_EditTopic c =
     (case topicTitle (et_Title c) of
        Inl e \<Rightarrow> Refuse e
      | Inr title \<Rightarrow> nilTx (\<lambda>db.
          bindE (open_topic db (et_TopicID c)) (\<lambda>old.
          bindE (if et_ParentID c = 0 then Inr ()
                 else bindE (open_topic db (et_ParentID c)) (\<lambda>p.
                      failIf (t_parent p \<noteq> 0 \<or> has_kids db (et_TopicID c) \<or> et_ParentID c = et_TopicID c)
                        (Invalid ''topics go at most two levels deep'') (Inr ()))) (\<lambda>_.
          Inr (modLog (et_By c) ''faq_topic_edit'' ''faq_topic'' (et_TopicID c) (t_title old @ arrow @ title) (et_At c)
            (db\<lparr>faq_topics := upd_where (\<lambda>t. t_id t = et_TopicID c)
               (\<lambda>t. t\<lparr>t_title := title, t_parent := et_ParentID c, t_sort := et_Sort c, t_locked := True\<rparr>)
               (faq_topics db)\<rparr>))))))"

section \<open>Entries\<close>

definition get_entry :: "group_db \<Rightarrow> int \<Rightarrow> faq_entry option" where
  "get_entry db i = find (\<lambda>e. e_id e = i) (faq_entries db)"

definition the_entry :: "group_db \<Rightarrow> int \<Rightarrow> go_error + faq_entry" where
  "the_entry db i = (case get_entry db i of None \<Rightarrow> Inl ErrGone | Some e \<Rightarrow> Inr e)"

definition entryText :: "string \<Rightarrow> string \<Rightarrow> go_error + string \<times> string" where
  "entryText q ans =
     (let q' = squeeze q; a' = TrimSpace ans in
      if q' = [] \<or> length q' > MaxQuestionLen then Inl (Invalid ''an entry needs a question, up to 200 characters'')
      else if a' = [] \<or> length a' > MaxAnswerLen then Inl (Invalid ''an entry needs an answer, up to 2000 characters'')
      else Inr (q', a'))"

definition first_of :: "int list \<Rightarrow> int list" where
  "first_of xs = rev (remdups (rev xs))"

definition readablePosts :: "group_db \<Rightarrow> int list \<Rightarrow> int list" where
  "readablePosts db ids =
     filter (\<lambda>i. case get_post db i of None \<Rightarrow> False | Some p \<Rightarrow> shown (p_status p)) (first_of ids)"

definition faqHistory :: "int \<Rightarrow> string \<Rightarrow> string \<Rightarrow> int \<Rightarrow> int \<Rightarrow> group_db \<Rightarrow> group_db" where
  "faqHistory entry q ans who at db =
     db\<lparr>faq_history := faq_history db @
         [\<lparr>h_id = next_rowid h_id (faq_history db), h_entry = entry, h_question = q, h_answer = ans,
           h_changed_by = nullIfZero who, h_created = at\<rparr>]\<rparr>"

definition faqIndex :: "int \<Rightarrow> group_db \<Rightarrow> go_error + group_db" where
  "faqIndex entry db =
     bindE (the_entry db entry) (\<lambda>e.
     Inr (if e_status e \<noteq> EntryActive then ftsDel entry db
          else ftsPut FtsFaq entry 0 (e_question e) (e_answer e) db))"

record CreateFAQEntry =
  cf_GroupID :: int
  cf_EntryID :: int
  cf_TopicID :: int
  cf_NewTopic :: "NewTopic option"
  cf_Question :: string
  cf_Answer :: string
  cf_Posts :: "int list"
  cf_Sources :: "int list"
  cf_By :: int
  cf_JobID :: int
  cf_Worker :: string
  cf_Version :: int
  cf_At :: int

text \<open>The topic a new entry is filed under: a new one, or the live one of the one named.\<close>

definition entry_topic :: "CreateFAQEntry \<Rightarrow> group_db \<Rightarrow> go_error + int \<times> group_db" where
  "entry_topic c db =
     bindE (case cf_NewTopic c of
              None \<Rightarrow> Inr (cf_TopicID c, db)
            | Some t \<Rightarrow> bindE (topicTitle (nt_Title t)) (\<lambda>title.
                bindE (insertTopic (nt_ID t) (nt_ParentID t) title (cf_By c \<noteq> 0) (cf_At c) db) (\<lambda>db1.
                Inr (nt_ID t, db1)))) (\<lambda>(topic, db1).
     bindE (liveTopic db1 topic) (\<lambda>live. Inr (live, db1)))"

definition new_entry :: "int \<Rightarrow> int \<Rightarrow> string \<Rightarrow> string \<Rightarrow> int \<Rightarrow> int \<Rightarrow> faq_entry" where
  "new_entry i topic q ans who at = \<lparr>e_id = i, e_topic = topic, e_question = q, e_answer = ans,
     e_status = EntryActive, e_locked = False, e_stale = False, e_version = 1, e_suggestion = None,
     e_sort = 0, e_created = at, e_updated = at, e_updated_by = nullIfZero who\<rparr>"

text \<open>The entry written, from the readable threads \<open>ps\<close>.\<close>

definition write_entry :: "CreateFAQEntry \<Rightarrow> string \<Rightarrow> string \<Rightarrow> int list \<Rightarrow> group_db \<Rightarrow> go_error + group_db" where
  "write_entry c q ans ps db =
     bindE (entry_topic c db) (\<lambda>(topic, db1).
     bindE (ins_new e_id (new_entry (cf_EntryID c) topic q ans (cf_By c) (cf_At c)) (faq_entries db1)) (\<lambda>t.
     let db2 = db1\<lparr>faq_entries := t,
                   faq_sources := fold (\<lambda>p. ins_ignore faq_source_key \<lparr>fs_entry = cf_EntryID c, fs_post = p\<rparr>) ps
                     (faq_sources db1)\<rparr>
     in bindE (foldE (\<lambda>s. linkSource (cf_GroupID c) s 0 (cf_EntryID c) (cf_At c)) (cf_Sources c) db2) (\<lambda>db3.
        let db4 = faqHistory (cf_EntryID c) q ans (cf_By c) (cf_At c) db3;
            db5 = ftsPut FtsFaq (cf_EntryID c) 0 q ans db4
        in Inr (modLog (cf_By c) ''faq_create'' ''faq_entry'' (cf_EntryID c) q (cf_At c) db5))))"

text \<open>An active entry one of the threads is a source of already.\<close>

definition covering_entry :: "group_db \<Rightarrow> int list \<Rightarrow> int option" where
  "covering_entry db ps =
     (case [e_id e. s \<leftarrow> faq_sources db, e \<leftarrow> faq_entries db, e_id e = fs_entry s,
              fs_post s \<in> set ps \<and> e_status e = EntryActive] of
        [] \<Rightarrow> None | i # _ \<Rightarrow> Some i)"

definition apply_CreateFAQEntry :: "CreateFAQEntry \<Rightarrow> group_db plan" where
  "apply_CreateFAQEntry c =
     (let txt = entryText (cf_Question c) (cf_Answer c) in
      case txt of
        Inl e \<Rightarrow>
          if cf_By c \<noteq> 0 then Refuse e
          else nilTx (\<lambda>db.
            let current = (case cf_Posts c of [] \<Rightarrow> 0 | p # _ \<Rightarrow>
                             (case get_post db p of None \<Rightarrow> 0 | Some r \<Rightarrow> p_thread_version r))
            in Inr (snd (finishJob (cf_JobID c) (cf_Worker c) (cf_Version c) current (cf_At c) db)))
      | Inr (q, ans) \<Rightarrow> nilTx (\<lambda>db.
          if cf_By c \<noteq> 0 then write_entry c q ans (readablePosts db (cf_Posts c)) db
          else
            let current = (case cf_Posts c of [] \<Rightarrow> 0 | p # _ \<Rightarrow>
                             (case get_post db p of None \<Rightarrow> 0 | Some r \<Rightarrow> p_thread_version r));
                (ok, db1) = finishJob (cf_JobID c) (cf_Worker c) (cf_Version c) current (cf_At c) db;
                ps = readablePosts db1 (cf_Posts c)
            in if \<not> ok \<or> ps = [] then Inr db1
               else case covering_entry db1 ps of
                      Some e \<Rightarrow> Inr (fold (addFAQSource e) ps db1)
                    | None \<Rightarrow> write_entry c q ans ps db1))"

section \<open>Sources, edits, rewrites\<close>

record AddFAQSource =
  as_GroupID :: int
  as_EntryID :: int
  as_PostID :: int
  as_By :: int
  as_At :: int

definition apply_AddFAQSource :: "AddFAQSource \<Rightarrow> group_db plan" where
  "apply_AddFAQSource c = nilTx (\<lambda>db.
     bindE (the_entry db (as_EntryID c)) (\<lambda>e.
     if readablePosts db [as_PostID c] = [] \<or> e_status e \<noteq> EntryActive then Inr db
     else Inr (addFAQSource (as_EntryID c) (as_PostID c) db)))"

record RemoveFAQSource =
  rf_GroupID :: int
  rf_EntryID :: int
  rf_PostID :: int
  rf_By :: int
  rf_At :: int

definition apply_RemoveFAQSource :: "RemoveFAQSource \<Rightarrow> group_db plan" where
  "apply_RemoveFAQSource c = nilTx (\<lambda>db.
     let db1 = db\<lparr>faq_sources := del_where (\<lambda>s. fs_entry s = rf_EntryID c \<and> fs_post s = rf_PostID c) (faq_sources db)\<rparr>
     in Inr (modLog (rf_By c) ''faq_source_remove'' ''faq_entry'' (rf_EntryID c) [] (rf_At c)
          (entryChanged (rf_EntryID c) db1)))"

record EditFAQEntry =
  ee_GroupID :: int
  ee_EntryID :: int
  ee_TopicID :: int
  ee_Question :: string
  ee_Answer :: string
  ee_Locked :: bool
  ee_Hidden :: bool
  ee_By :: int
  ee_At :: int

definition apply_EditFAQEntry :: "EditFAQEntry \<Rightarrow> group_db plan" where
  "apply_EditFAQEntry c =
     (case entryText (ee_Question c) (ee_Answer c) of
        Inl e \<Rightarrow> Refuse e
      | Inr (q, ans) \<Rightarrow> nilTx (\<lambda>db.
          bindE (the_entry db (ee_EntryID c)) (\<lambda>old.
          bindE (liveTopic db (ee_TopicID c)) (\<lambda>topic.
          let st = (if ee_Hidden c then EntryHidden else EntryActive);
              changed = (q \<noteq> e_question old \<or> ans \<noteq> e_answer old);
              db1 = db\<lparr>faq_entries := upd_where (\<lambda>e. e_id e = ee_EntryID c)
                 (\<lambda>e. e\<lparr>e_topic := topic, e_question := q, e_answer := ans, e_locked := ee_Locked c, e_status := st,
                        e_suggestion := None, e_stale := (if changed then False else e_stale e),
                        e_updated := (if changed then ee_At c else e_updated e),
                        e_updated_by := (if changed then Some (ee_By c) else e_updated_by e)\<rparr>) (faq_entries db)\<rparr>;
              db2 = (if changed then faqHistory (ee_EntryID c) q ans (ee_By c) (ee_At c) db1 else db1)
          in bindE (faqIndex (ee_EntryID c) db2) (\<lambda>db3.
             Inr (modLog (ee_By c) ''faq_edit'' ''faq_entry'' (ee_EntryID c) q (ee_At c) db3))))))"

record RollbackFAQEntry =
  rb_GroupID :: int
  rb_EntryID :: int
  rb_HistoryID :: int
  rb_By :: int
  rb_At :: int

definition apply_RollbackFAQEntry :: "RollbackFAQEntry \<Rightarrow> group_db plan" where
  "apply_RollbackFAQEntry c = nilTx (\<lambda>db.
     case find (\<lambda>h. h_id h = rb_HistoryID c \<and> h_entry h = rb_EntryID c) (faq_history db) of
       None \<Rightarrow> Inl ErrGone
     | Some h \<Rightarrow>
       let db1 = db\<lparr>faq_entries := upd_where (\<lambda>e. e_id e = rb_EntryID c)
             (\<lambda>e. e\<lparr>e_question := h_question h, e_answer := h_answer h, e_stale := False, e_suggestion := None,
                    e_updated := rb_At c, e_updated_by := Some (rb_By c)\<rparr>) (faq_entries db)\<rparr>;
           db2 = faqHistory (rb_EntryID c) (h_question h) (h_answer h) (rb_By c) (rb_At c) db1
       in bindE (faqIndex (rb_EntryID c) db2) (\<lambda>db3.
          Inr (modLog (rb_By c) ''faq_rollback'' ''faq_entry'' (rb_EntryID c) (h_question h) (rb_At c) db3)))"

record SetFAQAnswer =
  sf_GroupID :: int
  sf_JobID :: int
  sf_Worker :: string
  sf_EntryID :: int
  sf_Version :: int
  sf_Answer :: string
  sf_NoChange :: bool
  sf_At :: int

text \<open>The job's result read in: sources no longer shown dropped, the entry no longer stale.\<close>

definition drop_hidden_sources :: "int \<Rightarrow> group_db \<Rightarrow> group_db" where
  "drop_hidden_sources entry db =
     db\<lparr>faq_sources := del_where (\<lambda>s. fs_entry s = entry \<and>
          list_ex (\<lambda>p. p_id p = fs_post s \<and> \<not> shown (p_status p)) (posts db)) (faq_sources db)\<rparr>"

definition upd_entry :: "int \<Rightarrow> (faq_entry \<Rightarrow> faq_entry) \<Rightarrow> group_db \<Rightarrow> group_db" where
  "upd_entry i f db = db\<lparr>faq_entries := upd_where (\<lambda>e. e_id e = i) f (faq_entries db)\<rparr>"

definition apply_SetFAQAnswer :: "SetFAQAnswer \<Rightarrow> group_db plan" where
  "apply_SetFAQAnswer c =
     (let ans = take MaxAnswerLen (TrimSpace (sf_Answer c)); i = sf_EntryID c in
      nilTx (\<lambda>db.
        bindE (the_entry db i) (\<lambda>old.
        let (ok, db1) = finishJob (sf_JobID c) (sf_Worker c) (sf_Version c) (e_version old) (sf_At c) db in
        if \<not> ok then Inr db1
        else
          let db2 = upd_entry i (\<lambda>e. e\<lparr>e_stale := False\<rparr>) (drop_hidden_sources i db1) in
          if sf_NoChange c \<or> ans = [] \<or> ans = e_answer old then Inr db2
          else if e_locked old then Inr (upd_entry i (\<lambda>e. e\<lparr>e_suggestion := Some ans\<rparr>) db2)
          else
            let db3 = upd_entry i (\<lambda>e. e\<lparr>e_answer := ans, e_updated := sf_At c, e_updated_by := None\<rparr>) db2;
                db4 = faqHistory i (e_question old) ans 0 (sf_At c) db3
            in bindE (faqIndex i db4) (\<lambda>db5.
               Inr (modLog 0 ''faq_rewrite'' ''faq_entry'' i (e_question old) (sf_At c) db5)))))"

section \<open>Comments on entries, topics of posts\<close>

record AddFAQComment =
  afc_GroupID :: int
  afc_CommentID :: int
  afc_EntryID :: int
  afc_UserID :: int
  afc_Body :: string
  afc_At :: int

definition apply_AddFAQComment :: "AddFAQComment \<Rightarrow> group_db plan" where
  "apply_AddFAQComment c =
     (let body = TrimSpace (afc_Body c) in
      if body = [] \<or> length body > MaxCommentLen
      then Refuse (Invalid ''a comment needs text, up to 10000 characters'')
      else nilTx (\<lambda>db.
        bindE (requireMember db (afc_UserID c)) (\<lambda>_.
        bindE (the_entry db (afc_EntryID c)) (\<lambda>e.
        failIf (e_status e \<noteq> EntryActive) ErrGone (
        bindE (ins_new fc_id \<lparr>fc_id = afc_CommentID c, fc_entry = afc_EntryID c, fc_user = afc_UserID c,
                 fc_body = body, fc_status = FCVisible, fc_created = afc_At c, fc_purge_after = None\<rparr> (faq_comments db)) (\<lambda>t.
        Inr (entryChanged (afc_EntryID c) (db\<lparr>faq_comments := t\<rparr>))))))))"

record RemoveFAQComment =
  rfc_GroupID :: int
  rfc_CommentID :: int
  rfc_By :: int
  rfc_ByMod :: bool
  rfc_At :: int

definition apply_RemoveFAQComment :: "RemoveFAQComment \<Rightarrow> group_db plan" where
  "apply_RemoveFAQComment c =
     (let (st, keep) = (if rfc_ByMod c then (FCRemoved, ModRemoveKeep) else (FCDeleted, AuthorDeleteKeep)) in
      nilTx (\<lambda>db.
        case find (\<lambda>x. fc_id x = rfc_CommentID c) (faq_comments db) of
          None \<Rightarrow> Inl ErrGone
        | Some x \<Rightarrow>
          let db1 = entryChanged (fc_entry x)
                (db\<lparr>faq_comments := upd_where (\<lambda>x. fc_id x = rfc_CommentID c)
                      (\<lambda>x. x\<lparr>fc_status := st, fc_purge_after := Some (rfc_At c + keep)\<rparr>) (faq_comments db)\<rparr>)
          in Inr (if rfc_ByMod c then modLog (rfc_By c) ''remove'' ''faq_comment'' (rfc_CommentID c) [] (rfc_At c) db1
                  else db1)))"

definition post_topic_key :: "post_topic \<Rightarrow> int \<times> int" where
  "post_topic_key t = (pt_post t, pt_topic t)"

text \<open>The loop of \<open>setTopics\<close>, with \<open>n\<close> tags written so far.\<close>

fun tag_topics :: "int \<Rightarrow> link_source \<Rightarrow> int list \<Rightarrow> nat \<Rightarrow> group_db \<Rightarrow> go_error + group_db" where
  "tag_topics p src [] n db = Inr db"
| "tag_topics p src (t # ts) n db =
     (case liveTopic db t of
        Inl e \<Rightarrow> if IsInput e then tag_topics p src ts n db else Inl e
      | Inr live \<Rightarrow>
        let fresh = \<not> has_key post_topic_key (p, live) (post_topics db);
            db1 = db\<lparr>post_topics := ins_ignore post_topic_key \<lparr>pt_post = p, pt_topic = live, pt_source = src\<rparr>
                       (post_topics db)\<rparr>;
            n1 = (if fresh then n + 1 else n)
        in if n1 = 3 then Inr db1 else tag_topics p src ts n1 db1)"

definition setTopics :: "int \<Rightarrow> int list \<Rightarrow> link_source \<Rightarrow> bool \<Rightarrow> group_db \<Rightarrow> go_error + group_db" where
  "setTopics p topics src byPerson db =
     bindE (if byPerson then Inr False else bindE (the_post db p) (\<lambda>r. Inr (p_topics_manual r))) (\<lambda>manual.
     if manual then Inr db
     else tag_topics p src topics 0 (db\<lparr>post_topics := del_where (\<lambda>t. pt_post t = p) (post_topics db)\<rparr>))"

record SetPostTopics =
  sp_GroupID :: int
  sp_PostID :: int
  sp_Topics :: "int list"
  sp_By :: int
  sp_ByMod :: bool
  sp_At :: int

definition apply_SetPostTopics :: "SetPostTopics \<Rightarrow> group_db plan" where
  "apply_SetPostTopics c =
     (if length (sp_Topics c) > 3 then Refuse (Invalid ''a post has at most three topics'')
      else nilTx (\<lambda>db.
        setTopics (sp_PostID c) (sp_Topics c) (if sp_ByMod c then ByMod else ByAuthor) True
          (db\<lparr>posts := upd_where (\<lambda>p. p_id p = sp_PostID c) (\<lambda>p. p\<lparr>p_topics_manual := True\<rparr>) (posts db)\<rparr>)))"

section \<open>The weekly outline pass\<close>

record TopicMerge =
  tm_Keep :: int
  tm_Drop :: int

record TopicRename =
  tr_ID :: int
  tr_Title :: string

record TidyTopics =
  tt_GroupID :: int
  tt_JobID :: int
  tt_Worker :: string
  tt_Merges :: "TopicMerge list"
  tt_Renames :: "TopicRename list"
  tt_At :: int

definition lockedOrGone :: "group_db \<Rightarrow> int \<Rightarrow> bool" where
  "lockedOrGone db i =
     (case get_topic db i of None \<Rightarrow> True | Some t \<Rightarrow> t_locked t \<or> t_merged_into t \<noteq> None)"

text \<open>The five statements of a merge, and its line in the log.\<close>

definition merge_topics :: "int \<Rightarrow> int \<Rightarrow> int \<Rightarrow> group_db \<Rightarrow> group_db" where
  "merge_topics keep drp at db =
     (let db1 = db\<lparr>faq_entries := upd_where (\<lambda>e. e_topic e = drp) (\<lambda>e. e\<lparr>e_topic := keep\<rparr>) (faq_entries db)\<rparr>;
          db2 = db1\<lparr>post_topics := fold (\<lambda>t. ins_ignore post_topic_key (t\<lparr>pt_topic := keep\<rparr>))
                     (filter (\<lambda>t. pt_topic t = drp) (post_topics db1)) (post_topics db1)\<rparr>;
          db3 = db2\<lparr>post_topics := del_where (\<lambda>t. pt_topic t = drp) (post_topics db2)\<rparr>;
          db4 = db3\<lparr>faq_topics := upd_where (\<lambda>t. t_parent t = drp \<and> t_merged_into t = None)
                     (\<lambda>t. t\<lparr>t_parent := keep\<rparr>) (faq_topics db3)\<rparr>;
          db5 = db4\<lparr>faq_topics := upd_where (\<lambda>t. t_id t = drp) (\<lambda>t. t\<lparr>t_merged_into := Some keep\<rparr>) (faq_topics db4)\<rparr>
      in modLog 0 ''faq_topic_merge'' ''faq_topic'' drp [] at db5)"

definition tidy_merge :: "int \<Rightarrow> TopicMerge \<Rightarrow> group_db \<Rightarrow> group_db" where
  "tidy_merge at m db =
     (if tm_Keep m = tm_Drop m \<or> lockedOrGone db (tm_Drop m) then db
      else case liveTopic db (tm_Keep m) of
             Inl _ \<Rightarrow> db
           | Inr keep \<Rightarrow>
             if keep = tm_Drop m then db
             else let kp = (case get_topic db (tm_Keep m) of None \<Rightarrow> 0 | Some t \<Rightarrow> t_parent t)
                  in if kp = tm_Drop m \<or> (has_kids db (tm_Drop m) \<and> kp \<noteq> 0) then db
                     else merge_topics (tm_Keep m) (tm_Drop m) at db)"

definition tidy_rename :: "int \<Rightarrow> TopicRename \<Rightarrow> group_db \<Rightarrow> group_db" where
  "tidy_rename at r db =
     (case topicTitle (tr_Title r) of
        Inl _ \<Rightarrow> db
      | Inr title \<Rightarrow>
        if lockedOrGone db (tr_ID r) then db
        else let old = (case get_topic db (tr_ID r) of None \<Rightarrow> [] | Some t \<Rightarrow> t_title t)
             in if old = title then db
                else modLog 0 ''faq_topic_rename'' ''faq_topic'' (tr_ID r) (old @ arrow @ title) at
                       (db\<lparr>faq_topics := upd_where (\<lambda>t. t_id t = tr_ID r) (\<lambda>t. t\<lparr>t_title := title\<rparr>) (faq_topics db)\<rparr>))"

definition apply_TidyTopics :: "TidyTopics \<Rightarrow> group_db plan" where
  "apply_TidyTopics c = nilTx (\<lambda>db.
     let (ok, db1) = finishJob (tt_JobID c) (tt_Worker c) 0 0 (tt_At c) db in
     if \<not> ok then Inr db1
     else Inr (fold (tidy_rename (tt_At c)) (tt_Renames c) (fold (tidy_merge (tt_At c)) (tt_Merges c) db1)))"

section \<open>The nightly batch\<close>

text \<open>The posts a cluster is made of: visible, and standing on their own.\<close>

definition faq_nodes :: "group_db \<Rightarrow> post list" where
  "faq_nodes db = filter (\<lambda>p. p_status p = Visible \<and> p_continues p = None) (posts db)"

definition active_links :: "group_db \<Rightarrow> (int \<times> int) list" where
  "active_links db = map (\<lambda>l. (pl_older l, pl_newer l)) (filter (\<lambda>l. pl_state l = LinkActive) (post_links db))"

definition worth_entry :: "group_db \<Rightarrow> int list \<Rightarrow> bool" where
  "worth_entry db ids =
     (let ps = filter (\<lambda>p. p_id p \<in> set ids) (faq_nodes db);
          covered = list_ex (\<lambda>p. in_faq db (p_id p)) ps;
          ready = list_all (\<lambda>p. p_digest p \<noteq> None) ps;
          cms = sum_list (map p_comment_count ps)
      in \<not> (covered \<or> \<not> ready \<or> length ids < 2 \<and> cms < FAQMinComments))"

definition uncoveredClusters :: "group_db \<Rightarrow> int list list" where
  "uncoveredClusters db =
     sort_key hd (filter (worth_entry db) (components (map p_id (faq_nodes db)) (active_links db)))"

definition thread_version :: "group_db \<Rightarrow> int \<Rightarrow> int" where
  "thread_version db i = (case get_post db i of None \<Rightarrow> 0 | Some p \<Rightarrow> p_thread_version p)"

definition queueFAQ :: "bool \<Rightarrow> int \<Rightarrow> group_db \<Rightarrow> group_db" where
  "queueFAQ weekly at db =
     (let stale = filter (\<lambda>e. e_stale e \<and> e_status e = EntryActive) (faq_entries db);
          db1 = fold (\<lambda>e. schedule JobFAQRewrite (e_id e) (e_version e) at at) stale db;
          db2 = fold (\<lambda>cl d. schedule JobFAQNew (hd cl) (thread_version d (hd cl)) at at d)
                  (take FAQNewPerNight (uncoveredClusters db1)) db1
      in if \<not> weekly then db2
         else let db3 = schedule JobOutline 0 0 at at db2;
                  due = filter (\<lambda>s. (so_status s = SrcActive \<or> so_status s = SrcGone) \<and> so_via s \<noteq> ViaDescribed
                          \<and> null_int (so_checked s) < at - 6 * 24 * 3600) (sources db3)
              in fold (\<lambda>s. schedule JobSource (so_id s) (so_version s) at at) due db3)"

definition apply_QueueGroupFAQ :: "QueueGroupFAQ \<Rightarrow> group_db plan" where
  "apply_QueueGroupFAQ c = nilTx (\<lambda>db.
     case settings_row db of
       None \<Rightarrow> Inl SqlNoRows
     | Some s \<Rightarrow> Inr (if s_ai_enabled s then queueFAQ (qg_Weekly c) (qg_At c) db else db))"

section \<open>They keep posts, comments and the index in step\<close>

text \<open>The index rows of entries and outside pages are not about any post; a row dropped leaves
  the rest as sound as it was.\<close>

lemma row_drop_ok:
  assumes "group_ok db" "map post_core (posts db') = map post_core (posts db)"
    "map comment_core (comments db') = map comment_core (comments db)"
    "\<And>r. r \<in> set (search_fts db') \<Longrightarrow> r \<in> set (search_fts db) \<or> f_kind r = FtsFaq \<or> f_kind r = FtsSource"
  shows "group_ok db'"
proof -
  have ok: "core_ok (map post_core (posts db), map comment_core (comments db), search_fts db)"
    using assms(1) by (simp add: group_ok_def core_def)
  have "row_ok (map post_core (posts db)) (map comment_core (comments db)) r" if r: "r \<in> set (search_fts db')" for r
    using assms(4)[OF r]
  proof (elim disjE)
    assume "r \<in> set (search_fts db)"
    then show ?thesis by (rule core_ok_row[OF ok])
  qed (simp_all add: row_ok_def)
  then have "core_ok (map post_core (posts db), map comment_core (comments db), search_fts db')"
    using ok by (simp add: core_ok_def)
  then show ?thesis unfolding group_ok_def core_def assms(2,3) .
qed

lemma ftsDel_ok: "group_ok db \<Longrightarrow> group_ok (ftsDel i db)"
  by (rule row_drop_ok[of db]) (auto simp: ftsDel_def)

lemma ftsPut_other_ok: "group_ok db \<Longrightarrow> k = FtsFaq \<or> k = FtsSource \<Longrightarrow> group_ok (ftsPut k i p t b db)"
  by (rule row_drop_ok[of db]) (auto simp: ftsPut_def)

lemma core_faq_tables [frame]:
  "core (db\<lparr>faq_topics := t\<rparr>) = core db" "core (db\<lparr>faq_comments := fc\<rparr>) = core db"
  "core (faqHistory e q a w t' db) = core db" "core (upd_entry i f db) = core db"
  "core (drop_hidden_sources i db) = core db"
  by (simp_all add: core_def faqHistory_def upd_entry_def drop_hidden_sources_def)

lemma core_insertTopic: "insertTopic i p ti l t db = Inr db' \<Longrightarrow> core db' = core db"
  by (auto simp: insertTopic_def bind_iffs frame)

lemma faqIndex_ok: "group_ok db \<Longrightarrow> okE group_ok (faqIndex i db)"
  by (auto simp: faqIndex_def okE_iff bind_iffs ftsDel_ok ftsPut_other_ok)

lemma faqIndex_logged_ok:
  assumes "group_ok db" "core db1 = core db"
  shows "okE group_ok (bindE (faqIndex i db1) (\<lambda>d. Inr (modLog x y z j r t d)))"
proof -
  have "okE group_ok (faqIndex i db1)" using assms by (intro faqIndex_ok) (simp add: group_ok_def)
  then show ?thesis by (cases "faqIndex i db1") (simp_all add: mod_ok_frame)
qed

lemma CreateTopic_ok: "keeps group_ok (apply_CreateTopic c)"
  unfolding apply_CreateTopic_def
  by (auto intro!: keeps_core simp: bind_iffs frame dest!: core_insertTopic split: sum.splits)

lemma EditTopic_ok: "keeps group_ok (apply_EditTopic c)"
  unfolding apply_EditTopic_def
  by (auto intro!: keeps_core simp: bind_iffs frame split: sum.splits)

lemma core_fold_linkSource:
  "foldE (\<lambda>s. linkSource g s p e t) xs db = Inr db' \<Longrightarrow> core db' = core db"
  by (induction xs arbitrary: db) (auto simp: bind_iffs dest!: core_linkSource)

lemma core_entry_topic: "entry_topic c db = Inr (x, db') \<Longrightarrow> core db' = core db"
  by (auto simp: entry_topic_def bind_iffs dest!: core_insertTopic split: option.splits)

lemma write_entry_ok:
  assumes "group_ok db" "write_entry c q a ps db = Inr db'"
  shows "group_ok db'"
proof -
  obtain d where d: "core d = core db" and
    db': "db' = modLog (cf_By c) ''faq_create'' ''faq_entry'' (cf_EntryID c) q (cf_At c)
            (ftsPut FtsFaq (cf_EntryID c) 0 q a (faqHistory (cf_EntryID c) q a (cf_By c) (cf_At c) d))"
    using assms(2)
    by (auto simp: write_entry_def bind_iffs Let_def frame dest!: core_entry_topic core_fold_linkSource)
  have "group_ok (faqHistory (cf_EntryID c) q a (cf_By c) (cf_At c) d)"
    using assms(1) d by (simp add: group_ok_def frame)
  then show ?thesis unfolding db' by (simp add: mod_ok_frame ftsPut_other_ok)
qed

lemma core_fold_addFAQSource: "core (fold (addFAQSource e) ps db) = core db"
  by (rule core_fold) (simp add: frame)

lemma CreateFAQEntry_ok: "keeps group_ok (apply_CreateFAQEntry c)"
proof (cases "entryText (cf_Question c) (cf_Answer c)")
  case (Inl e)
  have "core (snd (finishJob j w v cur t db)) = core db" for j w v cur t db
    by (rule core_finishJob[of j w v cur t db "fst (finishJob j w v cur t db)"]) simp
  then show ?thesis unfolding apply_CreateFAQEntry_def Let_def Inl
    by (auto intro!: keeps_if keeps_core)
next
  case (Inr x)
  obtain q a where x: "x = (q, a)" by fastforce
  have job: "okE group_ok (let (ok, db1) = finishJob j w v cur t db; ps = readablePosts db1 ids
      in if \<not> ok \<or> ps = [] then Inr db1
         else case covering_entry db1 ps of Some e \<Rightarrow> Inr (fold (addFAQSource e) ps db1)
              | None \<Rightarrow> write_entry c q a ps db1)"
    if ok: "group_ok db" for j w v cur t db ids
  proof -
    obtain b db1 where f: "finishJob j w v cur t db = (b, db1)" by fastforce
    have ok1: "group_ok db1" using core_finishJob[OF f] ok by (simp add: group_ok_def)
    have "group_ok (fold (addFAQSource e) ps db1)" for e ps
      using ok1 core_fold_addFAQSource by (simp add: group_ok_def)
    then show ?thesis using ok1 write_entry_ok[OF ok1] unfolding f
      by (auto simp: Let_def okE_iff split: option.splits if_splits)
  qed
  show ?thesis unfolding apply_CreateFAQEntry_def Let_def Inr sum.case x prod.case keeps_nilTx
  proof (intro allI impI)
    fix db assume ok: "group_ok db"
    show "okE group_ok (if cf_By c \<noteq> 0 then write_entry c q a (readablePosts db (cf_Posts c)) db
       else case finishJob (cf_JobID c) (cf_Worker c) (cf_Version c)
              (case cf_Posts c of [] \<Rightarrow> 0 | p # _ \<Rightarrow> case get_post db p of None \<Rightarrow> 0 | Some r \<Rightarrow> p_thread_version r)
              (cf_At c) db of
            (ok, db1) \<Rightarrow>
              if \<not> ok \<or> readablePosts db1 (cf_Posts c) = [] then Inr db1
              else case covering_entry db1 (readablePosts db1 (cf_Posts c)) of
                     None \<Rightarrow> write_entry c q a (readablePosts db1 (cf_Posts c)) db1
                   | Some e \<Rightarrow> Inr (fold (addFAQSource e) (readablePosts db1 (cf_Posts c)) db1))"
      using job[OF ok, unfolded Let_def] write_entry_ok[OF ok] by (auto simp: okE_iff)
  qed
qed

lemma AddFAQSource_ok: "keeps group_ok (apply_AddFAQSource c)"
  unfolding apply_AddFAQSource_def by (rule keeps_core) (auto simp: bind_iffs frame split: if_splits)

lemma RemoveFAQSource_ok: "keeps group_ok (apply_RemoveFAQSource c)"
  unfolding apply_RemoveFAQSource_def Let_def by (rule keeps_core) (auto simp: frame)

lemma EditFAQEntry_ok: "keeps group_ok (apply_EditFAQEntry c)"
proof (cases "entryText (ee_Question c) (ee_Answer c)")
  case (Inr x)
  obtain q a where x: "x = (q, a)" by fastforce
  show ?thesis unfolding apply_EditFAQEntry_def Inr sum.case x prod.case keeps_nilTx Let_def
    by (intro allI impI, rule okE_bind_any, rule okE_bind_any, rule faqIndex_logged_ok, assumption)
      (simp add: frame)
qed (simp add: apply_EditFAQEntry_def)

lemma RollbackFAQEntry_ok: "keeps group_ok (apply_RollbackFAQEntry c)"
  unfolding apply_RollbackFAQEntry_def keeps_nilTx Let_def
  by (auto split: option.splits intro!: faqIndex_logged_ok simp: frame)

lemma SetFAQAnswer_ok: "keeps group_ok (apply_SetFAQAnswer c)"
  unfolding apply_SetFAQAnswer_def Let_def keeps_nilTx
proof (intro allI impI okE_bind_any)
  fix db old assume ok: "group_ok db"
  obtain b d where f: "finishJob (sf_JobID c) (sf_Worker c) (sf_Version c) (e_version old) (sf_At c) db = (b, d)"
    by fastforce
  note cd = core_finishJob[OF f]
  show "okE group_ok (case finishJob (sf_JobID c) (sf_Worker c) (sf_Version c) (e_version old) (sf_At c) db of (b, d) \<Rightarrow>
      if \<not> b then Inr d
      else if sf_NoChange c \<or> take MaxAnswerLen (TrimSpace (sf_Answer c)) = [] \<or> take MaxAnswerLen (TrimSpace (sf_Answer c)) = e_answer old
        then Inr (upd_entry (sf_EntryID c) (\<lambda>e. e\<lparr>e_stale := False\<rparr>) (drop_hidden_sources (sf_EntryID c) d))
      else if e_locked old
        then Inr (upd_entry (sf_EntryID c) (\<lambda>e. e\<lparr>e_suggestion := Some (take MaxAnswerLen (TrimSpace (sf_Answer c)))\<rparr>)
               (upd_entry (sf_EntryID c) (\<lambda>e. e\<lparr>e_stale := False\<rparr>) (drop_hidden_sources (sf_EntryID c) d)))
      else bindE (faqIndex (sf_EntryID c) (faqHistory (sf_EntryID c) (e_question old) (take MaxAnswerLen (TrimSpace (sf_Answer c))) 0 (sf_At c)
               (upd_entry (sf_EntryID c) (\<lambda>e. e\<lparr>e_answer := take MaxAnswerLen (TrimSpace (sf_Answer c)), e_updated := sf_At c, e_updated_by := None\<rparr>)
                 (upd_entry (sf_EntryID c) (\<lambda>e. e\<lparr>e_stale := False\<rparr>) (drop_hidden_sources (sf_EntryID c) d)))))
             (\<lambda>db5. Inr (modLog 0 ''faq_rewrite'' ''faq_entry'' (sf_EntryID c) (e_question old) (sf_At c) db5)))"
    unfolding f prod.case
    using faqIndex_logged_ok[OF ok] ok cd by (simp add: frame group_ok_def)
qed

lemma AddFAQComment_ok: "keeps group_ok (apply_AddFAQComment c)"
  unfolding apply_AddFAQComment_def Let_def
  by (intro keeps_if keeps_Refuse, rule keeps_core) (auto simp: bind_iffs frame)

lemma RemoveFAQComment_ok: "keeps group_ok (apply_RemoveFAQComment c)"
  unfolding apply_RemoveFAQComment_def Let_def case_prod_unfold
  by (rule keeps_core) (auto simp: frame split: option.splits if_splits)

lemma core_tag_topics: "tag_topics p s ts n db = Inr db' \<Longrightarrow> core db' = core db"
proof (induction ts arbitrary: n db)
  case (Cons t ts)
  from Cons.prems show ?case
    by (auto simp: Let_def frame dest!: Cons.IH split: sum.splits if_splits)
qed simp

lemma core_setTopics: "setTopics p ts s b db = Inr db' \<Longrightarrow> core db' = core db"
  by (auto simp: setTopics_def bind_iffs frame dest!: core_tag_topics split: if_splits)

lemma SetPostTopics_ok: "keeps group_ok (apply_SetPostTopics c)"
proof -
  have upd: "core (db\<lparr>posts := upd_where P (\<lambda>p. p\<lparr>p_topics_manual := True\<rparr>) (posts db)\<rparr>) = core db" for db P
    by (simp add: core_def map_upd_where post_core_def)
  show ?thesis unfolding apply_SetPostTopics_def
    by (intro keeps_if keeps_Refuse, rule keeps_core) (auto simp: upd dest!: core_setTopics)
qed

lemma core_tidy_merge [frame]: "core (tidy_merge t m db) = core db"
  by (simp add: tidy_merge_def merge_topics_def Let_def frame split: sum.splits)

lemma core_tidy_rename [frame]: "core (tidy_rename t m db) = core db"
  by (simp add: tidy_rename_def Let_def frame split: sum.splits)

lemma TidyTopics_ok: "keeps group_ok (apply_TidyTopics c)"
proof -
  have "core (fold (tidy_rename t) rs (fold (tidy_merge t) ms d)) = core d" for t rs ms d
    by (simp add: core_fold frame)
  then show ?thesis unfolding apply_TidyTopics_def
    by (intro keeps_core) (auto split: prod.splits if_splits dest!: core_finishJob)
qed

lemma core_queueFAQ [frame]: "core (queueFAQ w t db) = core db"
  by (simp add: queueFAQ_def Let_def core_fold core_schedule)

lemma QueueGroupFAQ_ok: "keeps group_ok (apply_QueueGroupFAQ c)"
  unfolding apply_QueueGroupFAQ_def by (rule keeps_core) (auto simp: frame split: option.splits)

end
