(* ===== verification/FaqLaws.thy ===== *)
theory FaqLaws
  imports Faq
begin

text \<open>
  What the FAQ promises: the batch's clusters are the connected components of the links, an edit
  can be rolled back, and the weekly outline pass leaves alone what a moderator has fixed.
\<close>

section \<open>What the entries promise\<close>

text \<open>C13: the clusters the nightly batch makes entries of are exactly the connected components
  of the active links between visible posts that stand on their own, as far as they are worth an
  entry (no thread in an active entry, every thread digested, two posts or five comments); each
  is in order without repeats, and the list is in the order of their oldest posts.\<close>

theorem clusters_are_components:
  assumes "group_ok db"
  shows "set ` set (uncoveredClusters db) =
      {C \<in> (\<lambda>x. {y \<in> p_id ` set (faq_nodes db). (x, y) \<in> (links_between (map p_id (faq_nodes db)) (active_links db))\<^sup>*})
              ` p_id ` set (faq_nodes db). worth_entry db (sorted_list_of_set C)}
    \<and> sorted (map hd (uncoveredClusters db))
    \<and> (\<forall>c \<in> set (uncoveredClusters db). sorted c \<and> distinct c \<and> c \<noteq> [])"
proof -
  let ?ids = "map p_id (faq_nodes db)" and ?cs = "components (map p_id (faq_nodes db)) (active_links db)"
  have d: "distinct ?ids" using core_okD(1)[OF assms] by (simp add: faq_nodes_def distinct_map inj_on_def)
  note spec = components_spec(1)[of ?ids "active_links db"] components_spec(2)[of ?ids "active_links db"]
    components_spec(3)[OF d, of "active_links db"]
  have norm: "sorted_list_of_set (set c) = c" if "c \<in> set ?cs" for c
    using spec(2,3) that by (simp add: sorted_distinct_set_unique)
  have "set ` set (uncoveredClusters db) = {C \<in> set ` set ?cs. worth_entry db (sorted_list_of_set C)}"
    using norm by (auto simp: uncoveredClusters_def)
  then show ?thesis using spec by (auto simp: uncoveredClusters_def)
qed

definition linked_pair :: group_db where
  "linked_pair = empty_group_db\<lparr>
     posts := [(new_post 4 (Some 7) ''pump'' [] 0 0)\<lparr>p_digest := Some ''d''\<rparr>,
               (new_post 9 (Some 8) ''the pump'' [] 5 5)\<lparr>p_digest := Some ''d''\<rparr>],
     post_links := [\<lparr>pl_older = 4, pl_newer = 9, pl_source = ByAuto, pl_created_by = None,
                     pl_state = LinkActive, pl_created = 6\<rparr>]\<rparr>"

lemma clusters_are_components_witness:
  "uncoveredClusters linked_pair = [[4, 9]]
   \<and> list_all (\<lambda>c. sorted c \<and> distinct c \<and> c \<noteq> []) (uncoveredClusters linked_pair)"
proof -
  have "group_ok linked_pair"
    by (simp add: linked_pair_def group_ok_def core_ok_def core_def post_core_def shown_under_def
        empty_group_db_def new_post_def)
  note clusters_are_components[OF this]
  moreover have "map p_id (faq_nodes linked_pair) = [4, 9]" "active_links linked_pair = [(4, 9)]"
    by (simp_all add: linked_pair_def empty_group_db_def new_post_def faq_nodes_def active_links_def)
  moreover have "components [4, 9] [(4, 9)] = [[4, 9]]"
    by (simp add: components_def uf_union_def eval_nat_numeral)
  moreover have "worth_entry linked_pair [4, 9]"
    by (simp add: linked_pair_def empty_group_db_def new_post_def faq_nodes_def worth_entry_def in_faq_def)
  moreover have "uncoveredClusters linked_pair = [[4, 9]]"
    using calculation(2-) by (simp add: uncoveredClusters_def)
  ultimately show ?thesis by simp
qed

lemma faqIndex_frame:
  "faqIndex i db = Inr db' \<Longrightarrow> faq_entries db' = faq_entries db \<and> faq_history db' = faq_history db"
  by (auto simp: faqIndex_def bind_iffs ftsDel_def ftsPut_def)

lemma faqIndex_works: "get_entry db i = Some e \<Longrightarrow> \<exists>db'. faqIndex i db = Inr db'"
  by (simp add: faqIndex_def the_entry_def)

lemma modLog_faq [frame]:
  "faq_entries (modLog a x y z r t db) = faq_entries db" "faq_history (modLog a x y z r t db) = faq_history db"
  by (simp_all add: modLog_def)

text \<open>An edit changes the one entry and adds at most a version.\<close>

lemma edit_entry_spec:
  assumes "run_plan (apply_EditFAQEntry c) db = Inr (v, db1)"
  obtains f more where "faq_entries db1 = upd_where (\<lambda>e. e_id e = ee_EntryID c) f (faq_entries db)"
    "\<And>e. e_id (f e) = e_id e" "faq_history db1 = faq_history db @ more"
proof -
  obtain q a where tx: "entryText (ee_Question c) (ee_Answer c) = Inr (q, a)"
    using assms by (auto simp: apply_EditFAQEntry_def split: sum.splits)
  obtain old tp where old: "the_entry db (ee_EntryID c) = Inr old" "liveTopic db (ee_TopicID c) = Inr tp"
    using assms unfolding apply_EditFAQEntry_def tx by (auto simp: run_nilTx bindE_Inr_iff)
  let ?ch = "q \<noteq> e_question old \<or> a \<noteq> e_answer old"
  let ?f = "\<lambda>e. e\<lparr>e_topic := tp, e_question := q, e_answer := a, e_locked := ee_Locked c,
      e_status := (if ee_Hidden c then EntryHidden else EntryActive), e_suggestion := None,
      e_stale := (if ?ch then False else e_stale e), e_updated := (if ?ch then ee_At c else e_updated e),
      e_updated_by := (if ?ch then Some (ee_By c) else e_updated_by e)\<rparr>"
  let ?d = "db\<lparr>faq_entries := upd_where (\<lambda>e. e_id e = ee_EntryID c) ?f (faq_entries db)\<rparr>"
  let ?d2 = "if ?ch then faqHistory (ee_EntryID c) q a (ee_By c) (ee_At c) ?d else ?d"
  obtain d3 where d3: "faqIndex (ee_EntryID c) ?d2 = Inr d3"
    and db1: "db1 = modLog (ee_By c) ''faq_edit'' ''faq_entry'' (ee_EntryID c) q (ee_At c) d3"
    using assms unfolding apply_EditFAQEntry_def tx sum.case prod.case run_nilTx old bindE_simps Let_def bindE_Inr_iff
    by blast
  show thesis
  proof (rule that[of ?f "if ?ch then [\<lparr>h_id = next_rowid h_id (faq_history db), h_entry = ee_EntryID c,
        h_question = q, h_answer = a, h_changed_by = nullIfZero (ee_By c), h_created = ee_At c\<rparr>] else []"])
    show "faq_entries db1 = upd_where (\<lambda>e. e_id e = ee_EntryID c) ?f (faq_entries db)"
      using faqIndex_frame[OF d3] by (simp add: db1 frame faqHistory_def)
    show "faq_history db1 = faq_history db @ (if ?ch then [\<lparr>h_id = next_rowid h_id (faq_history db), h_entry = ee_EntryID c,
        h_question = q, h_answer = a, h_changed_by = nullIfZero (ee_By c), h_created = ee_At c\<rparr>] else [])"
      using faqIndex_frame[OF d3] by (simp add: db1 frame faqHistory_def)
  qed simp
qed

lemma edit_works:
  assumes "entryText (ee_Question c) (ee_Answer c) = Inr (q, a)"
    and "the_entry db (ee_EntryID c) = Inr old" "liveTopic db (ee_TopicID c) = Inr tp"
  shows "\<exists>db1 e. run_plan (apply_EditFAQEntry c) db = Inr (VNil, db1) \<and> get_entry db1 (ee_EntryID c) = Some e \<and> e_question e = q"
proof -
  let ?ch = "q \<noteq> e_question old \<or> a \<noteq> e_answer old"
  let ?f = "\<lambda>e. e\<lparr>e_topic := tp, e_question := q, e_answer := a, e_locked := ee_Locked c,
      e_status := (if ee_Hidden c then EntryHidden else EntryActive), e_suggestion := None,
      e_stale := (if ?ch then False else e_stale e), e_updated := (if ?ch then ee_At c else e_updated e),
      e_updated_by := (if ?ch then Some (ee_By c) else e_updated_by e)\<rparr>"
  let ?d = "db\<lparr>faq_entries := upd_where (\<lambda>e. e_id e = ee_EntryID c) ?f (faq_entries db)\<rparr>"
  let ?d2 = "if ?ch then faqHistory (ee_EntryID c) q a (ee_By c) (ee_At c) ?d else ?d"
  have "get_entry db (ee_EntryID c) = Some old" using assms(2) by (simp add: the_entry_def split: option.splits)
  then have e: "get_entry ?d2 (ee_EntryID c) = Some (?f old)"
    by (auto simp: get_entry_def faqHistory_def map_find_upd_key dest!: find_Some_mem)
  then obtain d3 where d3: "faqIndex (ee_EntryID c) ?d2 = Inr d3" using faqIndex_works by blast
  have "run_plan (apply_EditFAQEntry c) db
      = Inr (VNil, modLog (ee_By c) ''faq_edit'' ''faq_entry'' (ee_EntryID c) q (ee_At c) d3)"
    unfolding apply_EditFAQEntry_def assms(1) sum.case prod.case run_nilTx assms(2,3) bindE_simps Let_def d3 ..
  moreover have "get_entry (modLog (ee_By c) ''faq_edit'' ''faq_entry'' (ee_EntryID c) q (ee_At c) d3) (ee_EntryID c) = Some (?f old)"
    using e faqIndex_frame[OF d3] by (simp add: get_entry_def frame)
  ultimately show ?thesis by auto
qed

text \<open>C14: an edit of an entry can be taken back in one step: as long as the entry's text before
  the edit is one of its recorded versions, rolling back to that version succeeds and the entry
  has that text again, whatever the edit was.\<close>

theorem rollback_undoes_edit:
  assumes "run_plan (apply_EditFAQEntry c) db = Inr (v, db1)"
    and "get_entry db (ee_EntryID c) = Some e" "distinct (map h_id (faq_history db))"
    and "h \<in> set (faq_history db)" "h_entry h = ee_EntryID c" "h_question h = e_question e" "h_answer h = e_answer e"
    and "rb_EntryID r = ee_EntryID c" "rb_HistoryID r = h_id h"
  shows "\<exists>db2 e2. run_plan (apply_RollbackFAQEntry r) db1 = Inr (VNil, db2)
    \<and> get_entry db2 (ee_EntryID c) = Some e2 \<and> e_question e2 = e_question e \<and> e_answer e2 = e_answer e"
proof -
  let ?i = "ee_EntryID c"
  obtain f more where ent: "faq_entries db1 = upd_where (\<lambda>e. e_id e = ?i) f (faq_entries db)" "\<And>e. e_id (f e) = e_id e"
    and hist: "faq_history db1 = faq_history db @ more"
    using edit_entry_spec[OF assms(1)] by metis
  have same: "x = h" if "x \<in> set (faq_history db)" "h_id x = h_id h" for x
    using assms(3,4) that by (simp add: distinct_map inj_on_def)
  have h: "find (\<lambda>x. h_id x = h_id h \<and> h_entry x = ?i) (faq_history db1) = Some h"
  proof (cases "find (\<lambda>x. h_id x = h_id h \<and> h_entry x = ?i) (faq_history db)")
    case None
    with assms(4,5) show ?thesis by (auto simp: find_None_mem)
  next
    case (Some x)
    then have "x = h" by (auto dest!: find_Some_mem intro: same)
    with Some show ?thesis by (simp add: hist)
  qed
  obtain e1 where e1: "get_entry db1 ?i = Some e1"
    using assms(2) ent by (auto simp: get_entry_def map_find_upd_key)
  let ?g = "\<lambda>e. e\<lparr>e_question := h_question h, e_answer := h_answer h, e_stale := False, e_suggestion := None,
      e_updated := rb_At r, e_updated_by := Some (rb_By r)\<rparr>"
  let ?d = "faqHistory ?i (h_question h) (h_answer h) (rb_By r) (rb_At r)
      (db1\<lparr>faq_entries := upd_where (\<lambda>e. e_id e = ?i) ?g (faq_entries db1)\<rparr>)"
  have e2: "get_entry ?d ?i = Some (?g e1)"
    using e1 by (auto simp: get_entry_def faqHistory_def map_find_upd_key dest!: find_Some_mem)
  then obtain d3 where d3: "faqIndex ?i ?d = Inr d3" using faqIndex_works by blast
  have "run_plan (apply_RollbackFAQEntry r) db1
      = Inr (VNil, modLog (rb_By r) ''faq_rollback'' ''faq_entry'' ?i (h_question h) (rb_At r) d3)"
    using h d3 by (simp add: apply_RollbackFAQEntry_def run_nilTx assms(8,9) Let_def)
  moreover have "get_entry (modLog (rb_By r) ''faq_rollback'' ''faq_entry'' ?i (h_question h) (rb_At r) d3) ?i = Some (?g e1)"
    using e2 faqIndex_frame[OF d3] by (simp add: get_entry_def frame)
  ultimately show ?thesis using assms(6,7) by auto
qed

definition one_entry :: group_db where
  "one_entry = empty_group_db\<lparr>
     faq_topics := [\<lparr>t_id = 2, t_parent = 0, t_title = ''care'', t_sort = 0, t_locked = False, t_merged_into = None, t_created = 0\<rparr>],
     faq_entries := [new_entry 3 2 ''why'' ''so'' 7 5],
     faq_history := [\<lparr>h_id = 1, h_entry = 3, h_question = ''why'', h_answer = ''so'', h_changed_by = Some 7, h_created = 5\<rparr>]\<rparr>"

definition edit_it :: EditFAQEntry where
  "edit_it = \<lparr>ee_GroupID = 1, ee_EntryID = 3, ee_TopicID = 2, ee_Question = ''how'', ee_Answer = ''thus'',
     ee_Locked = False, ee_Hidden = False, ee_By = 8, ee_At = 9\<rparr>"

definition undo_it :: RollbackFAQEntry where
  "undo_it = \<lparr>rb_GroupID = 1, rb_EntryID = 3, rb_HistoryID = 1, rb_By = 8, rb_At = 10\<rparr>"

lemma edit_it_texts: "entryText (ee_Question edit_it) (ee_Answer edit_it) = Inr (''how'', ''thus'')"
  by (simp add: edit_it_def entryText_def plain_text)

lemma rollback_undoes_edit_witness:
  "\<exists>db1 db2 e1 e2. run_plan (apply_EditFAQEntry edit_it) one_entry = Inr (VNil, db1)
     \<and> get_entry db1 3 = Some e1 \<and> e_question e1 = ''how''
     \<and> run_plan (apply_RollbackFAQEntry undo_it) db1 = Inr (VNil, db2)
     \<and> get_entry db2 3 = Some e2 \<and> e_question e2 = ''why'' \<and> e_answer e2 = ''so''"
proof -
  have e: "get_entry one_entry 3 = Some (new_entry 3 2 ''why'' ''so'' 7 5)"
    by (simp add: one_entry_def get_entry_def new_entry_def)
  have "the_entry one_entry (ee_EntryID edit_it) = Inr (new_entry 3 2 ''why'' ''so'' 7 5)"
    "liveTopic one_entry (ee_TopicID edit_it) = Inr 2"
    using e by (simp_all add: the_entry_def edit_it_def liveTopic_def eval_nat_numeral get_topic_def one_entry_def)
  then obtain db1 e1 where d: "run_plan (apply_EditFAQEntry edit_it) one_entry = Inr (VNil, db1)"
      "get_entry db1 (ee_EntryID edit_it) = Some e1" "e_question e1 = ''how''"
    using edit_works[OF edit_it_texts] by blast
  have ids: "ee_EntryID edit_it = 3" "rb_EntryID undo_it = 3" "rb_HistoryID undo_it = 1"
    by (simp_all add: edit_it_def undo_it_def)
  let ?h = "\<lparr>h_id = 1, h_entry = 3, h_question = ''why'', h_answer = ''so'', h_changed_by = Some 7, h_created = 5\<rparr>"
  have hist: "faq_history one_entry = [?h]" by (simp add: one_entry_def)
  have "\<exists>db2 e2. run_plan (apply_RollbackFAQEntry undo_it) db1 = Inr (VNil, db2) \<and> get_entry db2 3 = Some e2
      \<and> e_question e2 = e_question (new_entry 3 2 ''why'' ''so'' 7 5) \<and> e_answer e2 = e_answer (new_entry 3 2 ''why'' ''so'' 7 5)"
    using rollback_undoes_edit[OF d(1), where r = undo_it and e = "new_entry 3 2 ''why'' ''so'' 7 5" and h = ?h]
    by (simp add: ids hist e new_entry_def)
  then obtain db2 e2 where "run_plan (apply_RollbackFAQEntry undo_it) db1 = Inr (VNil, db2)" "get_entry db2 3 = Some e2"
      "e_question e2 = ''why''" "e_answer e2 = ''so''"
    by (auto simp: new_entry_def)
  with d show ?thesis unfolding ids by blast
qed

lemma finishJob_topics: "finishJob j w v cur t db = (ok, d) \<Longrightarrow> faq_topics d = faq_topics db \<and> faq_entries d = faq_entries db"
  by (auto simp: finishJob_def split: prod.splits)

lemma modLog_topics [frame]: "faq_topics (modLog a x y z r t db) = faq_topics db"
  by (simp add: modLog_def)

lemma tidy_merge_locked:
  assumes "get_topic d i = Some t" "t_locked t \<or> t_merged_into t \<noteq> None"
  shows "\<exists>t'. get_topic (tidy_merge at m d) i = Some t' \<and> t_title t' = t_title t \<and> t_locked t' = t_locked t
    \<and> t_merged_into t' = t_merged_into t"
proof (cases "lockedOrGone d (tm_Drop m)")
  case True
  then show ?thesis using assms(1) by (simp add: tidy_merge_def)
next
  case False
  then have ne: "i \<noteq> tm_Drop m" using assms by (auto simp: lockedOrGone_def)
  have "t_id t = i" using assms(1) by (auto simp: get_topic_def dest: find_Some_mem)
  then show ?thesis using assms(1) ne
    by (simp add: tidy_merge_def merge_topics_def get_topic_def frame Let_def map_find_upd_key split: sum.split)
qed

lemma tidy_rename_locked:
  assumes "get_topic d i = Some t" "t_locked t \<or> t_merged_into t \<noteq> None"
  shows "\<exists>t'. get_topic (tidy_rename at m d) i = Some t' \<and> t_title t' = t_title t \<and> t_locked t' = t_locked t
    \<and> t_merged_into t' = t_merged_into t"
proof (cases "lockedOrGone d (tr_ID m)")
  case True
  then show ?thesis using assms(1) by (simp add: tidy_rename_def split: sum.split)
next
  case False
  then have ne: "i \<noteq> tr_ID m" using assms by (auto simp: lockedOrGone_def)
  have "t_id t = i" using assms(1) by (auto simp: get_topic_def dest: find_Some_mem)
  then show ?thesis using assms(1) ne
    by (simp add: tidy_rename_def get_topic_def frame Let_def map_find_upd_key split: sum.split)
qed

text \<open>C15: the weekly outline pass never touches what a moderator has fixed: whatever merges and
  renames the job proposes, in whatever order, every locked topic keeps its title, stays locked and
  is not merged away, and so does every topic that was merged away before.\<close>

theorem tidy_spares_locked:
  assumes "run_plan (apply_TidyTopics c) db = Inr (v, db')" "get_topic db i = Some t"
    and "t_locked t \<or> t_merged_into t \<noteq> None"
  shows "\<exists>t'. get_topic db' i = Some t' \<and> t_title t' = t_title t \<and> t_locked t' = t_locked t
    \<and> t_merged_into t' = t_merged_into t"
proof -
  define fixed where "fixed d \<longleftrightarrow> (\<exists>t'. get_topic d i = Some t' \<and> t_title t' = t_title t \<and> t_locked t' = t_locked t
    \<and> t_merged_into t' = t_merged_into t)" for d
  have merge: "fixed (tidy_merge (tt_At c) m d)" if "fixed d" for m d
    using that tidy_merge_locked[of d i] assms(3) unfolding fixed_def by fastforce
  have rename: "fixed (tidy_rename (tt_At c) r d)" if "fixed d" for r d
    using that tidy_rename_locked[of d i] assms(3) unfolding fixed_def by fastforce
  obtain ok d where j: "finishJob (tt_JobID c) (tt_Worker c) 0 0 (tt_At c) db = (ok, d)" by fastforce
  have "fixed d" using finishJob_topics[OF j] assms(2) by (simp add: fixed_def get_topic_def)
  moreover have "fixed (fold (tidy_merge (tt_At c)) ms x)" if "fixed x" for ms x
    using that by (induction ms arbitrary: x) (simp_all add: merge)
  moreover have "fixed (fold (tidy_rename (tt_At c)) rs x)" if "fixed x" for rs x
    using that by (induction rs arbitrary: x) (simp_all add: rename)
  ultimately have "fixed db'"
    using assms(1) by (auto simp: apply_TidyTopics_def run_nilTx j split: if_splits)
  then show ?thesis by (simp add: fixed_def)
qed

definition topic_row :: "int \<Rightarrow> bool \<Rightarrow> int option \<Rightarrow> faq_topic" where
  "topic_row i locked merged = \<lparr>t_id = i, t_parent = 0, t_title = ''care'', t_sort = 0, t_locked = locked,
     t_merged_into = merged, t_created = 0\<rparr>"

definition weekly_job :: job where
  "weekly_job = \<lparr>j_id = 1, j_kind = JobOutline, j_ref = 0, j_ref_version = 0, j_run_after = 0, j_pending_since = 0,
     j_attempts = 0, j_claimed_by = Some ''w'', j_lease_until = Some 99, j_done_at = None, j_last_run = None,
     j_last_error = None, j_created = 0\<rparr>"

definition three_topics :: group_db where
  "three_topics = empty_group_db\<lparr>jobs := [weekly_job],
     faq_topics := [topic_row 1 True None, topic_row 2 False None, topic_row 3 False None],
     faq_entries := [new_entry 9 3 ''why'' ''so'' 7 5]\<rparr>"

lemma weekly_job_done:
  "\<exists>t. finishJob 1 ''w'' 0 0 50 three_topics = (True, three_topics\<lparr>jobs := t\<rparr>)"
  by (simp add: finishJob_def finish_in_def three_topics_def weekly_job_def null_str_def) blast

lemma tidy_spares_locked_witness:
  "\<exists>db' t'. run_plan (apply_TidyTopics (TidyTopics.make 1 1 ''w'' [TopicMerge.make 2 1, TopicMerge.make 1 3] [TopicRename.make 1 ''x''] 50)) three_topics
       = Inr (VNil, db')
     \<and> get_topic db' 1 = Some t' \<and> t_title t' = ''care'' \<and> t_merged_into t' = None"
proof -
  let ?c = "TidyTopics.make 1 1 ''w'' [TopicMerge.make 2 1, TopicMerge.make 1 3] [TopicRename.make 1 ''x''] 50"
  obtain t where "finishJob 1 ''w'' 0 0 50 three_topics = (True, three_topics\<lparr>jobs := t\<rparr>)"
    using weekly_job_done by blast
  then obtain db' where r: "run_plan (apply_TidyTopics ?c) three_topics = Inr (VNil, db')"
    by (simp add: apply_TidyTopics_def run_nilTx TidyTopics.defs)
  have "get_topic three_topics 1 = Some (topic_row 1 True None)"
    by (simp add: get_topic_def three_topics_def topic_row_def)
  from tidy_spares_locked[OF r this] r show ?thesis by (auto simp: topic_row_def)
qed

text \<open>A merge into a topic that was itself merged away files the entries under that dead topic,
  not under the live one: of two merges proposed together, topic 2 into 1 and then topic 3 into 2, the
  second leaves topic 3's entry on topic 2, which is merged away.\<close>

theorem tidy_strands_entries:
  "\<exists>db' t. run_plan (apply_TidyTopics (TidyTopics.make 1 1 ''w'' [TopicMerge.make 1 2, TopicMerge.make 2 3] [] 50)) three_topics
       = Inr (VNil, db')
     \<and> map e_topic (faq_entries db') = [2] \<and> get_topic db' 2 = Some t \<and> t_merged_into t = Some 1 \<and> liveTopic db' 2 = Inr 1"
proof -
  obtain t where f: "finishJob 1 ''w'' 0 0 50 three_topics = (True, three_topics\<lparr>jobs := t\<rparr>)"
    using weekly_job_done by blast
  let ?d1 = "merge_topics 1 2 50 (three_topics\<lparr>jobs := t\<rparr>)"
  have tops: "faq_topics ?d1 = [topic_row 1 True None, topic_row 2 False (Some 1), topic_row 3 False None]"
    by (simp add: merge_topics_def three_topics_def topic_row_def modLog_def Let_def)
  have m1: "tidy_merge 50 (TopicMerge.make 1 2) (three_topics\<lparr>jobs := t\<rparr>) = ?d1"
    by (simp add: tidy_merge_def TopicMerge.defs lockedOrGone_def liveTopic_def eval_nat_numeral get_topic_def
        has_kids_def three_topics_def topic_row_def Let_def)
  have m2: "tidy_merge 50 (TopicMerge.make 2 3) ?d1 = merge_topics 2 3 50 ?d1"
    by (simp add: tidy_merge_def TopicMerge.defs lockedOrGone_def liveTopic_def eval_nat_numeral get_topic_def
        has_kids_def tops topic_row_def)
  let ?d2 = "merge_topics 2 3 50 ?d1"
  have "map e_topic (faq_entries ?d2) = [2]"
    by (simp add: merge_topics_def three_topics_def modLog_def new_entry_def Let_def)
  moreover have "faq_topics ?d2 = [topic_row 1 True None, topic_row 2 False (Some 1), topic_row 3 False (Some 2)]"
    using tops by (simp add: merge_topics_def[of 2 3] topic_row_def modLog_def Let_def)
  then have "get_topic ?d2 2 = Some (topic_row 2 False (Some 1))" "liveTopic ?d2 2 = Inr 1"
    by (simp_all add: get_topic_def liveTopic_def eval_nat_numeral topic_row_def)
  moreover have "run_plan (apply_TidyTopics (TidyTopics.make 1 1 ''w'' [TopicMerge.make 1 2, TopicMerge.make 2 3] [] 50)) three_topics
      = Inr (VNil, ?d2)"
    by (simp add: apply_TidyTopics_def run_nilTx TidyTopics.defs f m1 m2)
  ultimately show ?thesis by (auto simp: topic_row_def)
qed

end
