(* ===== verification/Check.thy ===== *)
theory Check
  imports Sisters Faq
begin

text \<open>
  The results of the two jobs that read a whole post: \<open>SetCheck\<close> (what a new or edited post is
  linked to, and the moderation verdict) and \<open>SetDigest\<close>, both of \<^verbatim>\<open>internal/cmd/links.go\<close>.
\<close>

record CheckLink =
  kl_Other :: int
  kl_NoteHere :: int
  kl_NoteThere :: int
  kl_CombinedHere :: int
  kl_CombinedThere :: int

record SetCheck =
  sc_GroupID :: int
  sc_JobID :: int
  sc_Worker :: string
  sc_PostID :: int
  sc_Version :: int
  sc_Links :: "CheckLink list"
  sc_Entries :: "int list"
  sc_Sources :: "int list"
  sc_Sisters :: "SisterMatch list"
  sc_Verdict :: string
  sc_Category :: string
  sc_Reason :: string
  sc_At :: int

text \<open>One match linked: a candidate deleted meanwhile is skipped. \<open>addLink\<close> returns the errors
  a person could fix before it writes anything, so there is nothing to take back.\<close>

definition check_link :: "SetCheck \<Rightarrow> CheckLink \<Rightarrow> group_db \<Rightarrow> go_error + group_db" where
  "check_link c l db =
     (case addLink (sc_GroupID c) (sc_PostID c) (kl_Other l) ''auto'' 0
             (kl_NoteHere l, kl_NoteThere l, kl_CombinedHere l, kl_CombinedThere l) (sc_At c) db of
        Inl e \<Rightarrow> if IsInput e then Inr db else Inl e
      | Inr db1 \<Rightarrow> Inr db1)"

definition check_entry :: "SetCheck \<Rightarrow> int \<Rightarrow> group_db \<Rightarrow> group_db" where
  "check_entry c e db =
     (if map_option e_status (get_entry db e) = Some EntryActive then addFAQSource e (sc_PostID c) db else db)"

definition get_source :: "group_db \<Rightarrow> int \<Rightarrow> source_row option" where
  "get_source db i = find (\<lambda>s. so_id s = i) (sources db)"

definition check_source :: "SetCheck \<Rightarrow> int \<Rightarrow> group_db \<Rightarrow> go_error + group_db" where
  "check_source c s db =
     (if map_option so_status (get_source db s) = Some SrcActive
      then linkSource (sc_GroupID c) s (sc_PostID c) 0 (sc_At c) db else Inr db)"

text \<open>What the post is connected to, once the verdict lets it show.\<close>

definition check_links :: "SetCheck \<Rightarrow> post \<Rightarrow> group_db \<Rightarrow> go_error + group_db" where
  "check_links c p db =
     bindE (sisterHere (sc_PostID c) (sc_Sisters c) (sc_At c) db) (\<lambda>(kept, db1).
     let db2 = sendSisterSides (sc_GroupID c) (sc_PostID c) (p_title p) (p_created p) (p_thread_version p) kept (sc_At c) db1 in
     bindE (foldE (check_link c) (sc_Links c) db2) (\<lambda>db3.
     foldE (check_source c) (sc_Sources c) (fold (check_entry c) (sc_Entries c) db3)))"

definition apply_SetCheck :: "SetCheck \<Rightarrow> group_db plan" where
  "apply_SetCheck c = nilTx (\<lambda>db.
     bindE (the_post db (sc_PostID c)) (\<lambda>p.
     let (ok, db1) = finishJob (sc_JobID c) (sc_Worker c) (sc_Version c) (p_version p) (sc_At c) db in
     if \<not> ok then Inr db1
     else bindE (applyVerdict (sc_GroupID c) ''post'' (sc_PostID c) (sc_Verdict c) (sc_Category c) (sc_Reason c)
                   (sc_At c) db1) (\<lambda>(hidden, db2).
       if hidden \<noteq> [] \<or> sc_Verdict c = ''violation'' \<or> \<not> shown (p_status p) then Inr db2
       else check_links c p db2)))"

record SetDigest =
  dg_GroupID :: int
  dg_JobID :: int
  dg_Worker :: string
  dg_PostID :: int
  dg_Version :: int
  dg_Digest :: string
  dg_Topics :: "int list"
  dg_TopicsDone :: bool
  dg_At :: int

definition apply_SetDigest :: "SetDigest \<Rightarrow> group_db plan" where
  "apply_SetDigest c =
     (let digest = take MaxNoteLen (TrimSpace (dg_Digest c)) in
      nilTx (\<lambda>db.
        bindE (the_post db (dg_PostID c)) (\<lambda>p.
        let (ok, db1) = finishJob (dg_JobID c) (dg_Worker c) (dg_Version c) (p_thread_version p) (dg_At c) db in
        if \<not> ok then Inr db1
        else
          let db2 = db1\<lparr>posts := upd_where (\<lambda>q. p_id q = dg_PostID c)
                (\<lambda>q. q\<lparr>p_digest := nullIfEmpty digest, p_digest_updated := Some (dg_At c)\<rparr>) (posts db1)\<rparr>
          in if dg_TopicsDone c then setTopics (dg_PostID c) (dg_Topics c) ByAuto False db2 else Inr db2)))"

section \<open>They keep posts, comments and the index in step\<close>

lemma core_foldE:
  "(\<And>x d d'. f x d = Inr d' \<Longrightarrow> core d' = core d) \<Longrightarrow> foldE f xs db = Inr db' \<Longrightarrow> core db' = core db"
  by (induction xs arbitrary: db) (auto simp: bind_iffs)

lemma core_finish: "core (snd (finishJob j w v cur t db)) = core db"
  by (rule core_finishJob[of j w v cur t db "fst (finishJob j w v cur t db)"]) simp

lemma core_check_link: "check_link c l db = Inr db' \<Longrightarrow> core db' = core db"
  by (auto simp: check_link_def dest!: core_addLink split: sum.splits if_splits)

lemma core_check_entry [frame]: "core (check_entry c e db) = core db"
  by (simp add: check_entry_def frame)

lemma core_check_source: "check_source c s db = Inr db' \<Longrightarrow> core db' = core db"
  by (auto simp: check_source_def dest!: core_linkSource split: if_splits)

lemma core_check_links:
  assumes "check_links c p db = Inr db'"
  shows "core db' = core db"
proof -
  obtain kept db1 db3 where s: "sisterHere (sc_PostID c) (sc_Sisters c) (sc_At c) db = Inr (kept, db1)"
    and l: "foldE (check_link c) (sc_Links c) (sendSisterSides (sc_GroupID c) (sc_PostID c) (p_title p) (p_created p)
        (p_thread_version p) kept (sc_At c) db1) = Inr db3"
    and o: "foldE (check_source c) (sc_Sources c) (fold (check_entry c) (sc_Entries c) db3) = Inr db'"
    using assms by (auto simp: check_links_def bind_iffs Let_def)
  have "core db' = core db3" using core_foldE[OF core_check_source o] by (simp add: core_fold frame)
  also have "\<dots> = core db1" using core_foldE[OF core_check_link l] by (simp add: frame)
  finally show ?thesis using core_sisterHere[OF s] by simp
qed

lemma SetCheck_ok: "keeps group_ok (apply_SetCheck c)"
  unfolding apply_SetCheck_def keeps_nilTx
proof (intro allI impI okE_bind_any, goal_cases)
  case (1 db p)
  obtain ok db1 where f: "finishJob (sc_JobID c) (sc_Worker c) (sc_Version c) (p_version p) (sc_At c) db = (ok, db1)"
    by fastforce
  have ok1: "group_ok db1" using core_finishJob[OF f] 1(1) by (simp only: group_ok_def)
  have "group_ok db'" if v: "applyVerdict (sc_GroupID c) ''post'' (sc_PostID c) (sc_Verdict c) (sc_Category c)
      (sc_Reason c) (sc_At c) db1 = Inr (h, db2)" and "check_links c p db2 = Inr db'" for h db2 db'
    using applyVerdict_ok[OF ok1 v] core_check_links[OF that(2)] by (simp only: group_ok_def)
  with f ok1 show ?case by (auto simp: okE_iff bind_iffs dest: applyVerdict_ok)
qed

lemma SetDigest_ok: "keeps group_ok (apply_SetDigest c)"
proof -
  have upd: "core (db\<lparr>posts := upd_where P (\<lambda>q. q\<lparr>p_digest := x, p_digest_updated := y\<rparr>) (posts db)\<rparr>) = core db" for db P x y
    by (simp add: core_def map_upd_where post_core_def)
  show ?thesis unfolding apply_SetDigest_def Let_def
    by (rule keeps_core) (auto simp: case_prod_unfold bind_iffs upd core_finish dest!: core_setTopics split: if_splits)
qed

end
