(* ===== verification/Nudges.thy ===== *)
theory Nudges
  imports Check
begin

text \<open>
  Keeping long threads readable: \<^verbatim>\<open>internal/cmd/nudges.go\<close>. The summary note of a long
  thread with the comments it covers, the nudges a summary job makes, and a moderator taking
  either back. A nudge is on a comment of the thread; \<open>FeedWeight\<close> nudges are made by
  \<open>feedWeight\<close> (the theory \<open>NoteLinks\<close>).
\<close>

record Tangent =
  tg_From :: int
  tg_To :: int
  tg_About :: string

record Supersede =
  su_Comment :: int
  su_By :: int

record SetSummary =
  ss_GroupID :: int
  ss_JobID :: int
  ss_Worker :: string
  ss_PostID :: int
  ss_Version :: int
  ss_NoteID :: int
  ss_Text :: string
  ss_Covers :: "int list"
  ss_Useful :: "int list"
  ss_Tangents :: "Tangent list"
  ss_Superseded :: "Supersede list"
  ss_At :: int

section \<open>The summary note\<close>

definition shown_comments :: "group_db \<Rightarrow> int \<Rightarrow> int list" where
  "shown_comments db p = map c_id (filter (\<lambda>c. c_post c = p \<and> shown (c_status c)) (comments db))"

definition write_summary :: "SetSummary \<Rightarrow> string \<Rightarrow> int list \<Rightarrow> int \<Rightarrow> group_db \<Rightarrow> group_db" where
  "write_summary c text vis i db =
     (let db1 = db\<lparr>note_rows := upd_where (\<lambda>n. n_id n = i)
            (\<lambda>n. n\<lparr>n_text := text, n_stale := False, n_state := NoteActive, n_updated := ss_At c\<rparr>) (note_rows db)\<rparr>
      in db1\<lparr>note_sources := fold (\<lambda>cm. ins_ignore note_source_key
             \<lparr>ns_note = i, ns_group = ss_GroupID c, ns_post = ss_PostID c, ns_comment = cm, ns_source = 0, ns_covers = True\<rparr>)
           (filter (\<lambda>cm. cm \<in> set vis) (ss_Covers c)) (del_where (\<lambda>s. ns_note s = i) (note_sources db1))\<rparr>)"

definition put_summary :: "SetSummary \<Rightarrow> string \<Rightarrow> int list \<Rightarrow> int \<Rightarrow> group_db \<Rightarrow> group_db" where
  "put_summary c text vis i db =
     (if text = []
      then db\<lparr>note_rows := upd_where (\<lambda>n. n_id n = i) (\<lambda>n. n\<lparr>n_state := NoteRemovedState\<rparr>) (note_rows db)\<rparr>
      else write_summary c text vis i db)"

definition setSummaryNote :: "SetSummary \<Rightarrow> string \<Rightarrow> int list \<Rightarrow> group_db \<Rightarrow> go_error + group_db" where
  "setSummaryNote c text vis db =
     (case find (\<lambda>n. n_host n = ss_PostID c \<and> n_kind n = SummaryNote) (note_rows db) of
        Some n \<Rightarrow> if n_removed_by n \<noteq> None then Inr db else Inr (put_summary c text vis (n_id n) db)
      | None \<Rightarrow>
        if text = [] \<or> ss_Covers c = [] then Inr db
        else bindE (ins_new n_id (new_note (ss_NoteID c) (ss_PostID c) 0 SummaryNote 0 (ss_At c)) (note_rows db)) (\<lambda>t.
             Inr (put_summary c text vis (ss_NoteID c) (db\<lparr>note_rows := t\<rparr>))))"

section \<open>The nudges\<close>

definition add_nudge :: "SetSummary \<Rightarrow> int list \<Rightarrow> nudge_kind \<Rightarrow> int \<Rightarrow> int \<Rightarrow> string \<Rightarrow> group_db \<Rightarrow> group_db" where
  "add_nudge c vis k target v reason db =
     (if target \<notin> set vis then db
      else if list_ex (\<lambda>u. u_post u = ss_PostID c \<and> u_kind u = k \<and> u_target u = target \<and> u_state u = NudgeReversed) (nudges db)
      then db
      else db\<lparr>nudges := nudges db @
             [\<lparr>u_id = next_rowid u_id (nudges db), u_post = ss_PostID c, u_kind = k, u_target = target, u_value = v,
               u_reason = reason, u_set_by = None, u_state = NudgeActive, u_created = ss_At c\<rparr>]\<rparr>)"

definition nudge_tangent :: "SetSummary \<Rightarrow> int list \<Rightarrow> Tangent \<Rightarrow> group_db \<Rightarrow> group_db" where
  "nudge_tangent c vis t db =
     (let about = take 80 (squeeze (tg_About t)) in
      if about = [] \<or> tg_To t \<notin> set vis \<or> tg_To t < tg_From t then db
      else add_nudge c vis TangentNudge (tg_From t) (tg_To t) about db)"

definition nudge_superseded :: "SetSummary \<Rightarrow> int list \<Rightarrow> Supersede \<Rightarrow> group_db \<Rightarrow> group_db" where
  "nudge_superseded c vis s db =
     (if su_By s \<notin> set vis \<or> su_By s \<le> su_Comment s then db
      else add_nudge c vis SupersededNudge (su_Comment s) (su_By s) ''newer information below'' db)"

definition system_nudge :: "int \<Rightarrow> nudge \<Rightarrow> bool" where
  "system_nudge p u \<longleftrightarrow> u_post u = p \<and> u_kind u \<in> {Rank, TangentNudge, SupersededNudge}
     \<and> u_state u = NudgeActive \<and> u_set_by u = None"

definition setNudges :: "SetSummary \<Rightarrow> int list \<Rightarrow> group_db \<Rightarrow> group_db" where
  "setNudges c vis db =
     (let db1 = db\<lparr>nudges := del_where (system_nudge (ss_PostID c)) (nudges db)\<rparr>;
          db2 = fold (\<lambda>(i, cm). add_nudge c vis Rank cm (int i) ''carries the answer'') (enumerate 0 (take 5 (ss_Useful c))) db1;
          db3 = fold (nudge_tangent c vis) (ss_Tangents c) db2
      in fold (nudge_superseded c vis) (ss_Superseded c) db3)"

definition apply_SetSummary :: "SetSummary \<Rightarrow> group_db plan" where
  "apply_SetSummary c =
     (let text = take MaxNoteLen (TrimSpace (ss_Text c)) in
      nilTx (\<lambda>db.
        bindE (the_post db (ss_PostID c)) (\<lambda>p.
        let (ok, db1) = finishJob (ss_JobID c) (ss_Worker c) (ss_Version c) (p_thread_version p) (ss_At c) db in
        if \<not> ok then Inr db1
        else let vis = shown_comments db1 (ss_PostID c) in
             bindE (setSummaryNote c text vis db1) (\<lambda>db2. Inr (setNudges c vis db2)))))"

section \<open>A moderator takes one back\<close>

record ReverseNudge =
  rn_GroupID :: int
  rn_NudgeID :: int
  rn_By :: int
  rn_At :: int

definition nudge_kind_str :: "nudge_kind \<Rightarrow> string" where
  "nudge_kind_str k = (case k of Rank \<Rightarrow> ''rank'' | TangentNudge \<Rightarrow> ''tangent''
     | SupersededNudge \<Rightarrow> ''superseded'' | FeedWeight \<Rightarrow> ''feed_weight'')"

definition apply_ReverseNudge :: "ReverseNudge \<Rightarrow> group_db plan" where
  "apply_ReverseNudge c = nilTx (\<lambda>db.
     case find (\<lambda>u. u_id u = rn_NudgeID c) (nudges db) of
       None \<Rightarrow> Inl ErrGone
     | Some u \<Rightarrow>
       let db1 = db\<lparr>nudges := upd_where (\<lambda>u. u_id u = rn_NudgeID c)
                (\<lambda>u. u\<lparr>u_state := NudgeReversed, u_set_by := Some (rn_By c)\<rparr>) (nudges db)\<rparr>;
           db2 = (if u_kind u = FeedWeight
                  then db1\<lparr>posts := upd_where (\<lambda>p. p_id p = u_target u) (\<lambda>p. p\<lparr>p_sink := 0\<rparr>) (posts db1)\<rparr>
                  else db1)
       in Inr (modLog (rn_By c) ''nudge_reverse'' (nudge_kind_str (u_kind u)) (u_target u) [] (rn_At c) db2))"

record RemoveNote =
  rv_GroupID :: int
  rv_NoteID :: int
  rv_By :: int
  rv_At :: int

definition note_kind_str :: "note_kind \<Rightarrow> string" where
  "note_kind_str k = (case k of LinkNote \<Rightarrow> ''link'' | SummaryNote \<Rightarrow> ''summary'' | CombinedNote \<Rightarrow> ''combined'')"

definition apply_RemoveNote :: "RemoveNote \<Rightarrow> group_db plan" where
  "apply_RemoveNote c = nilTx (\<lambda>db.
     case get_note db (rv_NoteID c) of
       None \<Rightarrow> Inl ErrGone
     | Some n \<Rightarrow>
       failIf (n_kind n = LinkNote) (Invalid ''unlink the posts instead'') (
       Inr (modLog (rv_By c) ''note_remove'' ''post'' (n_host n) (note_kind_str (n_kind n)) (rv_At c)
         (db\<lparr>note_rows := upd_where (\<lambda>r. n_id r = rv_NoteID c)
               (\<lambda>r. r\<lparr>n_state := NoteRemovedState, n_removed_by := Some (rv_By c)\<rparr>) (note_rows db)\<rparr>))))"

section \<open>They keep posts, comments and the index in step\<close>

lemma core_nudge [frame]:
  "core (add_nudge c vis k t v r db) = core db" "core (nudge_tangent c vis tg db) = core db"
  "core (nudge_superseded c vis s db) = core db"
  by (simp_all add: core_def add_nudge_def nudge_tangent_def nudge_superseded_def Let_def)

lemma core_setNudges [frame]: "core (setNudges c vis db) = core db"
proof -
  have "core (db\<lparr>nudges := t\<rparr>) = core db" for t by (simp add: core_def)
  then show ?thesis unfolding setNudges_def by (simp add: Let_def core_fold frame case_prod_unfold)
qed

lemma core_setSummaryNote: "setSummaryNote c t vis db = Inr db' \<Longrightarrow> core db' = core db"
  by (auto simp: setSummaryNote_def put_summary_def write_summary_def core_def bind_iffs Let_def
      split: option.splits if_splits)

lemma SetSummary_ok: "keeps group_ok (apply_SetSummary c)"
  unfolding apply_SetSummary_def Let_def
  by (rule keeps_core) (auto simp: case_prod_unfold bind_iffs frame core_finish dest!: core_setSummaryNote split: if_splits)

lemma ReverseNudge_ok: "keeps group_ok (apply_ReverseNudge c)"
  unfolding apply_ReverseNudge_def Let_def
  by (rule keeps_core)
    (auto simp: frame core_def[of "_\<lparr>nudges := _\<rparr>"] core_def map_upd_where post_core_def modLog_def split: option.splits if_splits)

lemma RemoveNote_ok: "keeps group_ok (apply_RemoveNote c)"
  unfolding apply_RemoveNote_def Let_def
  by (rule keeps_core) (auto simp: core_def modLog_def bind_iffs split: option.splits)

section \<open>What a moderator reversed stays reversed\<close>

text \<open>\<open>settled c u db0 db\<close>: in \<open>db\<close> the reversed nudge \<open>u\<close> is still there, and no other of its
  kind on its comment has joined since \<open>db0\<close>.\<close>

definition settled :: "nudge \<Rightarrow> group_db \<Rightarrow> group_db \<Rightarrow> bool" where
  "settled u db0 db \<longleftrightarrow> u \<in> set (nudges db)
     \<and> (\<forall>w \<in> set (nudges db). u_post w = u_post u \<and> u_kind w = u_kind u \<and> u_target w = u_target u \<longrightarrow> w \<in> set (nudges db0))"

lemma settled_same: "nudges d' = nudges d \<Longrightarrow> settled u db0 d' = settled u db0 d"
  by (simp add: settled_def)

lemma settled_nudge:
  assumes "settled u db0 d" "u_post u = ss_PostID c" "u_state u = NudgeReversed"
  shows "settled u db0 (add_nudge c vis k t v r d)" "settled u db0 (nudge_tangent c vis tg d)"
    "settled u db0 (nudge_superseded c vis s d)"
proof -
  have *: "settled u db0 (add_nudge c vis k t v r d)" for k t v r
    using assms by (auto simp: add_nudge_def settled_def list_ex_iff)
  show "settled u db0 (add_nudge c vis k t v r d)" "settled u db0 (nudge_tangent c vis tg d)"
    "settled u db0 (nudge_superseded c vis s d)"
    using * assms(1) by (simp_all add: nudge_tangent_def nudge_superseded_def Let_def)
qed

lemma settled_fold:
  "(\<And>x d. settled u db0 d \<Longrightarrow> settled u db0 (f x d)) \<Longrightarrow> settled u db0 d \<Longrightarrow> settled u db0 (fold f xs d)"
  by (induction xs arbitrary: d) simp_all

lemma settled_setNudges:
  assumes "settled u db0 d" "u_post u = ss_PostID c" "u_state u = NudgeReversed"
  shows "settled u db0 (setNudges c vis d)"
proof -
  have "settled u db0 (d\<lparr>nudges := del_where (system_nudge (ss_PostID c)) (nudges d)\<rparr>)"
    using assms by (auto simp: settled_def system_nudge_def)
  then show ?thesis unfolding setNudges_def Let_def
    by (intro settled_fold settled_nudge[OF _ assms(2,3)]) (auto intro!: settled_nudge[OF _ assms(2,3)])
qed

lemma nudges_setSummaryNote: "setSummaryNote c t vis d = Inr d' \<Longrightarrow> nudges d' = nudges d"
  by (auto simp: setSummaryNote_def put_summary_def write_summary_def bind_iffs Let_def
      split: option.splits if_splits)

text \<open>C16: a nudge a moderator reversed is never made again: whatever a summary job asks for, its
  result keeps the reversed row and adds no other nudge of that kind on that comment.\<close>

theorem reversed_nudge_stays:
  assumes "run_plan (apply_SetSummary c) db = Inr (v, db')"
    and "u \<in> set (nudges db)" "u_post u = ss_PostID c" "u_state u = NudgeReversed"
  shows "u \<in> set (nudges db')
    \<and> (\<forall>w \<in> set (nudges db'). u_post w = u_post u \<and> u_kind w = u_kind u \<and> u_target w = u_target u
          \<longrightarrow> w \<in> set (nudges db))"
proof -
  obtain p where p: "the_post db (ss_PostID c) = Inr p"
    using assms(1) by (auto simp: apply_SetSummary_def run_nilTx bind_iffs)
  obtain ok d where f: "finishJob (ss_JobID c) (ss_Worker c) (ss_Version c) (p_thread_version p) (ss_At c) db = (ok, d)"
    by fastforce
  have d: "nudges d = nudges db" using f by (auto simp: finishJob_def split: prod.splits)
  have s: "settled u db d" using assms(2) by (simp add: settled_def d)
  have "settled u db db'"
  proof (cases ok)
    case True
    let ?vis = "shown_comments d (ss_PostID c)"
    obtain d2 where d2: "setSummaryNote c (take MaxNoteLen (TrimSpace (ss_Text c))) ?vis d = Inr d2"
      and db': "db' = setNudges c ?vis d2"
      using assms(1) p f True by (auto simp: apply_SetSummary_def run_nilTx bind_iffs Let_def)
    have "settled u db d2" using s settled_same[OF nudges_setSummaryNote[OF d2]] by simp
    then show ?thesis unfolding db' by (rule settled_setNudges[OF _ assms(3,4)])
  next
    case False
    then have "db' = d" using assms(1) p f by (simp add: apply_SetSummary_def run_nilTx)
    with s show ?thesis by simp
  qed
  then show ?thesis by (simp add: settled_def)
qed

definition a_reversed :: nudge where
  "a_reversed = \<lparr>u_id = 1, u_post = 4, u_kind = Rank, u_target = 6, u_value = 0, u_reason = ''carries the answer'',
     u_set_by = Some 7, u_state = NudgeReversed, u_created = 2\<rparr>"

definition long_thread :: group_db where
  "long_thread = empty_group_db\<lparr>posts := [new_post 4 (Some 7) ''pump'' [] 0 0],
     comments := [new_comment 6 4 None (Some 8) ''yes'' 1], nudges := [a_reversed],
     jobs := [\<lparr>j_id = 1, j_kind = JobSummary, j_ref = 4, j_ref_version = 1, j_run_after = 0, j_pending_since = 0,
       j_attempts = 0, j_claimed_by = Some ''w'', j_lease_until = Some 99, j_done_at = None, j_last_run = None,
       j_last_error = None, j_created = 0\<rparr>]\<rparr>"

lemma reversed_nudge_stays_witness:
  "\<exists>db'. run_plan (apply_SetSummary (SetSummary.make 1 1 ''w'' 4 1 9 [] [] [6] [] [] 50)) long_thread = Inr (VNil, db')
     \<and> a_reversed \<in> set (nudges db') \<and> list_all (\<lambda>w. w = a_reversed) (filter (\<lambda>w. u_kind w = Rank \<and> u_target w = 6 \<and> u_post w = 4) (nudges db'))"
proof -
  let ?c = "SetSummary.make 1 1 ''w'' 4 1 9 [] [] [6] [] [] 50"
  have blank: "TrimSpace [] = []" by (simp add: plain_text)
  obtain db' where r: "run_plan (apply_SetSummary ?c) long_thread = Inr (VNil, db')"
    by (simp add: apply_SetSummary_def SetSummary.defs run_nilTx long_thread_def the_post_def get_post_def new_post_def
        finishJob_def finish_in_def null_str_def setSummaryNote_def blank empty_group_db_def)
  have "a_reversed \<in> set (nudges long_thread)" "nudges long_thread = [a_reversed]" by (simp_all add: long_thread_def)
  with reversed_nudge_stays[OF r, of a_reversed] r show ?thesis by (auto simp: a_reversed_def SetSummary.defs list_all_iff)
qed

end
