(* ===== verification/Sources.thy ===== *)
theory Sources
  imports Nudges
begin

text \<open>
  Outside pages: \<^verbatim>\<open>internal/cmd/sources.go\<close>. A page is added by a member, a moderator or a
  seed list, read by a worker, approved, removed on request and restored; it is placed on posts
  and in FAQ entries (\<open>linkSource\<close>, in the theory \<open>NoteLinks\<close>). Parsing of URLs
  (\<^verbatim>\<open>net/url\<close>) and Unicode lower-casing are the library's: the record \<open>net_lib\<close> is a
  parameter of the definitions that use them, and what is proved holds for every such library.

  \<^verbatim>\<open>LIKE '%.' || domain\<close> is the suffix test in either case of ASCII letters: an allowed
  domain has passed \<open>ValidDomain\<close>, so it holds none of the pattern's own characters.
\<close>

section \<open>Web links\<close>

record 'u net_lib =
  Parse :: "string \<Rightarrow> 'u option"
  Scheme :: "'u \<Rightarrow> string"
  Host :: "'u \<Rightarrow> string"
  has_User :: "'u \<Rightarrow> bool"
  Hostname :: "'u \<Rightarrow> string"
  URL_String :: "'u \<Rightarrow> string"
  set_Host :: "string \<Rightarrow> 'u \<Rightarrow> 'u"
  drop_Fragment :: "'u \<Rightarrow> 'u"
  ToLower :: "string \<Rightarrow> string"

definition SourceURL :: "('u, 'a) net_lib_scheme \<Rightarrow> string \<Rightarrow> go_error + string \<times> string" where
  "SourceURL nl raw =
     (let bad = Inl (Invalid ''that doesn't look like a web link (it should start with https://)'') in
      case Parse nl (TrimSpace raw) of
        None \<Rightarrow> bad
      | Some u \<Rightarrow>
        if Scheme nl u \<noteq> ''http'' \<and> Scheme nl u \<noteq> ''https'' \<or> Host nl u = [] \<or> has_User nl u \<or> length raw > 2000
        then bad
        else let v = set_Host nl (ToLower nl (Host nl u)) (drop_Fragment nl u)
             in Inr (URL_String nl v, TrimPrefix (Hostname nl v) ''www.''))"

definition IsFacebook :: "string \<Rightarrow> bool" where
  "IsFacebook site = list_ex (\<lambda>d. site = d \<or> HasSuffix site (CHR ''.'' # d))
     [''facebook.com'', ''fb.com'', ''fb.me'', ''fb.watch'']"

definition ascii_lower :: "char \<Rightarrow> char" where
  "ascii_lower c = (if 65 \<le> byte c \<and> byte c \<le> 90 then char_of (byte c + 32) else c)"

definition site_allowed :: "group_db \<Rightarrow> string \<Rightarrow> bool" where
  "site_allowed db site = list_ex (\<lambda>r. site = sd_domain r
     \<or> HasSuffix (map ascii_lower site) (map ascii_lower (CHR ''.'' # sd_domain r))) (source_domains db)"

section \<open>The index and what is written from a page\<close>

definition sourceIndex :: "int \<Rightarrow> group_db \<Rightarrow> go_error + group_db" where
  "sourceIndex i db =
     (case get_source db i of
        None \<Rightarrow> Inl ErrGone
      | Some s \<Rightarrow> Inr (if so_status s \<noteq> SrcActive \<or> so_summary s = [] \<or> so_is_list s then ftsDel i db
                     else ftsPut FtsSource i 0 (so_title s) (so_summary s) db))"

definition upd_source :: "int \<Rightarrow> (source_row \<Rightarrow> source_row) \<Rightarrow> group_db \<Rightarrow> group_db" where
  "upd_source i f db = db\<lparr>sources := upd_where (\<lambda>s. so_id s = i) f (sources db)\<rparr>"

definition refresh_note :: "int \<Rightarrow> int \<Rightarrow> group_db \<Rightarrow> group_db" where
  "refresh_note at n db =
     (let db1 = db\<lparr>note_rows := upd_where (\<lambda>r. n_id r = n) (\<lambda>r. r\<lparr>n_stale := True\<rparr>) (note_rows db)\<rparr>
      in schedule JobNote n (noteVersion db1 n) (at + QuietPeriod) at db1)"

definition sourceChanged :: "int \<Rightarrow> int \<Rightarrow> group_db \<Rightarrow> group_db" where
  "sourceChanged i at db =
     (let entries = map sl_entry (filter (\<lambda>l. sl_source l = i \<and> sl_entry l \<noteq> 0) (source_links db));
          db1 = fold entryChanged entries db;
          noted = map ns_note (filter (\<lambda>s. ns_source s = i) (note_sources db1))
      in fold (refresh_note at) noted db1)"

section \<open>Adding a page\<close>

abbreviation MaxSummaryLen :: nat where "MaxSummaryLen \<equiv> 600"

record AddSource =
  ax_GroupID :: int
  ax_SourceID :: int
  ax_URL :: string
  ax_Summary :: string
  ax_Via :: string
  ax_List :: bool
  ax_AddedBy :: int
  ax_PostID :: int
  ax_EntryID :: int
  ax_At :: int

text \<open>The kind of page, the status it starts with, and whether it is read now.\<close>

definition via_start :: "group_db \<Rightarrow> string \<Rightarrow> string \<Rightarrow> go_error + via \<times> source_status \<times> bool" where
  "via_start db site v =
     (if v = ''described'' then Inr (ViaDescribed, SrcActive, False)
      else if v = ''mod'' then Inr (ViaMod, SrcActive, True)
      else if v = ''seed'' then Inr (ViaSeed, SrcPending, True)
      else if v = ''member'' then
        (if site_allowed db site then Inr (ViaMember, SrcActive, True) else Inr (ViaMember, SrcPending, False))
      else Inl (InvalidQuoted ''unknown source kind '' v))"

definition new_source :: "int \<Rightarrow> string \<Rightarrow> string \<Rightarrow> string \<Rightarrow> via \<Rightarrow> int \<Rightarrow> source_status \<Rightarrow> bool \<Rightarrow> int \<Rightarrow> source_row" where
  "new_source i url site summary v who st is_list at = \<lparr>so_id = i, so_url = url, so_site = site, so_title = [],
     so_published = None, so_summary = summary, so_hash = None, so_via = v, so_added_by = nullIfZero who,
     so_status = st, so_version = 1, so_problem = [], so_is_list = is_list, so_checked = None, so_created = at\<rparr>"

definition addSource :: "int \<Rightarrow> int \<Rightarrow> string \<Rightarrow> string \<Rightarrow> string \<Rightarrow> string \<Rightarrow> bool \<Rightarrow> int \<Rightarrow> int \<Rightarrow> int \<Rightarrow> int \<Rightarrow> group_db
    \<Rightarrow> go_error + int \<times> group_db" where
  "addSource groupID i url site summary v is_list who p entry at db =
     (case find (\<lambda>s. so_url s = url) (sources db) of
        Some s \<Rightarrow> bindE (linkSource groupID (so_id s) p entry at db) (\<lambda>d. Inr (so_id s, d))
      | None \<Rightarrow>
        bindE (via_start db site v) (\<lambda>(k, st, read).
        bindE (ins_new so_id (new_source i url site summary k who st is_list at) (sources db)) (\<lambda>t.
        let db1 = db\<lparr>sources := t\<rparr>;
            db2 = (if read then schedule (if is_list then JobSeed else JobSource) i 1 at at db1 else db1)
        in bindE (sourceIndex i db2) (\<lambda>db3.
           bindE (linkSource groupID i p entry at db3) (\<lambda>db4. Inr (i, db4))))))"

definition apply_AddSource :: "('u, 'a) net_lib_scheme \<Rightarrow> AddSource \<Rightarrow> group_db plan" where
  "apply_AddSource nl c =
     (case SourceURL nl (ax_URL c) of
        Inl e \<Rightarrow> Refuse e
      | Inr (url, site) \<Rightarrow>
        let summary = squeeze (ax_Summary c);
            v = (if summary \<noteq> [] then ''described'' else ax_Via c)
        in if summary \<noteq> [] \<and> length summary > MaxSummaryLen
           then Refuse (Invalid ''keep the description under 600 characters'')
           else if summary = [] \<and> IsFacebook site
           then Refuse (Invalid ''Facebook pages can't be read here; add a short description of what the post says'')
           else Tx (VInt 0) (\<lambda>db.
             bindE (addSource (ax_GroupID c) (ax_SourceID c) url site summary v (ax_List c) (ax_AddedBy c)
                      (ax_PostID c) (ax_EntryID c) (ax_At c) db) (\<lambda>(i, db1). Inr (VInt i, db1))))"

section \<open>A page as read\<close>

record SetSource =
  rd_GroupID :: int
  rd_JobID :: int
  rd_Worker :: string
  rd_SourceID :: int
  rd_Version :: int
  rd_Title :: string
  rd_PublishedAt :: int
  rd_Summary :: string
  rd_ContentHash :: string
  rd_Gone :: bool
  rd_Problem :: string
  rd_At :: int

definition back_up :: "source_status \<Rightarrow> source_status" where
  "back_up st = (if st = SrcGone then SrcActive else st)"

definition page_read :: "SetSource \<Rightarrow> source_row \<Rightarrow> group_db \<Rightarrow> group_db" where
  "page_read c s db =
     (let i = rd_SourceID c; at = rd_At c; st = so_status s in
      if rd_Gone c then
        upd_source i (\<lambda>r. r\<lparr>so_status := (if st = SrcActive then SrcGone else st), so_checked := Some at, so_problem := []\<rparr>) db
      else if rd_Problem c \<noteq> [] then
        upd_source i (\<lambda>r. r\<lparr>so_checked := Some at, so_problem := rd_Problem c\<rparr>) db
      else if rd_ContentHash c = null_str (so_hash s) then
        upd_source i (\<lambda>r. r\<lparr>so_status := back_up st, so_checked := Some at, so_problem := []\<rparr>) db
      else
        sourceChanged i at (upd_source i (\<lambda>r. r\<lparr>so_status := back_up st, so_title := take 300 (squeeze (rd_Title c)),
          so_published := nullIfZero (rd_PublishedAt c), so_summary := take MaxSummaryLen (squeeze (rd_Summary c)),
          so_hash := Some (rd_ContentHash c), so_checked := Some at, so_problem := []\<rparr>) db))"

definition apply_SetSource :: "SetSource \<Rightarrow> group_db plan" where
  "apply_SetSource c = nilTx (\<lambda>db.
     case get_source db (rd_SourceID c) of
       None \<Rightarrow> Inl ErrGone
     | Some s \<Rightarrow>
       let (ok, db1) = finishJob (rd_JobID c) (rd_Worker c) (rd_Version c) (so_version s) (rd_At c) db in
       if \<not> ok \<or> so_status s = SrcRemoved \<or> so_via s = ViaDescribed then Inr db1
       else sourceIndex (rd_SourceID c) (page_read c s db1))"

record SeedURL =
  sx_ID :: int
  sx_URL :: string

record AddSeeds =
  ad_GroupID :: int
  ad_JobID :: int
  ad_Worker :: string
  ad_ListID :: int
  ad_Version :: int
  ad_URLs :: "SeedURL list"
  ad_Problem :: string
  ad_At :: int

definition add_seed :: "('u, 'a) net_lib_scheme \<Rightarrow> AddSeeds \<Rightarrow> SeedURL \<Rightarrow> group_db \<Rightarrow> go_error + group_db" where
  "add_seed nl c s db =
     (case SourceURL nl (sx_URL s) of
        Inl _ \<Rightarrow> Inr db
      | Inr (url, site) \<Rightarrow>
        if IsFacebook site then Inr db
        else bindE (addSource (ad_GroupID c) (sx_ID s) url site [] ''seed'' False 0 0 0 (ad_At c) db) (\<lambda>(i, d). Inr d))"

definition apply_AddSeeds :: "('u, 'a) net_lib_scheme \<Rightarrow> AddSeeds \<Rightarrow> group_db plan" where
  "apply_AddSeeds nl c = nilTx (\<lambda>db.
     case get_source db (ad_ListID c) of
       None \<Rightarrow> Inl ErrGone
     | Some s \<Rightarrow>
       let (ok, db1) = finishJob (ad_JobID c) (ad_Worker c) (ad_Version c) (so_version s) (ad_At c) db in
       if \<not> ok then Inr db1
       else foldE (add_seed nl c) (take 50 (ad_URLs c))
              (upd_source (ad_ListID c) (\<lambda>r. r\<lparr>so_checked := Some (ad_At c), so_problem := ad_Problem c\<rparr>) db1))"

section \<open>Moderating pages\<close>

record ApproveSources =
  av_GroupID :: int
  av_SourceIDs :: "int list"
  av_By :: int
  av_At :: int

definition approve_source :: "ApproveSources \<Rightarrow> int \<Rightarrow> group_db \<Rightarrow> go_error + group_db" where
  "approve_source c i db =
     (case find (\<lambda>s. so_id s = i \<and> \<not> so_is_list s) (sources db) of
        None \<Rightarrow> Inr db
      | Some s \<Rightarrow>
        if so_status s \<noteq> SrcPending then Inr db
        else let db1 = upd_source i (\<lambda>r. r\<lparr>so_status := SrcActive\<rparr>) db;
                 db2 = (if so_summary s = [] then schedule JobSource i (so_version s) (av_At c) (av_At c) db1 else db1)
             in bindE (sourceIndex i db2) (\<lambda>db3.
                Inr (modLog (av_By c) ''source_approve'' ''source'' i [] (av_At c) db3)))"

definition apply_ApproveSources :: "ApproveSources \<Rightarrow> group_db plan" where
  "apply_ApproveSources c = nilTx (foldE (approve_source c) (av_SourceIDs c))"

record RemoveSource =
  rz_GroupID :: int
  rz_SourceID :: int
  rz_By :: int
  rz_Request :: bool
  rz_Reason :: string
  rz_At :: int

definition apply_RemoveSource :: "RemoveSource \<Rightarrow> group_db plan" where
  "apply_RemoveSource c = nilTx (\<lambda>db.
     let i = rz_SourceID c; live = (\<lambda>s. so_id s = i \<and> so_status s \<noteq> SrcRemoved) in
     if affected live (sources db) = 0 then Inr db
     else
       let db1 = db\<lparr>sources := upd_where live
             (\<lambda>s. s\<lparr>so_status := SrcRemoved, so_summary := [], so_title := [], so_hash := None\<rparr>) (sources db)\<rparr>;
           db2 = sourceChanged i (rz_At c) (ftsDel i db1)
       in Inr (modLog (rz_By c) (if rz_Request c then ''removal_request'' else ''source_remove'') ''source'' i
            (rz_Reason c) (rz_At c) db2))"

record RestoreSource =
  rq_GroupID :: int
  rq_SourceID :: int
  rq_By :: int
  rq_At :: int

definition apply_RestoreSource :: "RestoreSource \<Rightarrow> group_db plan" where
  "apply_RestoreSource c = nilTx (\<lambda>db.
     let i = rq_SourceID c in
     case find (\<lambda>s. so_id s = i \<and> so_status s = SrcRemoved) (sources db) of
       None \<Rightarrow> Inl ErrGone
     | Some s \<Rightarrow>
       failIf (so_via s = ViaDescribed) (Invalid ''its description was erased; add the link again with a new one'') (
       let db1 = upd_source i (\<lambda>r. r\<lparr>so_status := SrcActive, so_version := so_version r + 1\<rparr>) db;
           db2 = schedule JobSource i (so_version s + 1) (rq_At c) (rq_At c) db1
       in Inr (modLog (rq_By c) ''source_restore'' ''source'' i [] (rq_At c) db2)))"

record AllowDomain =
  aw_GroupID :: int
  aw_Domain :: string
  aw_Allow :: bool
  aw_By :: int
  aw_At :: int

definition apply_AllowDomain :: "('u, 'a) net_lib_scheme \<Rightarrow> AllowDomain \<Rightarrow> group_db plan" where
  "apply_AllowDomain nl c =
     (let d = TrimPrefix (ToLower nl (TrimSpace (aw_Domain c))) ''www.'' in
      case ValidDomain d of
        Some e \<Rightarrow> Refuse e
      | None \<Rightarrow>
        if IsFacebook d
        then Refuse (Invalid ''Facebook pages are never read; members add them with a description instead'')
        else nilTx (\<lambda>db.
          if \<not> aw_Allow c
          then Inr (db\<lparr>source_domains := del_where (\<lambda>r. sd_domain r = d) (source_domains db)\<rparr>)
          else Inr (modLog (aw_By c) ''source_domain_allow'' ''group'' 0 d (aw_At c)
                 (db\<lparr>source_domains := ins_ignore sd_domain
                       \<lparr>sd_domain = d, sd_added_by = aw_By c, sd_created = aw_At c\<rparr> (source_domains db)\<rparr>))))"

record DetachSource =
  dt_GroupID :: int
  dt_SourceID :: int
  dt_PostID :: int
  dt_EntryID :: int
  dt_By :: int
  dt_At :: int

definition apply_DetachSource :: "DetachSource \<Rightarrow> group_db plan" where
  "apply_DetachSource c = nilTx (\<lambda>db.
     let db1 = db\<lparr>source_links := del_where (\<lambda>l. source_link_key l = (dt_SourceID c, dt_PostID c, dt_EntryID c))
                    (source_links db)\<rparr>
     in if dt_EntryID c \<noteq> 0 then Inr (entryChanged (dt_EntryID c) db1)
        else syncCombined (dt_GroupID c) (dt_PostID c) 0 (dt_At c) db1)"

record RequestArchiveRemoval =
  rar_GroupID :: int
  rar_PostID :: int
  rar_By :: int
  rar_Reason :: string
  rar_At :: int

definition apply_RequestArchiveRemoval :: "RequestArchiveRemoval \<Rightarrow> group_db plan" where
  "apply_RequestArchiveRemoval c = nilTx (\<lambda>db.
     bindE (the_post db (rar_PostID c)) (\<lambda>p.
     failIf (p_origin p \<noteq> Archive)
       (Invalid ''only archive threads are removed on request; report other posts to the mods'') (
     if p_status p = Removed \<or> p_status p = Deleted then Inr db
     else
       let db1 = db\<lparr>posts := upd_where (\<lambda>q. p_id q = rar_PostID c)
             (\<lambda>q. q\<lparr>p_status := Removed, p_removed_reason := Some ''removal request'', p_deleted_at := Some (rar_At c),
                    p_purge_after := Some (rar_At c + ModRemoveKeep)\<rparr>) (posts db)\<rparr>;
           db2 = db1\<lparr>search_fts := del_where (\<lambda>r. f_post r = rar_PostID c) (search_fts db1)\<rparr>
       in bindE (threadChanged (rar_GroupID c) (rar_PostID c) (rar_At c) db2) (\<lambda>db3.
          Inr (modLog (rar_By c) ''removal_request'' ''post'' (rar_PostID c) (rar_Reason c) (rar_At c) db3)))))"

section \<open>They keep posts, comments and the index in step\<close>

lemma core_upd_source [frame]: "core (upd_source i f db) = core db"
  by (simp add: core_def upd_source_def)

lemma core_refresh_note [frame]: "core (refresh_note t n db) = core db"
  by (simp add: refresh_note_def Let_def frame core_def[of "_\<lparr>note_rows := _\<rparr>"] core_def[of db])

lemma core_sourceChanged [frame]: "core (sourceChanged i t db) = core db"
  by (simp add: sourceChanged_def Let_def core_fold frame)

lemma core_page_read [frame]: "core (page_read c s db) = core db"
  by (simp add: page_read_def Let_def frame)

lemma group_ok_same: "core db' = core db \<Longrightarrow> group_ok db \<Longrightarrow> group_ok db'"
  by (simp add: group_ok_def)

lemma sourceIndex_ok: "group_ok db \<Longrightarrow> sourceIndex i db = Inr db' \<Longrightarrow> group_ok db'"
  by (auto simp: sourceIndex_def ftsDel_ok ftsPut_other_ok split: option.splits)

lemma addSource_ok:
  assumes "group_ok db" "addSource g i u s su v l w p e t db = Inr (r, db')"
  shows "group_ok db'"
proof (cases "find (\<lambda>s. so_url s = u) (sources db)")
  case None
  have same: "group_ok (if b then schedule k i 1 t t (db\<lparr>sources := ss\<rparr>) else db\<lparr>sources := ss\<rparr>)" for b k ss
    by (rule group_ok_same[OF _ assms(1)]) (simp add: frame core_def[of "_\<lparr>sources := _\<rparr>"] core_def[of db])
  from assms(2) None show ?thesis
    by (auto simp: addSource_def bind_iffs Let_def dest!: core_linkSource sourceIndex_ok[OF same] intro: group_ok_same)
next
  case (Some s)
  with assms show ?thesis by (auto simp: addSource_def bind_iffs dest!: core_linkSource intro: group_ok_same)
qed

lemma AddSource_ok: "keeps group_ok (apply_AddSource nl c)"
  unfolding apply_AddSource_def Let_def
  by (auto simp: keeps_def okE_iff bind_iffs dest: addSource_ok split: sum.splits)

lemma SetSource_ok: "keeps group_ok (apply_SetSource c)"
  unfolding apply_SetSource_def keeps_nilTx
proof (intro allI impI)
  fix db assume ok: "group_ok db"
  have same: "group_ok (page_read c s (snd (finishJob j w v cur t db)))" "group_ok (snd (finishJob j w v cur t db))"
    for s j w v cur t
    using ok by (auto intro!: group_ok_same[OF _ ok] simp: frame core_finish)
  show "okE group_ok (case get_source db (rd_SourceID c) of None \<Rightarrow> Inl ErrGone
     | Some s \<Rightarrow> let (ok, db1) = finishJob (rd_JobID c) (rd_Worker c) (rd_Version c) (so_version s) (rd_At c) db in
       if \<not> ok \<or> so_status s = SrcRemoved \<or> so_via s = ViaDescribed then Inr db1
       else sourceIndex (rd_SourceID c) (page_read c s db1))"
    using same by (auto simp: case_prod_unfold Let_def okE_iff dest: sourceIndex_ok[OF same(1)] split: option.splits)
qed

lemma AddSeeds_ok: "keeps group_ok (apply_AddSeeds nl c)"
  unfolding apply_AddSeeds_def keeps_nilTx
proof (intro allI impI)
  fix db assume ok: "group_ok db"
  have same: "group_ok (upd_source i f (snd (finishJob j w v cur t db)))" "group_ok (snd (finishJob j w v cur t db))"
    for i f j w v cur t
    using ok by (auto intro!: group_ok_same[OF _ ok] simp: frame core_finish)
  have step: "okE group_ok (add_seed nl c x d)" if "group_ok d" for x d
    using that by (auto simp: add_seed_def okE_iff bind_iffs dest: addSource_ok split: sum.splits)
  show "okE group_ok (case get_source db (ad_ListID c) of None \<Rightarrow> Inl ErrGone
     | Some s \<Rightarrow> let (ok, db1) = finishJob (ad_JobID c) (ad_Worker c) (ad_Version c) (so_version s) (ad_At c) db in
       if \<not> ok then Inr db1
       else foldE (add_seed nl c) (take 50 (ad_URLs c))
              (upd_source (ad_ListID c) (\<lambda>r. r\<lparr>so_checked := Some (ad_At c), so_problem := ad_Problem c\<rparr>) db1))"
    using same by (auto simp: case_prod_unfold Let_def intro!: okE_foldE step split: option.splits)
qed

lemma ApproveSources_ok: "keeps group_ok (apply_ApproveSources c)"
proof -
  have "okE group_ok (approve_source c i db)" if ok: "group_ok db" for i db
  proof -
    have same: "group_ok (if b then schedule k i v t t (upd_source i f db) else upd_source i f db)" for b k v t f
      by (rule group_ok_same[OF _ ok]) (simp add: frame)
    have "group_ok db'" if run: "approve_source c i db = Inr db'" for db'
    proof (cases "find (\<lambda>s. so_id s = i \<and> \<not> so_is_list s) (sources db)")
      case None
      with run ok show ?thesis by (simp add: approve_source_def)
    next
      case (Some s)
      show ?thesis
      proof (cases "so_status s = SrcPending")
        case True
        then obtain d where d: "sourceIndex i (if so_summary s = [] then schedule JobSource i (so_version s) (av_At c) (av_At c)
              (upd_source i (\<lambda>r. r\<lparr>so_status := SrcActive\<rparr>) db) else upd_source i (\<lambda>r. r\<lparr>so_status := SrcActive\<rparr>) db) = Inr d"
          and db': "db' = modLog (av_By c) ''source_approve'' ''source'' i [] (av_At c) d"
          using run Some unfolding approve_source_def Let_def bindE_Inr_iff option.case by (auto simp: bindE_Inr_iff)
        show ?thesis unfolding db' using sourceIndex_ok[OF same d] by (simp add: mod_ok_frame)
      next
        case False
        with run Some ok show ?thesis by (simp add: approve_source_def)
      qed
    qed
    then show ?thesis by (simp add: okE_iff)
  qed
  then show ?thesis unfolding apply_ApproveSources_def keeps_nilTx by (auto intro: okE_foldE)
qed

lemma RemoveSource_ok: "keeps group_ok (apply_RemoveSource c)"
proof -
  have "group_ok (modLog a x y z r t (sourceChanged i u (ftsDel i (db\<lparr>sources := s\<rparr>))))" if "group_ok db" for a x y z r t i u s db
  proof -
    have "group_ok (ftsDel i (db\<lparr>sources := s\<rparr>))"
      using that by (intro ftsDel_ok) (simp add: group_ok_def core_def)
    then show ?thesis by (simp add: group_ok_def frame)
  qed
  then show ?thesis unfolding apply_RemoveSource_def keeps_nilTx Let_def by simp
qed

lemma RestoreSource_ok: "keeps group_ok (apply_RestoreSource c)"
  unfolding apply_RestoreSource_def Let_def
  by (rule keeps_core) (auto simp: bind_iffs frame split: option.splits)

lemma AllowDomain_ok: "keeps group_ok (apply_AllowDomain nl c)"
proof -
  have "core (db\<lparr>source_domains := t\<rparr>) = core db" for db t by (simp add: core_def)
  then show ?thesis unfolding apply_AllowDomain_def Let_def
    by (auto intro!: keeps_core keeps_if simp: frame split: option.splits if_splits)
qed

lemma DetachSource_ok: "keeps group_ok (apply_DetachSource c)"
proof -
  have "core (db\<lparr>source_links := t\<rparr>) = core db" for db t by (simp add: core_def)
  then show ?thesis unfolding apply_DetachSource_def Let_def
    by (intro keeps_core) (auto simp: frame dest!: core_syncCombined split: if_splits)
qed

lemma RequestArchiveRemoval_ok: "keeps group_ok (apply_RequestArchiveRemoval c)"
proof -
  have step: "group_ok (db\<lparr>posts := upd_where (\<lambda>q. p_id q = i) (\<lambda>q. q\<lparr>p_status := Removed, p_removed_reason := w,
        p_deleted_at := d, p_purge_after := u\<rparr>) (posts db),
        search_fts := del_where (\<lambda>r. f_post r = i) (search_fts db)\<rparr>)"
    if "group_ok db" "the_post db i = Inr p" for db i p w d u
  proof (rule post_change_ok[OF that(1), where p = p and i = i and f = "\<lambda>q. q\<lparr>p_status := Removed, p_removed_reason := w,
        p_deleted_at := d, p_purge_after := u\<rparr>"])
    show g: "get_post db i = Some p" using that(2) by (simp add: the_post_Inr)
    fix r assume "r \<in> set (search_fts (db\<lparr>posts := upd_where (\<lambda>q. p_id q = i) (\<lambda>q. q\<lparr>p_status := Removed,
        p_removed_reason := w, p_deleted_at := d, p_purge_after := u\<rparr>) (posts db),
        search_fts := del_where (\<lambda>r. f_post r = i) (search_fts db)\<rparr>))"
    then have r: "r \<in> set (search_fts db)" "f_post r \<noteq> i" by simp_all
    then have "row_ok (map post_core (posts db)) (map comment_core (comments db)) r"
      using that(1) by (auto simp: group_ok_def core_def core_ok_def)
    with r show "r \<in> set (search_fts db) \<and> (f_kind r = FtsItem Post \<longrightarrow> f_rowid r \<noteq> i)
        \<or> shown (p_status (p\<lparr>p_status := Removed, p_removed_reason := w, p_deleted_at := d, p_purge_after := u\<rparr>))
          \<and> r = post_fts (p\<lparr>p_status := Removed, p_removed_reason := w, p_deleted_at := d, p_purge_after := u\<rparr>)"
      by (auto simp: row_ok_def)
  qed (use group_ok_post_row[OF that(1)] get_post_mem that(2) in \<open>auto simp: gone_def the_post_Inr\<close>)
  show ?thesis unfolding apply_RequestArchiveRemoval_def keeps_nilTx Let_def
  proof (intro allI impI okE_bind_any okE_failIf)
    fix db p assume ok: "group_ok db" "the_post db (rar_PostID c) = Inr p"
    show "okE group_ok (if p_status p = Removed \<or> p_status p = Deleted then Inr db
       else bindE (threadChanged (rar_GroupID c) (rar_PostID c) (rar_At c)
              (db\<lparr>posts := upd_where (\<lambda>q. p_id q = rar_PostID c)
                 (\<lambda>q. q\<lparr>p_status := Removed, p_removed_reason := Some ''removal request'', p_deleted_at := Some (rar_At c),
                        p_purge_after := Some (rar_At c + ModRemoveKeep)\<rparr>) (posts db)\<rparr>
               \<lparr>search_fts := del_where (\<lambda>r. f_post r = rar_PostID c) (search_fts (db\<lparr>posts := upd_where (\<lambda>q. p_id q = rar_PostID c)
                 (\<lambda>q. q\<lparr>p_status := Removed, p_removed_reason := Some ''removal request'', p_deleted_at := Some (rar_At c),
                        p_purge_after := Some (rar_At c + ModRemoveKeep)\<rparr>) (posts db)\<rparr>))\<rparr>))
            (\<lambda>db3. Inr (modLog (rar_By c) ''removal_request'' ''post'' (rar_PostID c) (rar_Reason c) (rar_At c) db3)))"
      using ok(1)
      by (auto simp: bind_iffs frame dest!: core_threadChanged intro!: okE_core[OF step[OF ok,
          where w = "Some ''removal request''" and d = "Some (rar_At c)" and u = "Some (rar_At c + ModRemoveKeep)"]])
  qed
qed

end
