(* ===== verification/SourceLaws.thy ===== *)
theory SourceLaws
  imports Sources
begin

text \<open>
  What the commands on outside pages promise together: a page taken down stays down whatever else
  is asked, and nothing queues a Facebook page for reading.
\<close>

section \<open>The page commands as one family of steps\<close>

datatype source_cmd =
    SAdd AddSource
  | SRead SetSource
  | SSeeds AddSeeds
  | SApprove ApproveSources
  | SRemove RemoveSource
  | SDomain AllowDomain
  | SDetach DetachSource

fun source_plan :: "('u, 'a) net_lib_scheme \<Rightarrow> source_cmd \<Rightarrow> group_db plan" where
  "source_plan nl (SAdd c) = apply_AddSource nl c"
| "source_plan nl (SRead c) = apply_SetSource c"
| "source_plan nl (SSeeds c) = apply_AddSeeds nl c"
| "source_plan nl (SApprove c) = apply_ApproveSources c"
| "source_plan nl (SRemove c) = apply_RemoveSource c"
| "source_plan nl (SDomain c) = apply_AllowDomain nl c"
| "source_plan nl (SDetach c) = apply_DetachSource c"

text \<open>A command that fails leaves the file as it was.\<close>

definition source_step :: "('u, 'a) net_lib_scheme \<Rightarrow> source_cmd \<Rightarrow> group_db \<Rightarrow> group_db" where
  "source_step nl c db = (case run_plan (source_plan nl c) db of Inl _ \<Rightarrow> db | Inr (v, db') \<Rightarrow> db')"

section \<open>What helpers leave of pages, jobs for pages, and the index\<close>

definition reads :: "group_db \<Rightarrow> int set" where
  "reads db = {j_ref j | j. j \<in> set (jobs db) \<and> j_kind j \<in> {JobSource, JobSeed}}"

definition pages :: "group_db \<Rightarrow> source_row list \<times> int set \<times> fts_row list" where
  "pages db = (sources db, reads db, search_fts db)"

lemma job_keys_schedule: "job_key ` set (schedule_in k r v a t js) = insert (k, r) (job_key ` set js)"
proof -
  let ?new = "new_job (next_rowid j_id js) k r v a t"
  have new: "job_key ?new = (k, r)" by (simp add: new_job_def job_key_def)
  have "map job_key (upd_where P (reschedule v a t) js) = map job_key js" for P
    by (rule map_upd_where) (rule reschedule_simps(2))
  then have upd: "job_key ` set (upd_where P (reschedule v a t) js) = job_key ` set js" for P
    by (metis list.set_map)
  show ?thesis
  proof (cases "has_key job_key (k, r) js")
    case True
    then show ?thesis by (simp add: schedule_in_def upsert_def new upd has_key_iff insert_absorb)
  next
    case False
    then show ?thesis by (simp add: schedule_in_def upsert_def new)
  qed
qed

lemma reads_keys: "reads db = {r. \<exists>k \<in> {JobSource, JobSeed}. (k, r) \<in> job_key ` set (jobs db)}"
  by (force simp: reads_def job_key_def image_iff)

lemma reads_schedule [frame]:
  "reads (schedule k r v a t db) = (if k \<in> {JobSource, JobSeed} then insert r (reads db) else reads db)"
  by (auto simp: reads_keys schedule_def job_keys_schedule)


lemma pages_parts:
  "pages db' = pages db \<longleftrightarrow> sources db' = sources db \<and> reads db' = reads db \<and> search_fts db' = search_fts db"
  by (auto simp: pages_def)

lemma pages_frame [frame]:
  "pages (entryChanged e db) = pages db" "pages (modLog a x y z r t db) = pages db"
  "pages (set_note_state i st db) = pages db"
  by (simp_all add: pages_parts reads_def entryChanged_def modLog_def set_note_state_def)

lemma pages_schedule_note [frame]: "pages (schedule JobNote i v u t db) = pages db"
  by (simp add: pages_parts frame)

lemma pages_tables [simp]:
  "pages (db\<lparr>note_rows := n\<rparr>) = pages db" "pages (db\<lparr>note_sources := ns\<rparr>) = pages db"
  "pages (db\<lparr>source_links := sl\<rparr>) = pages db" "pages (db\<lparr>source_domains := sd\<rparr>) = pages db"
  by (simp_all add: pages_def reads_def)

lemma pages_fold: "(\<And>x d. pages (f x d) = pages d) \<Longrightarrow> pages (fold f xs db) = pages db"
  by (induction xs arbitrary: db) simp_all

lemma pages_syncCombined: "syncCombined g h i t db = Inr db' \<Longrightarrow> pages db' = pages db"
  by (auto simp: syncCombined_def fill_combined_def bind_iffs Let_def frame split: option.splits if_splits)

lemma pages_linkSource: "linkSource g s p e t db = Inr db' \<Longrightarrow> pages db' = pages db"
  by (auto simp: linkSource_def Let_def frame dest!: pages_syncCombined split: if_splits)

lemma pages_sourceChanged [frame]: "pages (sourceChanged i t db) = pages db"
  by (simp add: sourceChanged_def refresh_note_def Let_def pages_fold frame)

lemma pages_finish [frame]: "pages (snd (finishJob j w v cur t db)) = pages db"
proof -
  have "map job_key (snd (finish_in j w v cur t js)) = map job_key js" for js
    by (auto simp: finish_in_def map_upd_where job_key_def split: option.split)
  then have "job_key ` set (snd (finish_in j w v cur t js)) = job_key ` set js" for js
    by (metis list.set_map)
  then show ?thesis
    by (simp add: pages_parts reads_keys finishJob_def case_prod_unfold Let_def)
qed

lemma pages_modLog_only: "pages db' = pages db \<Longrightarrow> sources db' = sources db"
  by (simp add: pages_parts)

section \<open>A page taken down\<close>

definition down :: "int \<Rightarrow> source_row list \<times> int set \<times> fts_row list \<Rightarrow> bool" where
  "down i pg = (case pg of (ss, rs, ix) \<Rightarrow>
     i \<in> so_id ` set ss \<and> (\<forall>s \<in> set ss. so_id s = i \<longrightarrow> so_status s = SrcRemoved) \<and> i \<notin> f_rowid ` set ix)"

lemma down_index: "down i (pages db) \<Longrightarrow> sourceIndex j db = Inr db' \<Longrightarrow> down i (pages db')"
  by (auto simp: sourceIndex_def down_def pages_def get_source_def ftsDel_def ftsPut_def dest!: find_Some_mem
      split: option.splits if_splits)

lemma down_upd:
  "down i (pages db) \<Longrightarrow> j \<noteq> i \<Longrightarrow> (\<And>s. so_id (f s) = so_id s) \<Longrightarrow> down i (pages (upd_source j f db))"
  by (auto simp: down_def pages_def upd_source_def set_upd_where image_iff) metis?

lemma ids_upd: "(\<And>s. so_id (f s) = so_id s) \<Longrightarrow> so_id ` set (upd_where P f t) = so_id ` set t"
  using map_upd_where[of so_id f P t] by (metis list.set_map)

lemma down_upd_keep:
  assumes "down i (pages db)" "\<And>s. so_id (f s) = so_id s" "\<And>s. so_status s = SrcRemoved \<Longrightarrow> so_status (f s) = SrcRemoved"
  shows "down i (pages (db\<lparr>sources := upd_where P f (sources db)\<rparr>))"
proof -
  have "so_id ` set (upd_where P f (sources db)) = so_id ` set (sources db)" by (rule ids_upd) (rule assms(2))
  moreover have "\<forall>s \<in> set (upd_where P f (sources db)). so_id s = i \<longrightarrow> so_status s = SrcRemoved"
    using assms by (auto simp: down_def pages_def set_upd_where)
  ultimately show ?thesis using assms(1) by (simp add: down_def pages_def)
qed

lemma down_ftsDel: "down i (pages db) \<Longrightarrow> down i (pages (ftsDel j db))"
  by (auto simp: down_def pages_def ftsDel_def)

lemma down_schedule: "down i (pages db) \<Longrightarrow> down i (pages (schedule k r v u t db))"
  by (simp add: down_def pages_def frame)

lemma down_addSource:
  assumes "down i (pages db)" "addSource g j u s su v l w p e t db = Inr (r, db')"
  shows "down i (pages db')"
proof (cases "find (\<lambda>s. so_url s = u) (sources db)")
  case None
  from assms(2) None obtain k st rd ss d d3 where
    new: "ins_new so_id (new_source j u s su k w st l t) (sources db) = Inr ss"
    and d: "d = (if rd then schedule (if l then JobSeed else JobSource) j 1 t t (db\<lparr>sources := ss\<rparr>) else db\<lparr>sources := ss\<rparr>)"
    and d3: "sourceIndex j d = Inr d3" "linkSource g j p e t d3 = Inr db'"
    by (auto simp: addSource_def bind_iffs Let_def)
  have "down i (pages (db\<lparr>sources := ss\<rparr>))"
    using assms(1) new by (auto simp: down_def pages_def ins_new_Inr has_key_iff new_source_def)
  then have "down i (pages d)" unfolding d by (simp add: down_schedule)
  from down_index[OF this d3(1)] show ?thesis using pages_linkSource[OF d3(2)] by simp
next
  case (Some x)
  with assms show ?thesis by (auto simp: addSource_def bind_iffs dest!: pages_linkSource)
qed

lemma down_source_row: "down i (pages db) \<Longrightarrow> s \<in> set (sources db) \<Longrightarrow> so_status s \<noteq> SrcRemoved \<Longrightarrow> so_id s \<noteq> i"
  by (auto simp: down_def pages_def)

lemma down_page_read:
  assumes "down i (pages db)" "rd_SourceID c \<noteq> i"
  shows "down i (pages (page_read c s db))"
  using assms by (simp add: page_read_def Let_def frame down_upd)

lemma down_approve:
  assumes "down i (pages db)" "approve_source c j db = Inr db'"
  shows "down i (pages db')"
proof (cases "find (\<lambda>s. so_id s = j \<and> \<not> so_is_list s) (sources db)")
  case (Some s)
  show ?thesis
  proof (cases "so_status s = SrcPending")
    case True
    then have "j \<noteq> i" using find_Some_mem[OF Some] down_source_row[OF assms(1), of s] by auto
    then have u: "down i (pages (if b then schedule JobSource j v t t (upd_source j (\<lambda>r. r\<lparr>so_status := SrcActive\<rparr>) db)
        else upd_source j (\<lambda>r. r\<lparr>so_status := SrcActive\<rparr>) db))" for b v t
      using down_upd[OF assms(1)] by (simp add: down_schedule)
    from assms(2) Some True obtain d where
      d: "sourceIndex j (if so_summary s = [] then schedule JobSource j (so_version s) (av_At c) (av_At c)
          (upd_source j (\<lambda>r. r\<lparr>so_status := SrcActive\<rparr>) db) else upd_source j (\<lambda>r. r\<lparr>so_status := SrcActive\<rparr>) db) = Inr d"
      and db': "db' = modLog (av_By c) ''source_approve'' ''source'' j [] (av_At c) d"
      unfolding approve_source_def Let_def by (auto simp: bindE_Inr_iff)
    show ?thesis unfolding db' using down_index[OF u d] by (simp add: frame)
  next
    case False
    with assms Some show ?thesis by (simp add: approve_source_def)
  qed
qed (use assms in \<open>simp add: approve_source_def\<close>)

lemma down_foldE:
  "(\<And>x d d'. down i (pages d) \<Longrightarrow> f x d = Inr d' \<Longrightarrow> down i (pages d')) \<Longrightarrow> down i (pages db) \<Longrightarrow>
   foldE f xs db = Inr db' \<Longrightarrow> down i (pages db')"
  by (induction xs arbitrary: db) (auto simp: bind_iffs)

lemma down_step:
  assumes "down i (pages db)"
  shows "down i (pages (source_step nl c db))"
proof (cases "run_plan (source_plan nl c) db")
  case (Inr x)
  obtain v db' where x: "x = (v, db')" by fastforce
  have "down i (pages db')"
  proof (cases c)
    case (SAdd a)
    with Inr x assms show ?thesis
      by (auto simp: apply_AddSource_def Let_def bind_iffs dest: down_addSource split: sum.splits if_splits)
  next
    case (SRead a)
    show ?thesis
    proof (cases "get_source db (rd_SourceID a)")
      case (Some s)
      let ?f = "finishJob (rd_JobID a) (rd_Worker a) (rd_Version a) (so_version s) (rd_At a) db"
      have p: "down i (pages (snd ?f))" using assms by (simp add: frame)
      have ne: "so_status s \<noteq> SrcRemoved \<Longrightarrow> rd_SourceID a \<noteq> i"
        using Some down_source_row[OF assms, of s] by (auto simp: get_source_def dest: find_Some_mem)
      show ?thesis
        using Inr x SRead Some p down_index[OF down_page_read[OF p ne]]
        by (auto simp: apply_SetSource_def run_nilTx case_prod_unfold Let_def bind_iffs split: if_splits)
    qed (use Inr x SRead in \<open>simp add: apply_SetSource_def run_nilTx\<close>)
  next
    case (SSeeds a)
    have seed: "down i (pages d')" if "down i (pages d)" "add_seed nl a y d = Inr d'" for y d d'
      using that by (auto simp: add_seed_def bind_iffs dest: down_addSource split: sum.splits if_splits)
    show ?thesis
    proof (cases "get_source db (ad_ListID a)")
      case (Some s)
      let ?f = "finishJob (ad_JobID a) (ad_Worker a) (ad_Version a) (so_version s) (ad_At a) db"
      have p: "down i (pages (snd ?f))" using assms by (simp add: frame)
      then have u: "down i (pages (upd_source (ad_ListID a) (\<lambda>r. r\<lparr>so_checked := Some (ad_At a), so_problem := ad_Problem a\<rparr>) (snd ?f)))"
        unfolding upd_source_def by (rule down_upd_keep) simp_all
      show ?thesis
        using Inr x SSeeds Some p down_foldE[OF seed u]
        by (auto simp: apply_AddSeeds_def run_nilTx case_prod_unfold Let_def bind_iffs split: if_splits)
    qed (use Inr x SSeeds in \<open>simp add: apply_AddSeeds_def run_nilTx\<close>)
  next
    case (SApprove a)
    with Inr x have "foldE (approve_source a) (av_SourceIDs a) db = Inr db'"
      by (auto simp: apply_ApproveSources_def run_nilTx bind_iffs)
    with down_approve assms show ?thesis by (rule down_foldE)
  next
    case (SRemove a)
    have "down i (pages (sourceChanged k t (ftsDel k (db\<lparr>sources := upd_where P
        (\<lambda>s. s\<lparr>so_status := SrcRemoved, so_summary := [], so_title := [], so_hash := None\<rparr>) (sources db)\<rparr>))))" for k t P
      unfolding pages_sourceChanged by (rule down_ftsDel, rule down_upd_keep[OF assms]) simp_all
    with Inr x SRemove assms show ?thesis
      by (auto simp: apply_RemoveSource_def run_nilTx Let_def frame split: if_splits)
  next
    case (SDomain a)
    with Inr x assms show ?thesis
      by (auto simp: apply_AllowDomain_def run_nilTx Let_def frame split: option.splits if_splits)
  next
    case (SDetach a)
    with Inr x assms show ?thesis
      by (auto simp: apply_DetachSource_def run_nilTx Let_def frame bind_iffs dest!: pages_syncCombined split: if_splits)
  qed
  then show ?thesis using Inr x by (simp add: source_step_def)
qed (use assms in \<open>simp add: source_step_def\<close>)

text \<open>C17: a removal sticks: once a page has been taken down, no sequence of additions of its link,
  worker results, seed lists, approvals, removals, site rules and detachments, whatever they say and
  whether or not each succeeds, shows it again. Its status stays removed and it stays out of the
  search index; only \<open>RestoreSource\<close> brings it back.\<close>

theorem removal_sticks:
  assumes "run_plan (apply_RemoveSource r) db = Inr (v, db1)"
    and "get_source db (rz_SourceID r) = Some s" "so_status s \<noteq> SrcRemoved"
  shows "(\<exists>t. get_source (fold (source_step nl) cs db1) (rz_SourceID r) = Some t \<and> so_status t = SrcRemoved)
    \<and> (\<forall>x \<in> set (search_fts (fold (source_step nl) cs db1)). f_rowid x \<noteq> rz_SourceID r)"
proof -
  let ?i = "rz_SourceID r" and ?live = "\<lambda>s. so_id s = rz_SourceID r \<and> so_status s \<noteq> SrcRemoved"
  have s: "s \<in> set (sources db)" "so_id s = ?i" using assms(2) by (auto simp: get_source_def dest: find_Some_mem)
  have "affected ?live (sources db) \<noteq> 0" using s assms(3) by (auto simp: affected_0_iff)
  then have db1: "pages db1 = pages (ftsDel ?i (db\<lparr>sources := upd_where ?live
      (\<lambda>s. s\<lparr>so_status := SrcRemoved, so_summary := [], so_title := [], so_hash := None\<rparr>) (sources db)\<rparr>))"
    using assms(1) by (auto simp: apply_RemoveSource_def run_nilTx Let_def frame)
  let ?gone = "\<lambda>s. s\<lparr>so_status := SrcRemoved, so_summary := [], so_title := [], so_hash := None\<rparr>"
  have "so_id ` set (upd_where ?live ?gone (sources db)) = so_id ` set (sources db)" by (rule ids_upd) simp
  moreover have "\<forall>t \<in> set (upd_where ?live ?gone (sources db)). so_id t = ?i \<longrightarrow> so_status t = SrcRemoved"
    by (auto simp: set_upd_where)
  moreover have "?i \<in> so_id ` set (sources db)" using s by (metis imageI)
  ultimately have "down ?i (pages db1)" unfolding db1 by (auto simp: down_def pages_def ftsDel_def)
  then have "down ?i (pages (fold (source_step nl) cs db1))"
    by (induction cs arbitrary: db1) (simp_all add: down_step)
  then have d: "\<exists>t \<in> set (sources (fold (source_step nl) cs db1)). so_id t = ?i"
    "\<forall>t \<in> set (sources (fold (source_step nl) cs db1)). so_id t = ?i \<longrightarrow> so_status t = SrcRemoved"
    "?i \<notin> f_rowid ` set (search_fts (fold (source_step nl) cs db1))"
    by (auto simp: down_def pages_def)
  obtain t where t: "get_source (fold (source_step nl) cs db1) ?i = Some t"
    using d(1) by (cases "get_source (fold (source_step nl) cs db1) ?i") (auto simp: get_source_def find_None_mem)
  then have "t \<in> set (sources (fold (source_step nl) cs db1))" "so_id t = ?i"
    by (auto simp: get_source_def dest: find_Some_mem)
  moreover have "\<forall>x \<in> set (search_fts (fold (source_step nl) cs db1)). f_rowid x \<noteq> ?i" using d(3) by (metis imageI)
  ultimately show ?thesis using t d(2) by blast
qed

lemma RemoveSource_runs: "\<exists>db'. run_plan (apply_RemoveSource c) db = Inr (VNil, db')"
  by (cases "affected (\<lambda>s. so_id s = rz_SourceID c \<and> so_status s \<noteq> SrcRemoved) (sources db) = 0")
    (simp_all add: apply_RemoveSource_def run_nilTx Let_def)

definition plain_net :: "string net_lib" where
  "plain_net = \<lparr>Parse = Some, Scheme = (\<lambda>_. ''https''), Host = (\<lambda>_. ''example.org''), has_User = (\<lambda>_. False),
     Hostname = (\<lambda>_. ''example.org''), URL_String = id, set_Host = (\<lambda>_ u. u), drop_Fragment = id, ToLower = id\<rparr>"

definition one_page :: group_db where
  "one_page = empty_group_db\<lparr>sources := [new_source 5 ''https://example.org/a'' ''example.org'' ''about pumps'' ViaDescribed 7 SrcActive False 1]\<rparr>"

lemma removal_sticks_witness:
  "\<exists>db1 t. run_plan (apply_RemoveSource (RemoveSource.make 1 5 0 True ''please'' 9)) one_page = Inr (VNil, db1)
     \<and> get_source (fold (source_step plain_net)
          [SAdd (AddSource.make 1 6 ''https://example.org/a'' ''again'' ''member'' False 8 0 0 10),
           SApprove (ApproveSources.make 1 [5] 7 11)] db1) 5 = Some t \<and> so_status t = SrcRemoved"
proof -
  let ?r = "RemoveSource.make 1 5 0 True ''please'' 9"
  have s: "get_source one_page 5 = Some (new_source 5 ''https://example.org/a'' ''example.org'' ''about pumps'' ViaDescribed 7 SrcActive False 1)"
    by (simp add: get_source_def one_page_def new_source_def)
  obtain db1 where r: "run_plan (apply_RemoveSource ?r) one_page = Inr (VNil, db1)"
    using RemoveSource_runs by blast
  from removal_sticks[OF r, where s = "new_source 5 ''https://example.org/a'' ''example.org'' ''about pumps'' ViaDescribed 7 SrcActive False 1"
      and nl = plain_net and cs = "[SAdd (AddSource.make 1 6 ''https://example.org/a'' ''again'' ''member'' False 8 0 0 10),
           SApprove (ApproveSources.make 1 [5] 7 11)]"] s r
  show ?thesis by (auto simp: RemoveSource.defs new_source_def)
qed

section \<open>Facebook is never read\<close>

text \<open>Every Facebook page came with a description; a described page is shown or removed, never waiting;
  and no job to read a page or a list is about a described one.\<close>

definition unread :: "group_db \<Rightarrow> bool" where
  "unread db \<longleftrightarrow> distinct (map so_id (sources db)) \<and> reads db \<subseteq> so_id ` set (sources db)
     \<and> (\<forall>s \<in> set (sources db). (IsFacebook (so_site s) \<longrightarrow> so_via s = ViaDescribed)
          \<and> (so_via s = ViaDescribed \<longrightarrow> (so_status s = SrcActive \<or> so_status s = SrcRemoved) \<and> so_id s \<notin> reads db))"

lemma unread_same: "pages db' = pages db \<Longrightarrow> unread db' = unread db"
  by (simp add: unread_def pages_parts)

lemma unread_index:
  assumes "unread db" "sourceIndex i db = Inr db'"
  shows "unread db'"
proof -
  have "sources db' = sources db" "jobs db' = jobs db"
    using assms(2) by (auto simp: sourceIndex_def ftsDel_def ftsPut_def split: option.splits if_splits)
  with assms(1) show ?thesis by (simp add: unread_def reads_def)
qed

lemma unread_row:
  assumes "unread db" "s \<in> set (sources db)" "t \<in> set (sources db)" "so_id s = so_id t"
  shows "s = t"
  using assms by (simp add: unread_def distinct_map inj_on_def)

lemma unread_upd:
  assumes "unread db" "\<And>s. so_id (f s) = so_id s \<and> so_via (f s) = so_via s \<and> so_site (f s) = so_site s"
    and "\<And>s. s \<in> set (sources db) \<Longrightarrow> P s \<Longrightarrow> so_via s = ViaDescribed \<Longrightarrow> so_status (f s) = SrcActive \<or> so_status (f s) = SrcRemoved"
  shows "unread (db\<lparr>sources := upd_where P f (sources db)\<rparr>)"
proof -
  have m: "map so_id (upd_where P f (sources db)) = map so_id (sources db)" by (rule map_upd_where) (simp add: assms(2))
  have i: "so_id ` set (upd_where P f (sources db)) = so_id ` set (sources db)" by (rule ids_upd) (simp add: assms(2))
  have r: "reads (db\<lparr>sources := upd_where P f (sources db)\<rparr>) = reads db" by (simp add: reads_def)
  have "(IsFacebook (so_site x) \<longrightarrow> so_via x = ViaDescribed)
      \<and> (so_via x = ViaDescribed \<longrightarrow> (so_status x = SrcActive \<or> so_status x = SrcRemoved) \<and> so_id x \<notin> reads db)"
    if x: "x \<in> set (upd_where P f (sources db))" for x
  proof -
    obtain s where s: "s \<in> set (sources db)" "x = (if P s then f s else s)" using x by (auto simp: set_upd_where)
    have "so_via s = ViaDescribed \<Longrightarrow> so_status x = SrcActive \<or> so_status x = SrcRemoved"
      using assms(1,3) s by (cases "P s") (auto simp: unread_def)
    moreover have "so_id x = so_id s" "so_via x = so_via s" "so_site x = so_site s" using s(2) assms(2)[of s] by auto
    ultimately show ?thesis using assms(1) s(1) by (auto simp: unread_def)
  qed
  then show ?thesis using assms(1) unfolding unread_def r by (simp add: m i)
qed

lemma unread_schedule:
  assumes "unread db" "s \<in> set (sources db)" "so_via s \<noteq> ViaDescribed"
  shows "unread (schedule k (so_id s) v u t db)"
proof -
  have "so_via t \<noteq> ViaDescribed" if "t \<in> set (sources db)" "so_id t = so_id s" for t
    using unread_row[OF assms(1) that(1) assms(2) that(2)] assms(3) by simp
  with assms(1,2) show ?thesis by (auto simp: unread_def frame)
qed

lemma unread_other: "k \<notin> {JobSource, JobSeed} \<Longrightarrow> unread (schedule k r v u t db) = unread db"
  by (rule unread_same) (simp add: pages_parts frame)

lemma unread_new:
  assumes "unread db" "ins_new so_id x (sources db) = Inr ss"
    and "IsFacebook (so_site x) \<Longrightarrow> so_via x = ViaDescribed" "so_via x = ViaDescribed \<Longrightarrow> so_status x = SrcActive"
  shows "unread (db\<lparr>sources := ss\<rparr>)"
proof -
  have "ss = sources db @ [x]" "so_id x \<notin> so_id ` set (sources db)"
    using assms(2) by (auto simp: ins_new_Inr has_key_iff)
  moreover have "reads (db\<lparr>sources := ss\<rparr>) = reads db" for ss by (simp add: reads_def)
  ultimately show ?thesis using assms(1,3,4) by (auto simp: unread_def)
qed

lemma unread_addSource:
  assumes "unread db" "addSource g j u site su v l w p e t db = Inr (r, db')" "IsFacebook site \<Longrightarrow> v = ''described''"
  shows "unread db'"
proof (cases "find (\<lambda>s. so_url s = u) (sources db)")
  case None
  from assms(2) None obtain k st rd ss d d3 where
    via: "via_start db site v = Inr (k, st, rd)"
    and new: "ins_new so_id (new_source j u site su k w st l t) (sources db) = Inr ss"
    and d: "d = (if rd then schedule (if l then JobSeed else JobSource) j 1 t t (db\<lparr>sources := ss\<rparr>) else db\<lparr>sources := ss\<rparr>)"
    and d3: "sourceIndex j d = Inr d3" "linkSource g j p e t d3 = Inr db'"
    by (auto simp: addSource_def bind_iffs Let_def)
  have k: "IsFacebook site \<Longrightarrow> k = ViaDescribed" "k = ViaDescribed \<Longrightarrow> st = SrcActive" "rd \<Longrightarrow> k \<noteq> ViaDescribed"
    using via assms(3) by (auto simp: via_start_def split: if_splits)
  let ?x = "new_source j u site su k w st l t"
  have n: "unread (db\<lparr>sources := ss\<rparr>)" using unread_new[OF assms(1) new] k by (simp add: new_source_def)
  have "?x \<in> set (sources (db\<lparr>sources := ss\<rparr>))" using new by (simp add: ins_new_Inr)
  from unread_schedule[OF n this] have "unread d" unfolding d using n k(3) by (simp add: new_source_def)
  from unread_index[OF this d3(1)] show ?thesis using unread_same[OF pages_linkSource[OF d3(2)]] by simp
next
  case (Some x)
  with assms show ?thesis by (auto simp: addSource_def bind_iffs dest!: pages_linkSource unread_same)
qed

lemma unread_AddSource: "keeps unread (apply_AddSource nl c)"
  by (auto simp: apply_AddSource_def Let_def keeps_def okE_iff bind_iffs dest: unread_addSource split: sum.splits if_splits)

lemma unread_page_read:
  assumes "unread db" "get_source db (rd_SourceID c) = Some s" "so_via s \<noteq> ViaDescribed"
  shows "unread (page_read c s db)"
proof -
  have s: "s \<in> set (sources db)" "so_id s = rd_SourceID c" using assms(2) by (auto simp: get_source_def dest: find_Some_mem)
  have nd: "so_via x \<noteq> ViaDescribed" if "x \<in> set (sources db)" "so_id x = rd_SourceID c" for x
    using unread_row[OF assms(1) that(1) s(1)] that s assms(3) by simp
  have "unread (upd_source (rd_SourceID c) f db)"
    if "\<And>x. so_id (f x) = so_id x \<and> so_via (f x) = so_via x \<and> so_site (f x) = so_site x" for f
    unfolding upd_source_def by (rule unread_upd[OF assms(1) that]) (use nd in blast)
  then show ?thesis by (simp add: page_read_def Let_def unread_same[OF pages_sourceChanged])
qed

lemma unread_SetSource: "keeps unread (apply_SetSource c)"
  unfolding apply_SetSource_def keeps_nilTx
proof (intro allI impI)
  fix db assume u: "unread db"
  show "okE unread (case get_source db (rd_SourceID c) of None \<Rightarrow> Inl ErrGone
     | Some s \<Rightarrow> let (ok, db1) = finishJob (rd_JobID c) (rd_Worker c) (rd_Version c) (so_version s) (rd_At c) db in
       if \<not> ok \<or> so_status s = SrcRemoved \<or> so_via s = ViaDescribed then Inr db1
       else sourceIndex (rd_SourceID c) (page_read c s db1))"
  proof (cases "get_source db (rd_SourceID c)")
    case (Some s)
    let ?d = "snd (finishJob (rd_JobID c) (rd_Worker c) (rd_Version c) (so_version s) (rd_At c) db)"
    have p: "pages ?d = pages db" by (rule pages_finish)
    have d: "unread ?d" using u unread_same[OF p] by simp
    have g: "get_source ?d (rd_SourceID c) = Some s" using Some p by (simp add: get_source_def pages_parts)
    have "okE unread (sourceIndex (rd_SourceID c) (page_read c s ?d))" if "so_via s \<noteq> ViaDescribed"
      unfolding okE_iff using unread_index[OF unread_page_read[OF d g that]] by blast
    then show ?thesis using d by (simp add: Some case_prod_unfold Let_def)
  qed simp
qed

lemma unread_foldE:
  "(\<And>x d d'. unread d \<Longrightarrow> f x d = Inr d' \<Longrightarrow> unread d') \<Longrightarrow> unread db \<Longrightarrow> foldE f xs db = Inr db' \<Longrightarrow> unread db'"
  by (induction xs arbitrary: db) (auto simp: bind_iffs)

lemma unread_AddSeeds: "keeps unread (apply_AddSeeds nl c)"
  unfolding apply_AddSeeds_def keeps_nilTx
proof (intro allI impI)
  fix db assume u: "unread db"
  have seed: "unread d'" if "unread d" "add_seed nl c y d = Inr d'" for y d d'
    using that by (auto simp: add_seed_def bind_iffs dest: unread_addSource split: sum.splits if_splits)
  show "okE unread (case get_source db (ad_ListID c) of None \<Rightarrow> Inl ErrGone
     | Some s \<Rightarrow> let (ok, db1) = finishJob (ad_JobID c) (ad_Worker c) (ad_Version c) (so_version s) (ad_At c) db in
       if \<not> ok then Inr db1
       else foldE (add_seed nl c) (take 50 (ad_URLs c))
              (upd_source (ad_ListID c) (\<lambda>r. r\<lparr>so_checked := Some (ad_At c), so_problem := ad_Problem c\<rparr>) db1))"
  proof (cases "get_source db (ad_ListID c)")
    case (Some s)
    let ?d = "snd (finishJob (ad_JobID c) (ad_Worker c) (ad_Version c) (so_version s) (ad_At c) db)"
    have d: "unread ?d" using u unread_same[OF pages_finish] by blast
    have "unread (upd_source (ad_ListID c) (\<lambda>r. r\<lparr>so_checked := Some (ad_At c), so_problem := ad_Problem c\<rparr>) ?d)"
      unfolding upd_source_def by (rule unread_upd[OF d]) (use d in \<open>auto simp: unread_def\<close>)
    from unread_foldE[OF seed this] Some d show ?thesis by (auto simp: case_prod_unfold Let_def okE_iff)
  qed simp
qed

lemma unread_approve:
  assumes "unread db" "approve_source c j db = Inr db'"
  shows "unread db'"
proof (cases "find (\<lambda>s. so_id s = j \<and> \<not> so_is_list s) (sources db)")
  case (Some s)
  then have s: "s \<in> set (sources db)" "so_id s = j" by (auto dest: find_Some_mem)
  show ?thesis
  proof (cases "so_status s = SrcPending")
    case True
    then have nd: "so_via s \<noteq> ViaDescribed" using assms(1) s by (auto simp: unread_def)
    let ?d = "upd_source j (\<lambda>r. r\<lparr>so_status := SrcActive\<rparr>) db"
    have u: "unread ?d" unfolding upd_source_def by (rule unread_upd[OF assms(1)]) simp_all
    have "s\<lparr>so_status := SrcActive\<rparr> \<in> set (sources ?d)" using s by (force simp: upd_source_def set_upd_where)
    from unread_schedule[OF u this, where k = JobSource] have
      "unread (if b then schedule JobSource j v t t ?d else ?d)" for b v t using u nd s by simp
    note u = this
    from assms(2) Some True obtain d where
      d: "sourceIndex j (if so_summary s = [] then schedule JobSource j (so_version s) (av_At c) (av_At c) ?d else ?d) = Inr d"
      and db': "db' = modLog (av_By c) ''source_approve'' ''source'' j [] (av_At c) d"
      unfolding approve_source_def Let_def by (auto simp: bindE_Inr_iff)
    show ?thesis unfolding db' unread_same[OF pages_frame(2)] by (rule unread_index[OF u d])
  next
    case False
    with assms Some show ?thesis by (simp add: approve_source_def)
  qed
qed (use assms in \<open>simp add: approve_source_def\<close>)

lemma unread_ApproveSources: "keeps unread (apply_ApproveSources c)"
  unfolding apply_ApproveSources_def keeps_nilTx okE_iff
  by (intro allI impI) (rule unread_foldE[OF unread_approve])

lemma unread_RemoveSource: "keeps unread (apply_RemoveSource c)"
proof -
  have "unread (sourceChanged i t (ftsDel i (db\<lparr>sources := upd_where P
      (\<lambda>s. s\<lparr>so_status := SrcRemoved, so_summary := [], so_title := [], so_hash := None\<rparr>) (sources db)\<rparr>)))"
    if "unread db" for i t P db
  proof -
    have "unread (db\<lparr>sources := upd_where P (\<lambda>s. s\<lparr>so_status := SrcRemoved, so_summary := [], so_title := [], so_hash := None\<rparr>)
        (sources db)\<rparr>)" by (rule unread_upd[OF that]) simp_all
    then have "unread (ftsDel i (db\<lparr>sources := upd_where P (\<lambda>s. s\<lparr>so_status := SrcRemoved, so_summary := [], so_title := [], so_hash := None\<rparr>)
        (sources db)\<rparr>))" by (simp add: unread_def reads_def ftsDel_def)
    then show ?thesis by (simp only: unread_same[OF pages_sourceChanged])
  qed
  then show ?thesis unfolding apply_RemoveSource_def keeps_nilTx Let_def
    by (simp add: unread_same[OF pages_frame(2)])
qed

lemma unread_RestoreSource: "keeps unread (apply_RestoreSource c)"
  unfolding apply_RestoreSource_def keeps_nilTx
proof (intro allI impI)
  fix db assume u: "unread db"
  show "okE unread (let i = rq_SourceID c in
     case find (\<lambda>s. so_id s = i \<and> so_status s = SrcRemoved) (sources db) of
       None \<Rightarrow> Inl ErrGone
     | Some s \<Rightarrow>
       failIf (so_via s = ViaDescribed) (Invalid ''its description was erased; add the link again with a new one'') (
       let db1 = upd_source i (\<lambda>r. r\<lparr>so_status := SrcActive, so_version := so_version r + 1\<rparr>) db;
           db2 = schedule JobSource i (so_version s + 1) (rq_At c) (rq_At c) db1
       in Inr (modLog (rq_By c) ''source_restore'' ''source'' i [] (rq_At c) db2)))"
  proof (cases "find (\<lambda>s. so_id s = rq_SourceID c \<and> so_status s = SrcRemoved) (sources db)")
    case (Some s)
    then have s: "s \<in> set (sources db)" "so_id s = rq_SourceID c" by (auto dest: find_Some_mem)
    let ?f = "\<lambda>r. r\<lparr>so_status := SrcActive, so_version := so_version r + 1\<rparr>"
    let ?d = "upd_source (rq_SourceID c) ?f db"
    have d: "unread ?d" unfolding upd_source_def by (rule unread_upd[OF u]) simp_all
    have m: "?f s \<in> set (sources ?d)" using s by (force simp: upd_source_def set_upd_where)
    show ?thesis using unread_schedule[OF d m, where k = JobSource] s(2)
      by (simp add: Some Let_def failIf_def unread_same[OF pages_frame(2)])
  qed simp
qed

lemma unread_fold: "(\<And>x d. x \<in> set xs \<Longrightarrow> unread d \<Longrightarrow> unread (f x d)) \<Longrightarrow> unread db \<Longrightarrow> unread (fold f xs db)"
  by (induction xs arbitrary: db) simp_all

lemma unread_queueFAQ: "unread db \<Longrightarrow> unread (queueFAQ w t db)"
proof -
  assume u: "unread db"
  have other: "unread (schedule k r v x t d)" if "k \<in> {JobFAQRewrite, JobFAQNew, JobOutline}" "unread d" for k r v x t d
    using that unread_other[of k r v x t d] by auto
  define stale where "stale = filter (\<lambda>e. e_stale e \<and> e_status e = EntryActive) (faq_entries db)"
  define db1 where "db1 = fold (\<lambda>e. schedule JobFAQRewrite (e_id e) (e_version e) t t) stale db"
  define db2 where "db2 = fold (\<lambda>cl d. schedule JobFAQNew (hd cl) (thread_version d (hd cl)) t t d)
    (take FAQNewPerNight (uncoveredClusters db1)) db1"
  define db3 where "db3 = schedule JobOutline 0 0 t t db2"
  have u3: "unread db2" "unread db3" unfolding db3_def db2_def db1_def using u by (auto intro!: unread_fold other)
  have src: "sources (fold (\<lambda>s. schedule JobSource (so_id s) (so_version s) t t) xs d) = sources d" for xs d
    by (induction xs arbitrary: d) (simp_all add: schedule_def)
  have "unread (fold (\<lambda>s. schedule JobSource (so_id s) (so_version s) t t) xs d)"
    if "unread d" "\<forall>s \<in> set xs. s \<in> set (sources d) \<and> so_via s \<noteq> ViaDescribed" for xs d
    using that
  proof (induction xs arbitrary: d)
    case (Cons x xs)
    have "unread (schedule JobSource (so_id x) (so_version x) t t d)" using Cons.prems by (intro unread_schedule) auto
    moreover have "sources (schedule JobSource (so_id x) (so_version x) t t d) = sources d" by (simp add: schedule_def)
    ultimately show ?case using Cons by simp
  qed simp
  then show ?thesis using u3
    by (simp add: queueFAQ_def Let_def db1_def[symmetric] db2_def[symmetric] db3_def[symmetric] stale_def[symmetric])
qed

text \<open>C18: Facebook is never read: in a new file, and in every state these commands and the nightly
  batch reach from one where it holds, each page of a Facebook site came with a person's description, and no job to read
  a page or a list is about a page that came with one.\<close>

theorem facebook_never_read:
  "unread empty_group_db \<and> keeps unread (source_plan nl c) \<and> keeps unread (apply_RestoreSource r) \<and> keeps unread (apply_QueueGroupFAQ q)"
proof -
  have "keeps unread (apply_AllowDomain nl a)" for a
    unfolding apply_AllowDomain_def Let_def
    by (auto simp: keeps_nilTx unread_same[OF pages_frame(2)] unread_same[OF pages_tables(4)] split: option.splits)
  moreover have "keeps unread (apply_DetachSource a)" for a
    unfolding apply_DetachSource_def Let_def keeps_nilTx okE_iff
    using unread_same[OF pages_syncCombined] unread_same[OF pages_frame(1)] unread_same[OF pages_tables(3)]
    by (auto split: if_splits)
  ultimately have "keeps unread (source_plan nl c)"
    by (cases c) (simp_all add: unread_AddSource unread_SetSource unread_AddSeeds unread_ApproveSources unread_RemoveSource)
  moreover have "keeps unread (apply_QueueGroupFAQ q)"
    unfolding apply_QueueGroupFAQ_def keeps_nilTx by (auto simp: unread_queueFAQ split: option.splits)
  moreover have "unread empty_group_db" by (simp add: unread_def reads_def empty_group_db_def)
  ultimately show ?thesis using unread_RestoreSource by blast
qed

end
