(* ===== verification/Archive.thy ===== *)
theory Archive
  imports Sources
begin

text \<open>
  Threads imported from an existing knowledge base: \<^verbatim>\<open>internal/cmd/archive.go\<close>. An import is an
  upsert keyed on the original's reference; a thread or comment taken down since stays down.
\<close>

record ArchiveComment =
  ac_ID :: int
  ac_OriginRef :: string
  ac_ParentRef :: string
  ac_Body :: string
  ac_CreatedAt :: int
  ac_Image :: "Image option"

record ImportPost =
  ip_GroupID :: int
  ip_PostID :: int
  ip_OriginRef :: string
  ip_Permalink :: string
  ip_Title :: string
  ip_Body :: string
  ip_CreatedAt :: int
  ip_LastActivity :: int
  ip_Images :: "Image list"
  ip_Comments :: "ArchiveComment list"
  ip_At :: int

datatype import_row = TakenDown int | Row int bool bool group_db

text \<open>The post's row: its id, whether it is new, whether its text changed.\<close>

definition archive_post :: "ImportPost \<Rightarrow> post" where
  "archive_post c = (new_post (ip_PostID c) None (ip_Title c) (ip_Body c) (ip_CreatedAt c) (ip_LastActivity c))
     \<lparr>p_locked := True, p_origin := Archive, p_origin_ref := Some (ip_OriginRef c),
      p_origin_url := nullIfEmpty (ip_Permalink c)\<rparr>"

definition import_post_row :: "ImportPost \<Rightarrow> group_db \<Rightarrow> go_error + import_row" where
  "import_post_row c db =
     (case find (\<lambda>p. p_origin_ref p = Some (ip_OriginRef c)) (posts db) of
        None \<Rightarrow> bindE (ins_new p_id (archive_post c) (posts db)) (\<lambda>t.
                  Inr (Row (ip_PostID c) True False (db\<lparr>posts := t\<rparr>)))
      | Some p \<Rightarrow>
        if \<not> shown (p_status p) then Inr (TakenDown (p_id p))
        else Inr (Row (p_id p) False (p_title p \<noteq> ip_Title c \<or> p_body p \<noteq> ip_Body c)
               (db\<lparr>posts := upd_where (\<lambda>q. p_id q = p_id p)
                     (\<lambda>q. q\<lparr>p_title := ip_Title c, p_body := ip_Body c, p_last_activity := ip_LastActivity c,
                            p_origin_url := nullIfEmpty (ip_Permalink c)\<rparr>) (posts db)\<rparr>)))"

text \<open>One comment, with the references seen so far and whether the thread has changed.\<close>

type_synonym import_state = "(string \<times> int) list \<times> bool \<times> group_db"

definition comment_placed :: "int \<Rightarrow> ArchiveComment \<Rightarrow> (string \<times> int) list \<Rightarrow> int \<Rightarrow> bool \<Rightarrow> group_db \<Rightarrow> go_error + import_state" where
  "comment_placed post a ids i changed db =
     bindE (case ac_Image a of None \<Rightarrow> Inr db
            | Some im \<Rightarrow> insertImages post (Some i) None [im] (ac_CreatedAt a) db) (\<lambda>db1.
     Inr ((ac_OriginRef a, i) # ids, changed, ftsPut (FtsItem Comment) i post [] (ac_Body a) db1))"

definition archive_comment :: "int \<Rightarrow> ArchiveComment \<Rightarrow> int option \<Rightarrow> comment" where
  "archive_comment post a parent =
     (new_comment (ac_ID a) post parent None (ac_Body a) (ac_CreatedAt a))\<lparr>c_origin_ref := Some (ac_OriginRef a)\<rparr>"

definition import_comment :: "int \<Rightarrow> ArchiveComment \<Rightarrow> import_state \<Rightarrow> go_error + import_state" where
  "import_comment post a s =
     (case s of (ids, changed, db) \<Rightarrow>
      let parent = map_of ids (ac_ParentRef a) in
      case find (\<lambda>q. c_origin_ref q = Some (ac_OriginRef a)) (comments db) of
        None \<Rightarrow> bindE (insert_comment (archive_comment post a parent) db) (comment_placed post a ids (ac_ID a) True)
      | Some q \<Rightarrow>
        if \<not> shown (c_status q) then Inr ((ac_OriginRef a, c_id q) # ids, changed, db)
        else comment_placed post a ids (c_id q) (changed \<or> c_body q \<noteq> ac_Body a)
               (db\<lparr>comments := upd_where (\<lambda>r. c_id r = c_id q)
                     (\<lambda>r. r\<lparr>c_body := ac_Body a, c_parent := parent\<rparr>) (comments db)\<rparr>))"

definition count_comments :: "int \<Rightarrow> group_db \<Rightarrow> group_db" where
  "count_comments post db =
     db\<lparr>posts := upd_where (\<lambda>p. p_id p = post)
          (\<lambda>p. p\<lparr>p_comment_count := int (length (filter (\<lambda>c. c_post c = post \<and> shown (c_status c)) (comments db)))\<rparr>)
          (posts db)\<rparr>"

definition import_thread :: "ImportPost \<Rightarrow> int \<Rightarrow> bool \<Rightarrow> bool \<Rightarrow> group_db \<Rightarrow> go_error + group_db" where
  "import_thread c post isNew postChanged db =
     bindE (insertImages post None None (ip_Images c) (ip_CreatedAt c)
              (db\<lparr>images := del_where (\<lambda>im. im_post im = post) (images db)\<rparr>)) (\<lambda>db1.
     bindE (foldE (import_comment post) (ip_Comments c)
              ([], False, ftsPut (FtsItem Post) post post (ip_Title c) (ip_Body c) db1)) (\<lambda>(ids, changed, db2).
     let db3 = count_comments post db2 in
     if isNew then Inr (schedule JobDigest post 1 (ip_At c) (ip_At c) (schedule JobCheck post 1 (ip_At c) (ip_At c) db3))
     else if postChanged then postEdited (ip_GroupID c) post (ip_At c) db3
     else if changed then threadChanged (ip_GroupID c) post (ip_At c) db3
     else Inr db3))"

definition apply_ImportPost :: "ImportPost \<Rightarrow> group_db plan" where
  "apply_ImportPost c =
     (if ip_OriginRef c = [] \<or> ip_Title c = [] then Refuse (PlainErr ''an archive post needs a reference and a title'')
      else Tx (VInt 0) (\<lambda>db.
        bindE (import_post_row c db) (\<lambda>row.
        case row of
          TakenDown i \<Rightarrow> Inr (VInt i, db)
        | Row i isNew postChanged db1 \<Rightarrow>
          bindE (import_thread c i isNew postChanged db1) (\<lambda>db2. Inr (VInt i, db2)))))"

section \<open>An import keeps posts, comments and the index in step\<close>

text \<open>While the comments are read in, the post's count is behind; \<open>recounted\<close> is the file as it
  will be once the count is taken.\<close>

definition recounted :: "int \<Rightarrow> post_core list \<times> comment_core list \<times> fts_row list
    \<Rightarrow> post_core list \<times> comment_core list \<times> fts_row list" where
  "recounted i k = (case k of (ps, cs, ix) \<Rightarrow>
     (map (\<lambda>q. if kp_id q = i then q\<lparr>kp_count := shown_under i cs\<rparr> else q) ps, cs, ix))"

lemma core_count: "core (count_comments i db) = recounted i (core db)"
proof -
  have "int (length (filter (\<lambda>c. c_post c = i \<and> shown (c_status c)) xs)) = shown_under i (map comment_core xs)" for xs
    by (induction xs) (simp_all add: comment_core_def shown_under_def)
  then show ?thesis
    by (simp add: core_def count_comments_def recounted_def upd_where_def post_core_def)
qed

lemma recounted_id:
  assumes "core_ok (ps, cs, ix)"
  shows "recounted i (ps, cs, ix) = (ps, cs, ix)"
proof -
  have "(if kp_id q = i then q\<lparr>kp_count := shown_under i cs\<rparr> else q) = q" if "q \<in> set ps" for q
    using core_ok_count[OF assms that] by (cases q) auto
  then show ?thesis by (simp add: recounted_def map_idI)
qed

text \<open>A file with the count taken; every step of the import keeps it sound.\<close>

definition import_ok :: "int \<Rightarrow> group_db \<Rightarrow> bool" where
  "import_ok i db \<longleftrightarrow> group_ok (count_comments i db)"

lemma import_ok_core: "core db' = core db \<Longrightarrow> import_ok i db' = import_ok i db"
  by (simp add: import_ok_def group_ok_def core_count)

lemma count_frames:
  "comments (count_comments i db) = comments db" "search_fts (count_comments i db) = search_fts db"
  "get_comment (count_comments i db) j = get_comment db j"
  by (simp_all add: count_comments_def get_comment_def)

lemma import_ok_insert:
  assumes "import_ok i db" "insert_comment (archive_comment i a par) db = Inr db1"
  shows "import_ok i (ftsPut (FtsItem Comment) (ac_ID a) i [] (ac_Body a) db1)"
  unfolding import_ok_def
proof (rule comment_insert_ok[OF assms(1)[unfolded import_ok_def], of "archive_comment i a par"])
  let ?c = "archive_comment i a par"
  have db1: "db1 = db\<lparr>comments := comments db @ [?c]\<rparr>" "\<not> has_key c_id (c_id ?c) (comments db)" "has_key p_id i (posts db)"
    using assms(2) by (auto simp: insert_comment_def bind_iffs ins_new_Inr archive_comment_def new_comment_def split: if_splits)
  show "\<not> has_key c_id (c_id ?c) (comments (count_comments i db))" using db1 by (simp add: count_frames)
  show "has_key p_id (c_post ?c) (posts (count_comments i db))"
    using db1 by (simp add: archive_comment_def new_comment_def count_comments_def has_key_upd_where)
  show "comments (count_comments i (ftsPut (FtsItem Comment) (ac_ID a) i [] (ac_Body a) db1)) = comments (count_comments i db) @ [?c]"
    using db1 by (simp add: count_frames frame)
  show "map post_core (posts (count_comments i (ftsPut (FtsItem Comment) (ac_ID a) i [] (ac_Body a) db1)))
      = map (\<lambda>q. if kp_id q = c_post ?c then q\<lparr>kp_count := kp_count q + 1\<rparr> else q) (map post_core (posts (count_comments i db)))"
    unfolding db1 by (simp add: count_comments_def ftsPut_def upd_where_def post_core_def archive_comment_def new_comment_def)
  show "shown (c_status ?c)" "\<not> c_legal_hold ?c" "c_purge_after ?c = None"
    by (simp_all add: archive_comment_def new_comment_def)
  fix r assume "r \<in> set (search_fts (count_comments i (ftsPut (FtsItem Comment) (ac_ID a) i [] (ac_Body a) db1)))"
  then show "r \<in> set (search_fts (count_comments i db)) \<or> r = comment_fts ?c"
    unfolding db1 by (auto simp: count_frames ftsPut_def comment_fts_def archive_comment_def new_comment_def)
qed

lemma import_ok_update:
  assumes "import_ok i db" "get_comment db j = Some q" "c_post q = i" "shown (c_status q)"
  shows "import_ok i (ftsPut (FtsItem Comment) j i [] b
     (db\<lparr>comments := upd_where (\<lambda>r. c_id r = j) (\<lambda>r. r\<lparr>c_body := b, c_parent := par\<rparr>) (comments db)\<rparr>))"
  (is "import_ok i ?db'")
  unfolding import_ok_def
proof (rule comment_change_ok[OF assms(1)[unfolded import_ok_def], where c = q and i = j and delta = 0
      and g = "\<lambda>r. r\<lparr>c_body := b, c_parent := par\<rparr>"])
  let ?g = "\<lambda>r. r\<lparr>c_body := b, c_parent := par\<rparr>"
  show "get_comment (count_comments i db) j = Some q" using assms(2) by (simp add: count_frames)
  have q: "c_id q = j" using get_comment_mem[OF assms(2)] by simp
  show "comments (count_comments i ?db') = upd_where (\<lambda>r. c_id r = j) ?g (comments (count_comments i db))"
    by (simp add: count_frames frame)
  have "length (filter (\<lambda>c. c_post c = i \<and> shown (c_status c)) (upd_where (\<lambda>r. c_id r = j) ?g xs))
      = length (filter (\<lambda>c. c_post c = i \<and> shown (c_status c)) xs)" for xs :: "comment list"
    by (induction xs) simp_all
  moreover have "(\<lambda>p::post_core. if kp_id p = x then p\<lparr>kp_count := kp_count p + 0\<rparr> else p) = (\<lambda>p. p)" for x
    by (rule ext) simp
  ultimately show "map post_core (posts (count_comments i ?db'))
      = map (\<lambda>p. if kp_id p = c_post q then p\<lparr>kp_count := kp_count p + 0\<rparr> else p) (map post_core (posts (count_comments i db)))"
    by (simp only: map_ident) (simp add: count_comments_def ftsPut_def)
  show "c_purge_after (?g q) \<noteq> None \<Longrightarrow> gone (c_status (?g q))" "\<not> c_legal_hold (?g q)"
    using group_ok_comment_row[OF assms(1)[unfolded import_ok_def], of j q] assms(2) by (simp_all add: count_frames)
  show "c_id (?g q) = j" using q by simp
  fix r assume "r \<in> set (search_fts (count_comments i ?db'))"
  then show "r \<in> set (search_fts (count_comments i db)) \<and> (f_kind r = FtsItem Comment \<longrightarrow> f_rowid r \<noteq> j)
      \<or> shown (c_status (?g q)) \<and> r = comment_fts (?g q)"
    using assms(3,4) q by (auto simp: count_frames ftsPut_def comment_fts_def)
qed simp_all

text \<open>The references the import names, where they exist, are comments of this thread.\<close>

definition refs_here :: "int \<Rightarrow> ArchiveComment list \<Rightarrow> comment list \<Rightarrow> bool" where
  "refs_here i as cs \<longleftrightarrow> (\<forall>q \<in> set cs. \<forall>a \<in> set as. c_origin_ref q = Some (ac_OriginRef a) \<longrightarrow> c_post q = i)"

lemma refs_here_Cons: "refs_here i (a # as) t \<Longrightarrow> refs_here i as t"
  by (auto simp: refs_here_def)

lemma refs_here_upd:
  assumes "refs_here i as t" "\<And>r. c_origin_ref (g r) = c_origin_ref r \<and> c_post (g r) = c_post r"
  shows "refs_here i as (upd_where P g t)"
proof -
  have g: "c_origin_ref (g r) = c_origin_ref r" "c_post (g r) = c_post r" for r using assms(2) by simp_all
  have "\<exists>y \<in> set t. c_origin_ref x = c_origin_ref y \<and> c_post x = c_post y" if "x \<in> set (upd_where P g t)" for x
    using that by (auto simp: set_upd_where g)
  then show ?thesis using assms(1) unfolding refs_here_def by metis
qed

lemma comment_placed_ok:
  assumes "comment_placed i a ids j ch db = Inr (ids', ch', db')"
    and "import_ok i (ftsPut (FtsItem Comment) j i [] (ac_Body a) db)"
  shows "import_ok i db' \<and> comments db' = comments db"
proof -
  obtain db1 where im: "(case ac_Image a of None \<Rightarrow> Inr db
            | Some im \<Rightarrow> insertImages i (Some j) None [im] (ac_CreatedAt a) db) = Inr db1"
    and db': "db' = ftsPut (FtsItem Comment) j i [] (ac_Body a) db1"
    using assms(1) unfolding comment_placed_def bindE_Inr_iff by blast
  have same: "core db1 = core db" "comments db1 = comments db"
    using im by (auto simp: core_def split: option.splits dest!: insertImages_frame)
  have "core db' = core (ftsPut (FtsItem Comment) j i [] (ac_Body a) db)"
    unfolding db' by (rule core_ftsPut_cong[OF same(1)])
  then show ?thesis using assms(2) same(2) import_ok_core[of db'] by (simp add: db' frame)
qed

lemma import_comment_ok:
  assumes "import_ok i db" "refs_here i (a # as) (comments db)"
    and "import_comment i a (ids, ch, db) = Inr (ids', ch', db')"
  shows "import_ok i db' \<and> refs_here i as (comments db')"
proof (cases "find (\<lambda>q. c_origin_ref q = Some (ac_OriginRef a)) (comments db)")
  case None
  let ?c = "archive_comment i a (map_of ids (ac_ParentRef a))"
  obtain db1 where ins: "insert_comment ?c db = Inr db1"
    and pl: "comment_placed i a ids (ac_ID a) True db1 = Inr (ids', ch', db')"
    using assms(3) None by (auto simp: import_comment_def bindE_Inr_iff)
  have "comments db1 = comments db @ [?c]"
    using ins by (auto simp: insert_comment_def bind_iffs ins_new_Inr split: if_splits)
  then have "refs_here i as (comments db1)"
    using assms(2) by (auto simp: refs_here_def archive_comment_def new_comment_def)
  then show ?thesis using comment_placed_ok[OF pl import_ok_insert[OF assms(1) ins]] by simp
next
  case (Some q)
  then have q: "q \<in> set (comments db)" "c_origin_ref q = Some (ac_OriginRef a)" by (auto dest: find_Some_mem)
  then have post: "c_post q = i" using assms(2) by (auto simp: refs_here_def)
  show ?thesis
  proof (cases "shown (c_status q)")
    case True
    have "group_ok (count_comments i db)" using assms(1) by (simp add: import_ok_def)
    from core_okD(2)[OF this] have "distinct (map c_id (comments db))" by (simp add: count_frames)
    then have g: "get_comment db (c_id q) = Some q" using q(1) by (simp add: get_comment_def find_id)
    let ?g = "\<lambda>r. r\<lparr>c_body := ac_Body a, c_parent := map_of ids (ac_ParentRef a)\<rparr>"
    let ?d = "db\<lparr>comments := upd_where (\<lambda>r. c_id r = c_id q) ?g (comments db)\<rparr>"
    have pl: "comment_placed i a ids (c_id q) (ch \<or> c_body q \<noteq> ac_Body a) ?d = Inr (ids', ch', db')"
      using assms(3) Some True by (simp add: import_comment_def Let_def)
    have "refs_here i as (comments ?d)" using assms(2) by (auto simp: refs_here_Cons intro!: refs_here_upd)
    then show ?thesis using comment_placed_ok[OF pl import_ok_update[OF assms(1) g post True]] by simp
  next
    case False
    then show ?thesis using assms Some by (auto simp: import_comment_def refs_here_def)
  qed
qed

lemma import_comments_ok:
  assumes "foldE (import_comment i) as (ids, ch, db) = Inr (ids', ch', db')"
    and "import_ok i db" "refs_here i as (comments db)"
  shows "import_ok i db'"
  using assms
proof (induction as arbitrary: ids ch db)
  case (Cons a as)
  obtain ids1 ch1 db1 where one: "import_comment i a (ids, ch, db) = Inr (ids1, ch1, db1)"
    and rest: "foldE (import_comment i) as (ids1, ch1, db1) = Inr (ids', ch', db')"
    using Cons.prems(1) by (auto simp: bindE_Inr_iff)
  from import_comment_ok[OF Cons.prems(2,3) one] Cons.IH[OF rest] show ?case by simp
qed simp

lemma import_thread_ok:
  assumes run: "import_thread c i n pc db = Inr db'"
    and ok: "import_ok i (ftsPut (FtsItem Post) i i (ip_Title c) (ip_Body c) db)"
    and refs: "refs_here i (ip_Comments c) (comments db)"
  shows "group_ok db'"
proof -
  obtain db1 ids ch db2 where im: "insertImages i None None (ip_Images c) (ip_CreatedAt c)
        (db\<lparr>images := del_where (\<lambda>im. im_post im = i) (images db)\<rparr>) = Inr db1"
    and co: "foldE (import_comment i) (ip_Comments c)
        ([], False, ftsPut (FtsItem Post) i i (ip_Title c) (ip_Body c) db1) = Inr (ids, ch, db2)"
    and db': "(if n then Inr (schedule JobDigest i 1 (ip_At c) (ip_At c) (schedule JobCheck i 1 (ip_At c) (ip_At c) (count_comments i db2)))
       else if pc then postEdited (ip_GroupID c) i (ip_At c) (count_comments i db2)
       else if ch then threadChanged (ip_GroupID c) i (ip_At c) (count_comments i db2)
       else Inr (count_comments i db2)) = Inr db'"
    using run unfolding import_thread_def bindE_Inr_iff Let_def by auto
  have same: "core db1 = core db" "comments db1 = comments db"
    using insertImages_frame[OF im] by (auto simp: core_def)
  have "import_ok i (ftsPut (FtsItem Post) i i (ip_Title c) (ip_Body c) db1)"
    using ok import_ok_core[OF core_ftsPut_cong[OF same(1)]] by simp
  moreover have "refs_here i (ip_Comments c) (comments (ftsPut (FtsItem Post) i i (ip_Title c) (ip_Body c) db1))"
    using refs same(2) by (simp add: frame)
  ultimately have "group_ok (count_comments i db2)"
    using import_comments_ok[OF co] by (simp add: import_ok_def)
  then show ?thesis using db'
    by (auto simp: frame split: if_splits intro: group_ok_same dest!: core_postEdited core_threadChanged)
qed

lemma archive_post_simps [simp]:
  "p_id (archive_post c) = ip_PostID c" "p_status (archive_post c) = Visible" "p_comment_count (archive_post c) = 0"
  "p_legal_hold (archive_post c) = False" "p_purge_after (archive_post c) = None"
  "p_title (archive_post c) = ip_Title c" "p_body (archive_post c) = ip_Body c"
  by (simp_all add: archive_post_def new_post_def)

text \<open>Where the references an import names belong to its own thread (or to nothing yet), the import
  keeps the invariant.\<close>

definition import_refs_ok :: "ImportPost \<Rightarrow> group_db \<Rightarrow> bool" where
  "import_refs_ok c db \<longleftrightarrow> (\<forall>q \<in> set (comments db). \<forall>a \<in> set (ip_Comments c).
     c_origin_ref q = Some (ac_OriginRef a) \<longrightarrow>
     (case find (\<lambda>p. p_origin_ref p = Some (ip_OriginRef c)) (posts db) of None \<Rightarrow> False | Some p \<Rightarrow> c_post q = p_id p))"

lemma group_ok_import_ok: "group_ok db \<Longrightarrow> import_ok i db"
proof -
  assume ok: "group_ok db"
  obtain ps cs ix where k: "core db = (ps, cs, ix)" by (cases "core db") auto
  then have "core (count_comments i db) = core db" using ok recounted_id[of ps cs ix i] by (simp add: core_count group_ok_def)
  with ok show ?thesis by (simp add: import_ok_def group_ok_def)
qed

lemma import_new_ok:
  assumes ok: "group_ok db" and t: "ins_new p_id (archive_post c) (posts db) = Inr t"
  shows "import_ok i (ftsPut (FtsItem Post) (ip_PostID c) (ip_PostID c) (ip_Title c) (ip_Body c) (db\<lparr>posts := t\<rparr>))"
  (is "import_ok i ?d")
proof (rule group_ok_import_ok, rule post_insert_ok[OF ok, of "archive_post c"])
  show "\<not> has_key p_id (p_id (archive_post c)) (posts db)" "posts ?d = posts db @ [archive_post c]"
    using t by (simp_all add: ins_new_Inr frame)
  show "comments ?d = comments db" by (simp add: frame)
  fix r assume "r \<in> set (search_fts ?d)"
  then show "r \<in> set (search_fts db) \<or> shown (p_status (archive_post c)) \<and> r = post_fts (archive_post c)"
    by (auto simp: ftsPut_def post_fts_def)
qed simp_all

lemma import_old_ok:
  assumes ok: "group_ok db" and f: "find (\<lambda>p. p_origin_ref p = Some ref) (posts db) = Some p" and s: "shown (p_status p)"
  shows "import_ok i (ftsPut (FtsItem Post) (p_id p) (p_id p) ti bo (db\<lparr>posts := upd_where (\<lambda>q. p_id q = p_id p)
    (\<lambda>q. q\<lparr>p_title := ti, p_body := bo, p_last_activity := la, p_origin_url := ou\<rparr>) (posts db)\<rparr>))"
proof -
  have "p \<in> set (posts db)" using f by (auto dest: find_Some_mem)
  then have g: "get_post db (p_id p) = Some p" using find_id[OF core_okD(1)[OF ok]] by (simp add: get_post_def)
  show ?thesis
    by (rule group_ok_import_ok, rule post_change_ok[OF ok g,
          where f = "\<lambda>q. q\<lparr>p_title := ti, p_body := bo, p_last_activity := la, p_origin_url := ou\<rparr>"])
      (use s group_ok_post_row[OF ok g] in \<open>auto simp: frame ftsPut_def post_fts_def\<close>)
qed

lemma ImportPost_ok:
  assumes ok: "group_ok db" and refs: "import_refs_ok c db"
    and run: "run_plan (apply_ImportPost c) db = Inr (v, db')"
  shows "group_ok db'"
proof (cases "find (\<lambda>p. p_origin_ref p = Some (ip_OriginRef c)) (posts db)")
  case None
  obtain t where t: "ins_new p_id (archive_post c) (posts db) = Inr t"
    and th: "import_thread c (ip_PostID c) True False (db\<lparr>posts := t\<rparr>) = Inr db'"
    using run None by (auto simp: apply_ImportPost_def import_post_row_def bind_iffs split: if_splits)
  have "refs_here (ip_PostID c) (ip_Comments c) (comments (db\<lparr>posts := t\<rparr>))"
    using refs None by (auto simp: refs_here_def import_refs_ok_def)
  then show ?thesis by (rule import_thread_ok[OF th import_new_ok[OF ok t]])
next
  case (Some p)
  show ?thesis
  proof (cases "shown (p_status p)")
    case True
    let ?d = "db\<lparr>posts := upd_where (\<lambda>q. p_id q = p_id p) (\<lambda>q. q\<lparr>p_title := ip_Title c, p_body := ip_Body c,
        p_last_activity := ip_LastActivity c, p_origin_url := nullIfEmpty (ip_Permalink c)\<rparr>) (posts db)\<rparr>"
    obtain ch where th: "import_thread c (p_id p) False ch ?d = Inr db'"
      using run Some True by (auto simp: apply_ImportPost_def import_post_row_def bind_iffs split: if_splits)
    have "refs_here (p_id p) (ip_Comments c) (comments ?d)"
      using refs Some by (auto simp: refs_here_def import_refs_ok_def)
    then show ?thesis by (rule import_thread_ok[OF th import_old_ok[OF ok Some True]])
  next
    case False
    with run Some ok show ?thesis by (auto simp: apply_ImportPost_def import_post_row_def bind_iffs split: if_splits)
  qed
qed

section \<open>What was taken down stays down\<close>

lemma import_comment_keeps:
  assumes "import_comment i a (ids, ch, db) = Inr (ids', ch', db')"
    and "distinct (map c_id (comments db))" "q \<in> set (comments db)" "\<not> shown (c_status q)"
  shows "q \<in> set (comments db')"
proof (cases "find (\<lambda>q. c_origin_ref q = Some (ac_OriginRef a)) (comments db)")
  case None
  obtain db1 where ins: "insert_comment (archive_comment i a (map_of ids (ac_ParentRef a))) db = Inr db1"
    and pl: "comment_placed i a ids (ac_ID a) True db1 = Inr (ids', ch', db')"
    using assms(1) None by (auto simp: import_comment_def bindE_Inr_iff)
  have "q \<in> set (comments db1)" using ins assms(3) by (auto simp: insert_comment_def bind_iffs ins_new_Inr split: if_splits)
  then show ?thesis using pl
    by (auto simp: comment_placed_def bindE_Inr_iff frame dest!: insertImages_frame split: option.splits)
next
  case (Some x)
  then have x: "x \<in> set (comments db)" by (auto dest: find_Some_mem)
  show ?thesis
  proof (cases "shown (c_status x)")
    case True
    then have "c_id q \<noteq> c_id x" using assms(2-4) x by (auto simp: distinct_map dest!: inj_onD)
    then have "q \<in> set (upd_where (\<lambda>r. c_id r = c_id x) g (comments db))" for g
      using assms(3) by (force simp: set_upd_where)
    then show ?thesis using assms(1) Some True
      by (auto simp: import_comment_def Let_def comment_placed_def bindE_Inr_iff frame dest!: insertImages_frame split: option.splits)
  next
    case False
    then show ?thesis using assms(1,3) Some by (auto simp: import_comment_def)
  qed
qed

lemma import_comments_keep:
  assumes "foldE (import_comment i) as (ids, ch, db) = Inr (ids', ch', db')"
    and "import_ok i db" "refs_here i as (comments db)" "q \<in> set (comments db)" "\<not> shown (c_status q)"
  shows "q \<in> set (comments db')"
  using assms
proof (induction as arbitrary: ids ch db)
  case (Cons a as)
  obtain ids1 ch1 db1 where one: "import_comment i a (ids, ch, db) = Inr (ids1, ch1, db1)"
    and rest: "foldE (import_comment i) as (ids1, ch1, db1) = Inr (ids', ch', db')"
    using Cons.prems(1) by (auto simp: bindE_Inr_iff)
  have "distinct (map c_id (comments db))"
    using core_okD(2)[OF Cons.prems(2)[unfolded import_ok_def]] by (simp add: count_frames)
  from import_comment_keeps[OF one this Cons.prems(4,5)] import_comment_ok[OF Cons.prems(2,3) one] Cons.IH[OF rest] Cons.prems(5)
  show ?case by blast
qed simp

lemma comments_postEdited: "postEdited g p t db = Inr db' \<Longrightarrow> comments db' = comments db"
  by (auto simp: postEdited_def Let_def frame dest!: threadChanged_frame thread_frame_comments split: option.splits)

lemma comments_threadChanged: "threadChanged g p t db = Inr db' \<Longrightarrow> comments db' = comments db"
  by (auto dest!: threadChanged_frame thread_frame_comments)

lemma import_thread_keeps:
  assumes run: "import_thread c i n pc db = Inr db'"
    and ok: "import_ok i (ftsPut (FtsItem Post) i i (ip_Title c) (ip_Body c) db)"
    and refs: "refs_here i (ip_Comments c) (comments db)" and q: "q \<in> set (comments db)" "\<not> shown (c_status q)"
  shows "q \<in> set (comments db')"
proof -
  obtain db1 ids ch db2 where im: "insertImages i None None (ip_Images c) (ip_CreatedAt c)
        (db\<lparr>images := del_where (\<lambda>im. im_post im = i) (images db)\<rparr>) = Inr db1"
    and co: "foldE (import_comment i) (ip_Comments c)
        ([], False, ftsPut (FtsItem Post) i i (ip_Title c) (ip_Body c) db1) = Inr (ids, ch, db2)"
    and db': "(if n then Inr (schedule JobDigest i 1 (ip_At c) (ip_At c) (schedule JobCheck i 1 (ip_At c) (ip_At c) (count_comments i db2)))
       else if pc then postEdited (ip_GroupID c) i (ip_At c) (count_comments i db2)
       else if ch then threadChanged (ip_GroupID c) i (ip_At c) (count_comments i db2)
       else Inr (count_comments i db2)) = Inr db'"
    using run unfolding import_thread_def bindE_Inr_iff Let_def by auto
  have same: "core db1 = core db" "comments db1 = comments db"
    using insertImages_frame[OF im] by (auto simp: core_def)
  have "import_ok i (ftsPut (FtsItem Post) i i (ip_Title c) (ip_Body c) db1)"
    using ok import_ok_core[OF core_ftsPut_cong[OF same(1)]] by simp
  then have "q \<in> set (comments db2)"
    using import_comments_keep[OF co] refs q same(2) by (simp add: frame)
  then show ?thesis using db'
    by (auto simp: frame count_frames split: if_splits dest!: comments_postEdited comments_threadChanged)
qed

text \<open>Running an import again does not bring back what was taken down: when the thread's post is
  no longer shown, importing it again changes nothing at all; and a comment that is no longer shown is
  left exactly as it is by every import, whatever the import says of it.\<close>

theorem import_keeps_taken_down:
  assumes "group_ok db" "import_refs_ok c db" "run_plan (apply_ImportPost c) db = Inr (v, db')"
  shows "(\<forall>p. find (\<lambda>p. p_origin_ref p = Some (ip_OriginRef c)) (posts db) = Some p \<and> \<not> shown (p_status p) \<longrightarrow> db' = db)
    \<and> (\<forall>q \<in> set (comments db). \<not> shown (c_status q) \<longrightarrow> q \<in> set (comments db'))"
proof (cases "find (\<lambda>p. p_origin_ref p = Some (ip_OriginRef c)) (posts db)")
  case None
  obtain t where t: "ins_new p_id (archive_post c) (posts db) = Inr t"
    and th: "import_thread c (ip_PostID c) True False (db\<lparr>posts := t\<rparr>) = Inr db'"
    using assms(3) None by (auto simp: apply_ImportPost_def import_post_row_def bind_iffs split: if_splits)
  have "refs_here (ip_PostID c) (ip_Comments c) (comments (db\<lparr>posts := t\<rparr>))"
    using assms(2) None by (auto simp: refs_here_def import_refs_ok_def)
  with import_thread_keeps[OF th import_new_ok[OF assms(1) t]] None show ?thesis by simp
next
  case (Some p)
  show ?thesis
  proof (cases "shown (p_status p)")
    case True
    let ?d = "db\<lparr>posts := upd_where (\<lambda>q. p_id q = p_id p) (\<lambda>q. q\<lparr>p_title := ip_Title c, p_body := ip_Body c,
        p_last_activity := ip_LastActivity c, p_origin_url := nullIfEmpty (ip_Permalink c)\<rparr>) (posts db)\<rparr>"
    obtain ch where th: "import_thread c (p_id p) False ch ?d = Inr db'"
      using assms(3) Some True by (auto simp: apply_ImportPost_def import_post_row_def bind_iffs split: if_splits)
    have "refs_here (p_id p) (ip_Comments c) (comments ?d)"
      using assms(2) Some by (auto simp: refs_here_def import_refs_ok_def)
    with import_thread_keeps[OF th import_old_ok[OF assms(1) Some True]] Some True show ?thesis by simp
  next
    case False
    with assms(3) Some show ?thesis by (auto simp: apply_ImportPost_def import_post_row_def bind_iffs split: if_splits)
  qed
qed

definition archive_thread :: group_db where
  "archive_thread = empty_group_db\<lparr>
     posts := [(new_post 4 None ''pump'' [] 0 0)\<lparr>p_status := Removed, p_origin := Archive, p_origin_ref := Some ''t1''\<rparr>],
     comments := [(new_comment 6 4 None None ''mine'' 1)\<lparr>c_status := Removed, c_origin_ref := Some ''c1''\<rparr>]\<rparr>"

definition import_again :: ImportPost where
  "import_again = ImportPost.make 1 9 ''t1'' [] ''pump'' ''new text'' 0 0 [] [ArchiveComment.make 8 ''c1'' [] ''mine again'' 2 None] 50"

lemma import_keeps_taken_down_witness:
  "run_plan (apply_ImportPost import_again) archive_thread = Inr (VInt 4, archive_thread)
   \<and> map c_body (comments archive_thread) = [''mine'']"
proof -
  have ok: "group_ok archive_thread"
    by (simp add: archive_thread_def group_ok_def core_ok_def core_def post_core_def comment_core_def shown_under_def
        empty_group_db_def new_post_def new_comment_def)
  have refs: "import_refs_ok import_again archive_thread"
    by (simp add: import_refs_ok_def archive_thread_def import_again_def ImportPost.defs ArchiveComment.defs
        new_post_def new_comment_def)
  obtain db' where run: "run_plan (apply_ImportPost import_again) archive_thread = Inr (VInt 4, db')"
    by (simp add: apply_ImportPost_def import_post_row_def import_again_def ImportPost.defs archive_thread_def new_post_def)
  from import_keeps_taken_down[OF ok refs run] have "db' = archive_thread"
    by (simp add: archive_thread_def import_again_def ImportPost.defs new_post_def)
  with run show ?thesis by (simp add: archive_thread_def new_comment_def)
qed

end
