(* ===== verification/PurgeGroups.thy ===== *)
theory PurgeGroups
  imports Archive
begin

text \<open>
  The daily purge of a group's file: \<open>PurgeGroup\<close> of \<^verbatim>\<open>internal/cmd/purge.go\<close>, one
  definition per group of statements, in the order they run. (\<open>Purge\<close> itself changes the
  site's file: the theory \<open>Site\<close>.)
\<close>

section \<open>The statements\<close>

definition expired :: "int \<Rightarrow> int option \<Rightarrow> bool" where
  "expired before t = (case t of None \<Rightarrow> False | Some x \<Rightarrow> x < before)"

definition post_ids :: "group_db \<Rightarrow> int set" where "post_ids db = p_id ` set (posts db)"
definition comment_ids :: "group_db \<Rightarrow> int set" where "comment_ids db = c_id ` set (comments db)"

definition purge_items :: "int \<Rightarrow> group_db \<Rightarrow> group_db" where
  "purge_items before db =
     (let dead = p_id ` set (filter (\<lambda>p. expired before (p_purge_after p) \<and> \<not> p_legal_hold p) (posts db));
          db1 = db\<lparr>comments := del_where (\<lambda>c. \<not> c_legal_hold c \<and> (expired before (c_purge_after c) \<or> c_post c \<in> dead)) (comments db)\<rparr>
      in db1\<lparr>posts := del_where (\<lambda>p. expired before (p_purge_after p) \<and> \<not> p_legal_hold p
              \<and> \<not> list_ex (\<lambda>c. c_post c = p_id p) (comments db1)) (posts db1)\<rparr>)"

definition purge_versions :: "int \<Rightarrow> group_db \<Rightarrow> group_db" where
  "purge_versions before db =
     (let held_posts = p_id ` set (filter p_legal_hold (posts db));
          held_comments = c_id ` set (filter c_legal_hold (comments db));
          db1 = db\<lparr>revisions := del_where (\<lambda>r.
                 r_purge_after r < before \<and> \<not> (r_kind r = Post \<and> r_ref r \<in> held_posts)
                   \<and> \<not> (r_kind r = Comment \<and> r_ref r \<in> held_comments)
                 \<or> r_kind r = Post \<and> r_ref r \<notin> post_ids db
                 \<or> r_kind r = Comment \<and> r_ref r \<notin> comment_ids db) (revisions db)\<rparr>
      in db1\<lparr>images := del_where (\<lambda>im. im_post im \<notin> post_ids db1
               \<or> (case im_comment im of None \<Rightarrow> False | Some c \<Rightarrow> c \<notin> comment_ids db1)) (images db1)\<rparr>)"

definition purge_notes :: "int \<Rightarrow> group_db \<Rightarrow> group_db" where
  "purge_notes groupID db =
     (let db1 = db\<lparr>search_fts := del_where (\<lambda>r. f_post r \<notin> post_ids db) (search_fts db)\<rparr>;
          db2 = db1\<lparr>post_links := del_where (\<lambda>l. pl_older l \<notin> post_ids db1 \<or> pl_newer l \<notin> post_ids db1) (post_links db1)\<rparr>;
          orphans = n_id ` set (filter (\<lambda>n. n_host n \<notin> post_ids db2) (note_rows db2));
          db3 = db2\<lparr>note_sources := del_where (\<lambda>s.
                 ns_group s = groupID \<and> ns_source s = 0 \<and> ns_post s \<notin> post_ids db2
                 \<or> ns_comment s \<noteq> 0 \<and> ns_comment s \<notin> comment_ids db2
                 \<or> ns_note s \<in> orphans) (note_sources db2)\<rparr>;
          db4 = db3\<lparr>note_rows := del_where (\<lambda>n. n_host n \<notin> post_ids db3
                 \<or> n_kind n = LinkNote \<and> n_id n \<notin> ns_note ` set (note_sources db3)) (note_rows db3)\<rparr>
      in db4\<lparr>jobs := del_where (\<lambda>j.
               j_kind j \<in> {JobCheck, JobDigest, JobSummary, JobFAQNew} \<and> j_ref j \<notin> post_ids db4
               \<or> j_kind j = JobNote \<and> j_ref j \<notin> n_id ` set (note_rows db4)
               \<or> j_kind j = JobCheckComment \<and> j_ref j \<notin> comment_ids db4) (jobs db4)\<rparr>)"

definition purge_on_posts :: "group_db \<Rightarrow> group_db" where
  "purge_on_posts db =
     (let gone = (\<lambda>p. p \<notin> post_ids db) in
      db\<lparr>faq_sources := del_where (\<lambda>s. gone (fs_post s)) (faq_sources db),
         post_topics := del_where (\<lambda>t. gone (pt_post t)) (post_topics db),
         nudges := del_where (\<lambda>u. gone (u_post u)) (nudges db),
         source_links := del_where (\<lambda>l. sl_post l \<noteq> 0 \<and> gone (sl_post l)) (source_links db),
         sister_links := del_where (\<lambda>x. gone (x_post x)) (sister_links db)\<rparr>)"

text \<open>Reports, votes and the like on an item that is gone.\<close>

definition item_gone :: "group_db \<Rightarrow> kind \<Rightarrow> int \<Rightarrow> bool" where
  "item_gone db k i \<longleftrightarrow> k = Post \<and> i \<notin> post_ids db \<or> k = Comment \<and> i \<notin> comment_ids db"

definition purge_engagement :: "int \<Rightarrow> group_db \<Rightarrow> group_db" where
  "purge_engagement before db =
     db\<lparr>reports := del_where (\<lambda>r. item_gone db (rp_kind r) (rp_item r)) (reports db),
        flag_votes := del_where (\<lambda>v. item_gone db (fv_kind v) (fv_item v)) (flag_votes db),
        votes := del_where (\<lambda>v. item_gone db (v_kind v) (v_item v)) (votes db),
        follows := del_where (\<lambda>f. fo_post f \<notin> post_ids db) (follows db),
        notifications := del_where (\<lambda>n. no_post n \<noteq> 0 \<and> no_post n \<notin> post_ids db
            \<or> expired (before - 90 * 86400) (no_read n) \<or> no_created n < before - 180 * 86400) (notifications db)\<rparr>"

definition purge_rest :: "int \<Rightarrow> group_db \<Rightarrow> group_db" where
  "purge_rest before db =
     db\<lparr>faq_comments := del_where (\<lambda>c. expired before (fc_purge_after c)) (faq_comments db),
        posts := upd_where (\<lambda>p. case p_continues p of None \<Rightarrow> False | Some u \<Rightarrow> u \<notin> post_ids db)
          (\<lambda>p. p\<lparr>p_continues := None, p_continued_at := None\<rparr>) (posts db),
        ai_feedbacks := del_where (\<lambda>f. af_created f < before - 180 * 86400) (ai_feedbacks db)\<rparr>"

definition purge_file :: "int \<Rightarrow> int \<Rightarrow> group_db \<Rightarrow> group_db" where
  "purge_file groupID before db =
     purge_rest before (purge_engagement before (purge_on_posts (purge_notes groupID
       (purge_versions before (purge_items before db)))))"

definition apply_PurgeGroup :: "PurgeGroup \<Rightarrow> group_db plan" where
  "apply_PurgeGroup c = nilTx (\<lambda>db. Inr (purge_file (pg_GroupID c) (pg_Before c) db))"

section \<open>What is left\<close>

text \<open>Only the first two statements and the one on updates change posts; comments change in the first.\<close>

lemma stage_rows:
  "posts (purge_versions t db) = posts db" "comments (purge_versions t db) = comments db"
  "posts (purge_notes g db) = posts db" "comments (purge_notes g db) = comments db"
  "posts (purge_on_posts db) = posts db" "comments (purge_on_posts db) = comments db"
  "posts (purge_engagement t db) = posts db" "comments (purge_engagement t db) = comments db"
  "comments (purge_rest t db) = comments db"
  by (simp_all add: purge_versions_def purge_notes_def purge_on_posts_def purge_engagement_def purge_rest_def Let_def)

lemma stage_index:
  "search_fts (purge_items t db) = search_fts db" "search_fts (purge_versions t db) = search_fts db"
  "search_fts (purge_notes g db) = del_where (\<lambda>r. f_post r \<notin> post_ids db) (search_fts db)"
  "search_fts (purge_on_posts db) = search_fts db" "search_fts (purge_engagement t db) = search_fts db"
  "search_fts (purge_rest t db) = search_fts db"
  by (simp_all add: purge_items_def purge_versions_def purge_notes_def purge_on_posts_def purge_engagement_def purge_rest_def
      Let_def post_ids_def)

lemma post_ids_cong: "posts db' = posts db \<Longrightarrow> post_ids db' = post_ids db"
  by (simp add: post_ids_def)

lemma purge_rows:
  "comments (purge_file g t db) = comments (purge_items t db)"
  "map post_core (posts (purge_file g t db)) = map post_core (posts (purge_items t db))"
  "search_fts (purge_file g t db) = del_where (\<lambda>r. f_post r \<notin> post_ids (purge_items t db)) (search_fts db)"
proof -
  have "map post_core (posts (purge_rest t d)) = map post_core (posts d)" for d
    unfolding purge_rest_def by (simp add: map_upd_where post_core_def)
  then show "map post_core (posts (purge_file g t db)) = map post_core (posts (purge_items t db))"
    by (simp add: purge_file_def stage_rows)
  show "comments (purge_file g t db) = comments (purge_items t db)"
    "search_fts (purge_file g t db) = del_where (\<lambda>r. f_post r \<notin> post_ids (purge_items t db)) (search_fts db)"
    by (simp_all add: purge_file_def stage_rows stage_index post_ids_cong[OF stage_rows(1)])
qed

lemma purge_items_posts:
  assumes "group_ok db"
  shows "posts (purge_items t db) = filter (\<lambda>p. \<not> expired t (p_purge_after p)) (posts db)"
    and "comments (purge_items t db) = filter (\<lambda>c. \<not> expired t (c_purge_after c)
          \<and> c_post c \<notin> p_id ` set (filter (\<lambda>p. expired t (p_purge_after p)) (posts db))) (comments db)"
proof -
  have ok: "core_ok (map post_core (posts db), map comment_core (comments db), search_fts db)"
    using assms by (simp add: group_ok_def core_def)
  have hp: "\<not> p_legal_hold p" if "p \<in> set (posts db)" for p
    using core_ok_post[OF ok, of "post_core p"] that by (simp add: post_core_def)
  have hc: "\<not> c_legal_hold c" if "c \<in> set (comments db)" for c
    using core_ok_comment[OF ok, of "comment_core c"] that by (simp add: comment_core_def)
  have dead: "filter (\<lambda>p. expired t (p_purge_after p) \<and> \<not> p_legal_hold p) (posts db)
      = filter (\<lambda>p. expired t (p_purge_after p)) (posts db)" by (rule filter_cong) (auto simp: hp)
  show c: "comments (purge_items t db) = filter (\<lambda>c. \<not> expired t (c_purge_after c)
          \<and> c_post c \<notin> p_id ` set (filter (\<lambda>p. expired t (p_purge_after p)) (posts db))) (comments db)"
    unfolding purge_items_def Let_def dead by (auto simp: del_where_def hc intro!: filter_cong)
  have p: "posts (purge_items t db) = del_where (\<lambda>p. expired t (p_purge_after p) \<and> \<not> p_legal_hold p
      \<and> \<not> list_ex (\<lambda>c. c_post c = p_id p) (comments (purge_items t db))) (posts db)"
    by (simp add: purge_items_def Let_def)
  have "\<not> list_ex (\<lambda>c. c_post c = p_id p) (comments (purge_items t db))"
    if "p \<in> set (posts db)" "expired t (p_purge_after p)" for p
    unfolding c using that by (auto simp: list_ex_iff image_iff)
  then show "posts (purge_items t db) = filter (\<lambda>p. \<not> expired t (p_purge_after p)) (posts db)"
    unfolding p by (auto simp: del_where_def hp intro!: filter_cong)
qed

lemma gone_not_shown: "expired t e \<Longrightarrow> e \<noteq> None"
  by (cases e) (simp_all add: expired_def)

lemma shown_under_filter:
  "(\<And>c. c \<in> set cs \<Longrightarrow> kc_post c = i \<Longrightarrow> shown (kc_status c) \<Longrightarrow> P c) \<Longrightarrow> shown_under i (filter P cs) = shown_under i cs"
  by (induction cs) auto

lemma purge_items_ok:
  assumes ok: "group_ok db"
  shows "group_ok ((purge_items t db)\<lparr>search_fts := del_where (\<lambda>r. f_post r \<notin> post_ids (purge_items t db)) (search_fts db)\<rparr>)"
proof -
  let ?ps = "map post_core (posts db)" and ?cs = "map comment_core (comments db)"
  let ?dead = "p_id ` set (filter (\<lambda>p. expired t (p_purge_after p)) (posts db))"
  let ?ps' = "map post_core (filter (\<lambda>p. \<not> expired t (p_purge_after p)) (posts db))"
  let ?P = "\<lambda>c. \<not> expired t (c_purge_after c) \<and> c_post c \<notin> ?dead"
  let ?cs' = "map comment_core (filter ?P (comments db))"
  let ?ix = "del_where (\<lambda>r. f_post r \<notin> post_ids (purge_items t db)) (search_fts db)"
  have k: "core_ok (?ps, ?cs, search_fts db)" using ok by (simp add: group_ok_def core_def)
  have ids: "distinct (map p_id (posts db))" "distinct (map c_id (comments db))" using core_okD[OF ok] by simp_all
  have live: "shown (c_status c) \<Longrightarrow> \<not> expired t (c_purge_after c)" if "c \<in> set (comments db)" for c
    using core_ok_comment[OF k, of "comment_core c"] that gone_not_shown[of t "c_purge_after c"] not_gone_shown
    by (auto simp: comment_core_def)
  have uniq: "expired t (p_purge_after p)" if "p \<in> set (posts db)" "p_id p \<in> ?dead" for p
    using that ids(1) by (auto simp: distinct_map dest: inj_onD)
  have left: "post_ids (purge_items t db) = p_id ` set (filter (\<lambda>p. \<not> expired t (p_purge_after p)) (posts db))"
    by (simp add: post_ids_def purge_items_posts[OF ok])
  have "core_ok (?ps', ?cs', ?ix)"
  proof (rule core_okI)
    show "distinct (map kp_id ?ps')" "distinct (map kc_id ?cs')"
      using ids by (auto simp: post_core_def comment_core_def comp_def distinct_map intro: inj_on_subset)
    have same: "shown_under (p_id p) ?cs' = shown_under (p_id p) ?cs" if p: "p \<in> set (posts db)" "\<not> expired t (p_purge_after p)" for p
    proof -
      have "?cs' = filter (\<lambda>c. \<not> expired t (kc_expires c) \<and> kc_post c \<notin> ?dead) ?cs"
        by (simp add: filter_map comp_def comment_core_def)
      moreover have "shown_under (p_id p) (filter (\<lambda>c. \<not> expired t (kc_expires c) \<and> kc_post c \<notin> ?dead) ?cs) = shown_under (p_id p) ?cs"
        by (rule shown_under_filter) (use live uniq p in \<open>auto simp: comment_core_def\<close>)
      ultimately show ?thesis by simp
    qed
    show "\<forall>q \<in> set ?ps'. kp_count q = shown_under (kp_id q) ?cs'"
    proof
      fix q assume "q \<in> set ?ps'"
      then obtain p where p: "q = post_core p" "p \<in> set (posts db)" "\<not> expired t (p_purge_after p)" by auto
      have "kp_count q = shown_under (kp_id q) ?cs" by (rule core_ok_count[OF k]) (simp add: p)
      also have "kp_id q = p_id p" by (simp add: p(1) post_core_def)
      finally show "kp_count q = shown_under (kp_id q) ?cs'" unfolding same[OF p(2,3)] \<open>kp_id q = p_id p\<close> .
    qed
    show "\<forall>q \<in> set ?ps'. (kp_expires q \<noteq> None \<longrightarrow> gone (kp_status q)) \<and> \<not> kp_hold q"
    proof
      fix q assume "q \<in> set ?ps'"
      then have "q \<in> set ?ps" by auto
      then show "(kp_expires q \<noteq> None \<longrightarrow> gone (kp_status q)) \<and> \<not> kp_hold q" by (rule core_ok_post[OF k])
    qed
    show "\<forall>c \<in> set ?cs'. (kc_expires c \<noteq> None \<longrightarrow> gone (kc_status c)) \<and> \<not> kc_hold c \<and> kc_post c \<in> kp_id ` set ?ps'"
    proof
      fix q assume "q \<in> set ?cs'"
      then obtain c where c: "q = comment_core c" "c \<in> set (comments db)" "?P c" by auto
      from c have "kc_post q \<in> kp_id ` set ?ps" using core_ok_comment[OF k, of q] by simp
      then obtain p where "p \<in> set (posts db)" "p_id p = c_post c" using c(1) by (auto simp: post_core_def comment_core_def)
      with c have "kc_post q \<in> kp_id ` set ?ps'" by (force simp: post_core_def comment_core_def image_iff)
      with core_ok_comment[OF k, of q] c show "(kc_expires q \<noteq> None \<longrightarrow> gone (kc_status q)) \<and> \<not> kc_hold q \<and> kc_post q \<in> kp_id ` set ?ps'"
        by simp
    qed
    fix r assume "r \<in> set ?ix"
    then have r: "r \<in> set (search_fts db)" "f_post r \<in> p_id ` set (filter (\<lambda>p. \<not> expired t (p_purge_after p)) (posts db))"
      by (simp_all add: left)
    then obtain p0 where p0: "p0 \<in> set (posts db)" "p_id p0 = f_post r" "\<not> expired t (p_purge_after p0)" by auto
    have "row_ok ?ps ?cs r" by (rule core_ok_row[OF k r(1)])
    then show "row_ok ?ps' ?cs' r"
    proof (rule row_ok_mono)
      fix q assume q: "q \<in> set ?ps" "f_kind r = FtsItem Post" "kp_id q = f_rowid r"
      then obtain p where p: "p \<in> set (posts db)" "q = post_core p" by auto
      have "f_post r = f_rowid r" using \<open>row_ok ?ps ?cs r\<close> q(2) by (simp add: row_ok_def)
      then have "p_id p = p_id p0" using p q(3) p0(2) by (simp add: post_core_def)
      then have "p = p0" using inj_onD[of p_id "set (posts db)" p p0] ids(1) p(1) p0(1) by (simp add: distinct_map)
      with p p0 have "q \<in> set ?ps'" by simp
      then show "\<exists>x \<in> set ?ps'. kp_id x = kp_id q \<and> kp_status x = kp_status q \<and> kp_title x = kp_title q \<and> kp_body x = kp_body q"
        by blast
    next
      fix q assume q: "q \<in> set ?cs" "f_kind r = FtsItem Comment" "kc_id q = f_rowid r"
      then obtain c where c: "c \<in> set (comments db)" "q = comment_core c" by auto
      obtain d where d: "d \<in> set (comments db)" "c_id d = f_rowid r" "shown (c_status d)" "f_post r = c_post d"
        using \<open>row_ok ?ps ?cs r\<close> q(2) by (auto simp: row_ok_def comment_core_def)
      then have "c_id c = c_id d" using c(2) q(3) by (simp add: comment_core_def)
      then have "c = d" using inj_onD[of c_id "set (comments db)" c d] ids(2) c(1) d(1) by (simp add: distinct_map)
      moreover have "c_post d \<notin> ?dead" using uniq p0 d(4) by metis
      ultimately show "q \<in> set ?cs'" using c d live by simp
    qed
  qed
  then show ?thesis by (simp add: group_ok_def core_def purge_items_posts[OF ok])
qed

lemma PurgeGroup_ok: "keeps group_ok (apply_PurgeGroup c)"
proof -
  have "group_ok (purge_file g t db)" if ok: "group_ok db" for g t db
  proof -
    have "core (purge_file g t db) = core ((purge_items t db)\<lparr>search_fts :=
        del_where (\<lambda>r. f_post r \<notin> post_ids (purge_items t db)) (search_fts db)\<rparr>)"
      by (simp add: core_def purge_rows)
    then show ?thesis using purge_items_ok[OF ok] by (simp only: group_ok_def)
  qed
  then show ?thesis by (simp add: apply_PurgeGroup_def keeps_nilTx)
qed

section \<open>Nothing dangles\<close>







lemma ids_cong: "posts d' = posts d \<Longrightarrow> comments d' = comments d \<Longrightarrow> post_ids d' = post_ids d \<and> comment_ids d' = comment_ids d"
  by (simp add: post_ids_def comment_ids_def)















text \<open>C21: the purge empties the search index of the FAQ and of outside pages: their rows are kept
  under post 0, which no file has, and the statement for posts that are gone takes them with it, however
  fresh they are.\<close>

theorem purge_drops_faq_index:
  assumes "run_plan (apply_PurgeGroup c) db = Inr (v, db')" "0 \<notin> post_ids db"
  shows "\<forall>r \<in> set (search_fts db'). f_post r \<noteq> 0"
proof -
  have "post_ids (purge_items t db) \<subseteq> post_ids db" for t
    by (auto simp: post_ids_def purge_items_def Let_def)
  then have "0 \<notin> post_ids (purge_items (pg_Before c) db)" using assms(2) by blast
  then show ?thesis using assms(1) by (auto simp: apply_PurgeGroup_def run_nilTx purge_rows(3))
qed

lemma purge_drops_faq_index_witness:
  "\<exists>db'. run_plan (apply_PurgeGroup \<lparr>pg_GroupID = 1, pg_Before = 9\<rparr>)
        (ftsPut FtsFaq 7 0 ''why'' ''so'' empty_group_db) = Inr (VNil, db')
     \<and> search_fts (ftsPut FtsFaq 7 0 ''why'' ''so'' empty_group_db) \<noteq> [] \<and> search_fts db' = []"
proof -
  let ?db = "ftsPut FtsFaq 7 0 ''why'' ''so'' empty_group_db"
  have run: "run_plan (apply_PurgeGroup \<lparr>pg_GroupID = 1, pg_Before = 9\<rparr>) ?db = Inr (VNil, purge_file 1 9 ?db)"
    by (simp add: apply_PurgeGroup_def run_nilTx)
  have "0 \<notin> post_ids ?db" by (simp add: post_ids_def ftsPut_def empty_group_db_def)
  from purge_drops_faq_index[OF run this] have "search_fts (purge_file 1 9 ?db) = []"
    unfolding purge_rows(3) by (auto simp: ftsPut_def empty_group_db_def)
  with run show ?thesis by (simp add: ftsPut_def)
qed

end
