(* ===== verification/SiteDB.thy ===== *)
theory SiteDB
  imports "HOL-Library.List_Lexorder" "HOL-Library.Char_ord" Names Items
begin

text \<open>
  The site's file: one record per table of \<^verbatim>\<open>siteMigrations\<close> in
  \<^verbatim>\<open>internal/store/schema.go\<close> (accounts, sessions, sign-ins, domains, the list of groups, the
  node map, pairings, bounce codes, the outbox), the statements several of its commands share,
  and the commands of \<^verbatim>\<open>internal/cmd/site.go\<close>. \<^verbatim>\<open>erasures\<close> is written by no command, and
  the real numbers of \<^verbatim>\<open>ai_usage\<close> are left out with the command that adds them up.
\<close>

section \<open>Rows\<close>

datatype domain_role = PrimaryDomain | AlternateDomain
datatype pair_state = PairProposed | PairActive | PairEnded

record user =
  user_id :: int
  user_handle :: "string option"
  user_email :: "string option"
  user_phone :: "string option"
  user_photo_key :: "string option"
  user_bio :: "string option"
  user_created :: int
  user_is_operator :: bool
  user_suspended_until :: int
  user_notify_email :: bool
  user_digest :: string
  user_deleted_at :: "int option"
  user_purge_after :: "int option"

record session =
  ses_token :: string
  ses_user :: int
  ses_created :: int
  ses_expires :: int
  ses_last_used :: int
  ses_hint :: string

record login_token =
  lt_token :: string
  lt_email :: string
  lt_code :: string
  lt_return :: string
  lt_created :: int
  lt_expires :: int
  lt_tries :: int
  lt_used :: "int option"

record domain_row =
  dm_name :: string
  dm_role :: domain_role
  dm_created :: int

record site_group =
  grp_id :: int
  grp_slug :: string
  grp_main_host :: "string option"
  grp_name :: string
  grp_created :: int
  grp_status :: string
  grp_visibility :: visibility
  grp_ai :: bool

record host_alias =
  ha_host :: string
  ha_group :: "int option"
  ha_created :: int

record cert =
  cert_domain :: string
  cert_pem :: string
  cert_updated :: int

record group_pair =
  gp_a :: int
  gp_b :: int
  gp_proposed_by_group :: int
  gp_topics :: string
  gp_state :: pair_state
  gp_proposed_by :: int
  gp_decided_by :: "int option"
  gp_created :: int
  gp_updated :: int

record node_row =
  nd_id :: string
  nd_addr :: string
  nd_voter :: bool
  nd_full :: bool
  nd_created :: int
  nd_updated :: int

record group_host =
  gh_group :: int
  gh_node :: string
  gh_voter :: bool
  gh_bootstrap :: bool
  gh_created :: int

record bounce =
  bo_code :: string
  bo_user :: int
  bo_host :: string
  bo_expires :: int

record site_db =
  users :: "user list"
  sessions :: "session list"
  login_tokens :: "login_token list"
  domains :: "domain_row list"
  site_groups :: "site_group list"
  host_aliases :: "host_alias list"
  certs :: "cert list"
  group_pairs :: "group_pair list"
  node_rows :: "node_row list"
  group_hosts :: "group_host list"
  bounces :: "bounce list"
  site_outbox :: "outbox_item list"
  site_outbox_seq :: int

definition empty_site_db :: site_db where
  "empty_site_db = \<lparr>users = [], sessions = [], login_tokens = [], domains = [], site_groups = [],
     host_aliases = [], certs = [], group_pairs = [], node_rows = [], group_hosts = [], bounces = [],
     site_outbox = [], site_outbox_seq = 0\<rparr>"

definition get_user :: "site_db \<Rightarrow> int \<Rightarrow> user option" where
  "get_user db i = find (\<lambda>u. user_id u = i) (users db)"

definition get_group :: "site_db \<Rightarrow> int \<Rightarrow> site_group option" where
  "get_group db i = find (\<lambda>g. grp_id g = i) (site_groups db)"

text \<open>\<open>send\<close> inside a transaction on the site's file, and \<open>groupIDs\<close>.\<close>

definition site_send :: "followup \<Rightarrow> int \<Rightarrow> site_db \<Rightarrow> site_db" where
  "site_send c at db =
     db\<lparr>site_outbox := site_outbox db @ [\<lparr>ob_id = site_outbox_seq db + 1, ob_target = LogOf_followup c,
                                        ob_command = c, ob_created = at\<rparr>],
        site_outbox_seq := site_outbox_seq db + 1\<rparr>"

definition groupIDs :: "(site_group \<Rightarrow> bool) \<Rightarrow> site_db \<Rightarrow> int list" where
  "groupIDs P db = sort (map grp_id (filter P (site_groups db)))"

text \<open>A session needs its account (the foreign key) and a token of its own.\<close>

definition start_session :: "session \<Rightarrow> site_db \<Rightarrow> go_error + site_db" where
  "start_session s db =
     (if get_user db (ses_user s) = None then Inl (SqlConstraint ''FOREIGN KEY'')
      else bindE (ins_new ses_token s (sessions db)) (\<lambda>t. Inr (db\<lparr>sessions := t\<rparr>)))"

section \<open>Domains\<close>

record SetPrimaryDomain =
  spd_Domain :: string
  spd_At :: int

definition apply_SetPrimaryDomain :: "SetPrimaryDomain \<Rightarrow> site_db plan" where
  "apply_SetPrimaryDomain c =
     (case ValidDomain (spd_Domain c) of
        Some e \<Rightarrow> Refuse e
      | None \<Rightarrow> nilTx (\<lambda>db.
          let demoted = upd_where (\<lambda>d. dm_role d = PrimaryDomain \<and> dm_name d \<noteq> spd_Domain c)
                (\<lambda>d. d\<lparr>dm_role := AlternateDomain\<rparr>) (domains db)
          in Inr (db\<lparr>domains := upsert dm_name \<lparr>dm_name = spd_Domain c, dm_role = PrimaryDomain, dm_created = spd_At c\<rparr>
               (\<lambda>d. d\<lparr>dm_role := PrimaryDomain\<rparr>) demoted\<rparr>)))"

record AddAlternateDomain =
  aad_Domain :: string
  aad_At :: int

definition apply_AddAlternateDomain :: "AddAlternateDomain \<Rightarrow> site_db plan" where
  "apply_AddAlternateDomain c =
     (case ValidDomain (aad_Domain c) of
        Some e \<Rightarrow> Refuse e
      | None \<Rightarrow> nilTx (\<lambda>db.
          if has_key dm_name (aad_Domain c) (domains db) then Inl (PlainErr (aad_Domain c @ '' is already listed''))
          else Inr (db\<lparr>domains := ins_ignore dm_name \<lparr>dm_name = aad_Domain c, dm_role = AlternateDomain, dm_created = aad_At c\<rparr>
                 (domains db)\<rparr>)))"

record AddHostAlias =
  aha_Host :: string
  aha_GroupID :: int
  aha_At :: int

definition apply_AddHostAlias :: "AddHostAlias \<Rightarrow> site_db plan" where
  "apply_AddHostAlias c =
     (case ValidDomain (aha_Host c) of
        Some e \<Rightarrow> Refuse e
      | None \<Rightarrow> nilTx (\<lambda>db.
          failIf (aha_GroupID c \<noteq> 0 \<and> get_group db (aha_GroupID c) = None) ErrNotFound
            (bindE (ins_new ha_host \<lparr>ha_host = aha_Host c, ha_group = nullIfZero (aha_GroupID c), ha_created = aha_At c\<rparr>
                (host_aliases db)) (\<lambda>t. Inr (db\<lparr>host_aliases := t\<rparr>)))))"

section \<open>New groups\<close>

definition GroupVoters :: nat where "GroupVoters = 3"

definition host_key :: "group_host \<Rightarrow> int \<times> string" where "host_key h = (gh_group h, gh_node h)"

definition placeNewGroup :: "int \<Rightarrow> int \<Rightarrow> site_db \<Rightarrow> go_error + site_db" where
  "placeNewGroup groupID at db =
     (let voters = take GroupVoters (sort (map nd_id (filter nd_voter (node_rows db))));
          row = (\<lambda>v n. \<lparr>gh_group = groupID, gh_node = n, gh_voter = v, gh_bootstrap = v, gh_created = at\<rparr>)
      in bindE (foldE (\<lambda>n. ins_new host_key (row True n)) voters (group_hosts db)) (\<lambda>t.
           Inr (db\<lparr>group_hosts := fold (\<lambda>n. ins_ignore host_key (row False n))
                  (map nd_id (filter nd_full (node_rows db))) t\<rparr>)))"

record CreateGroup =
  cg_GroupID :: int
  cg_Slug :: string
  cg_Name :: string
  cg_Description :: string
  cg_Visibility :: string
  cg_OwnerID :: int
  cg_At :: int

definition parse_vis :: "string \<Rightarrow> visibility option" where
  "parse_vis s = map_of [(''public'', Public), (''private'', Private), (''hidden'', Hidden)] s"

definition vis_str :: "visibility \<Rightarrow> string" where
  "vis_str v = (case v of Public \<Rightarrow> ''public'' | Private \<Rightarrow> ''private'' | Hidden \<Rightarrow> ''hidden'')"

definition apply_CreateGroup :: "CreateGroup \<Rightarrow> site_db plan" where
  "apply_CreateGroup c =
     (case ValidSlug (cg_Slug c) of
        Some e \<Rightarrow> Refuse e
      | None \<Rightarrow>
        if cg_Name c = [] then Refuse (PlainErr ''a group needs a name'')
        else case parse_vis (if cg_Visibility c = [] then ''public'' else cg_Visibility c) of
          None \<Rightarrow> Refuse (Invalid ''visibility must be public, private or hidden'')
        | Some vis \<Rightarrow> nilTx (\<lambda>db.
            failIf (has_key grp_slug (cg_Slug c) (site_groups db)) ErrSlugTaken
              (bindE (ins_new grp_id \<lparr>grp_id = cg_GroupID c, grp_slug = cg_Slug c, grp_main_host = None, grp_name = cg_Name c,
                   grp_created = cg_At c, grp_status = ''active'', grp_visibility = vis, grp_ai = True\<rparr> (site_groups db)) (\<lambda>t.
               bindE (placeNewGroup (cg_GroupID c) (cg_At c) (db\<lparr>site_groups := t\<rparr>)) (\<lambda>db1.
               Inr (site_send (F_InitGroup \<lparr>ig_GroupID = cg_GroupID c, ig_Name = cg_Name c, ig_Description = cg_Description c,
                      ig_Visibility = vis, ig_OwnerID = cg_OwnerID c, ig_At = cg_At c\<rparr>) (cg_At c) db1))))))"

section \<open>Certificates\<close>

record PutCert =
  pc_Name :: string
  pc_PEM :: string
  pc_At :: int

definition apply_PutCert :: "PutCert \<Rightarrow> site_db plan" where
  "apply_PutCert c = nilTx (\<lambda>db. Inr (db\<lparr>certs :=
     upsert cert_domain \<lparr>cert_domain = pc_Name c, cert_pem = pc_PEM c, cert_updated = pc_At c\<rparr>
       (\<lambda>r. r\<lparr>cert_pem := pc_PEM c, cert_updated := pc_At c\<rparr>) (certs db)\<rparr>))"

record DeleteCert =
  dc_Name :: string

definition apply_DeleteCert :: "DeleteCert \<Rightarrow> site_db plan" where
  "apply_DeleteCert c = nilTx (\<lambda>db. Inr (db\<lparr>certs := del_where (\<lambda>r. cert_domain r = dc_Name c) (certs db)\<rparr>))"

end
