(* ===== verification/Accounts.thy ===== *)
theory Accounts
  imports SiteDB
begin

text \<open>
  Accounts and how people sign in: \<^verbatim>\<open>internal/cmd/login.go\<close>, \<^verbatim>\<open>bounce.go\<close>, and
  the commands on accounts of \<^verbatim>\<open>moderation.go\<close>, \<^verbatim>\<open>engage.go\<close> and \<^verbatim>\<open>purge.go\<close>. Tokens and
  codes are kept as their hashes, as the code keeps them. Unicode lower-casing of a host name is a
  parameter.
\<close>

section \<open>Signing in\<close>

definition MaxCodeTries :: int where "MaxCodeTries = 5"

record CreateLogin =
  cl_TokenHash :: string
  cl_CodeHash :: string
  cl_Email :: string
  cl_ReturnURL :: string
  cl_At :: int
  cl_ExpiresAt :: int

definition apply_CreateLogin :: "CreateLogin \<Rightarrow> site_db plan" where
  "apply_CreateLogin c = nilTx (\<lambda>db.
     bindE (ins_new lt_token \<lparr>lt_token = cl_TokenHash c, lt_email = cl_Email c, lt_code = cl_CodeHash c,
         lt_return = cl_ReturnURL c, lt_created = cl_At c, lt_expires = cl_ExpiresAt c, lt_tries = 0, lt_used = None\<rparr>
       (login_tokens db)) (\<lambda>t. Inr (db\<lparr>login_tokens := t\<rparr>)))"

record FailLoginCode =
  flc_TokenHash :: string

definition apply_FailLoginCode :: "FailLoginCode \<Rightarrow> site_db plan" where
  "apply_FailLoginCode c = nilTx (\<lambda>db. Inr (db\<lparr>login_tokens :=
     upd_where (\<lambda>t. lt_token t = flc_TokenHash c) (\<lambda>t. t\<lparr>lt_tries := lt_tries t + 1\<rparr>) (login_tokens db)\<rparr>))"

record RedeemLogin =
  rdm_TokenHash :: string
  rdm_NewUserID :: int
  rdm_SessionHash :: string
  rdm_SessionExpires :: int
  rdm_UserAgentHint :: string
  rdm_Operator :: bool
  rdm_At :: int

text \<open>The account of an address: found, brought back if it was deleted, or made.\<close>

definition sign_in_account :: "RedeemLogin \<Rightarrow> string \<Rightarrow> site_db \<Rightarrow> go_error + int \<times> site_db" where
  "sign_in_account c email db =
     (case find (\<lambda>u. user_email u = Some email) (users db) of
        None \<Rightarrow> bindE (ins_new user_id
            \<lparr>user_id = rdm_NewUserID c, user_handle = None, user_email = Some email, user_phone = None, user_photo_key = None,
             user_bio = None, user_created = rdm_At c, user_is_operator = rdm_Operator c, user_suspended_until = 0,
             user_notify_email = False, user_digest = ''off'', user_deleted_at = None, user_purge_after = None\<rparr> (users db))
          (\<lambda>t. Inr (rdm_NewUserID c, db\<lparr>users := t\<rparr>))
      | Some u \<Rightarrow> Inr (user_id u, db\<lparr>users := upd_where (\<lambda>x. user_id x = user_id u)
            (\<lambda>x. x\<lparr>user_deleted_at := None, user_purge_after := None,
                   user_is_operator := user_is_operator x \<or> rdm_Operator c\<rparr>) (users db)\<rparr>))"

definition apply_RedeemLogin :: "RedeemLogin \<Rightarrow> site_db plan" where
  "apply_RedeemLogin c = Tx (VRedeemed 0 []) (\<lambda>db.
     case find (\<lambda>t. lt_token t = rdm_TokenHash c) (login_tokens db) of
       None \<Rightarrow> Inl ErrLoginDead
     | Some t \<Rightarrow>
       failIf (lt_used t \<noteq> None \<or> lt_expires t \<le> rdm_At c \<or> lt_tries t \<ge> MaxCodeTries) ErrLoginDead
         (let db1 = db\<lparr>login_tokens := upd_where (\<lambda>x. lt_token x = rdm_TokenHash c)
                (\<lambda>x. x\<lparr>lt_used := Some (rdm_At c)\<rparr>) (login_tokens db)\<rparr>
          in bindE (sign_in_account c (lt_email t) db1) (\<lambda>(u, db2).
             bindE (start_session \<lparr>ses_token = rdm_SessionHash c, ses_user = u, ses_created = rdm_At c,
                 ses_expires = rdm_SessionExpires c, ses_last_used = rdm_At c, ses_hint = rdm_UserAgentHint c\<rparr> db2) (\<lambda>db3.
             Inr (VRedeemed u (lt_return t), db3)))))"

record SetHandle =
  sh_UserID :: int
  sh_Handle :: string

definition apply_SetHandle :: "SetHandle \<Rightarrow> site_db plan" where
  "apply_SetHandle c =
     (case ValidHandle (sh_Handle c) of
        Some e \<Rightarrow> Refuse e
      | None \<Rightarrow> nilTx (\<lambda>db.
          let mine = (\<lambda>u. user_id u = sh_UserID c \<and> user_deleted_at u = None) in
          failIf (affected (\<lambda>u. user_handle u = Some (sh_Handle c) \<and> user_id u \<noteq> sh_UserID c) (users db) > 0) ErrHandleTaken
          (failIf (affected mine (users db) = 0) ErrNotFound
             (Inr (db\<lparr>users := upd_where mine (\<lambda>u. u\<lparr>user_handle := Some (sh_Handle c)\<rparr>) (users db)\<rparr>)))))"

record EndSession =
  es_TokenHash :: string

definition apply_EndSession :: "EndSession \<Rightarrow> site_db plan" where
  "apply_EndSession c = nilTx (\<lambda>db. Inr (db\<lparr>sessions := del_where (\<lambda>s. ses_token s = es_TokenHash c) (sessions db)\<rparr>))"

section \<open>A group's own domain\<close>

record SetGroupHost =
  sgh_GroupID :: int
  sgh_Host :: string
  sgh_At :: int

definition host_in_use :: "string \<Rightarrow> int \<Rightarrow> site_db \<Rightarrow> nat" where
  "host_in_use host g db =
     affected (\<lambda>x. grp_main_host x = Some host \<and> grp_id x \<noteq> g) (site_groups db)
       + affected (\<lambda>d. dm_name d = host) (domains db) + affected (\<lambda>a. ha_host a = host) (host_aliases db)"

definition apply_SetGroupHost :: "(string \<Rightarrow> string) \<Rightarrow> SetGroupHost \<Rightarrow> site_db plan" where
  "apply_SetGroupHost lower c =
     (let host = lower (TrimSpace (sgh_Host c)) in
      case (if host \<noteq> [] then ValidDomain host else None) of
        Some e \<Rightarrow> Refuse e
      | None \<Rightarrow> nilTx (\<lambda>db.
          let primary = (case find (\<lambda>d. dm_role d = PrimaryDomain) (domains db) of None \<Rightarrow> [] | Some d \<Rightarrow> dm_name d) in
          failIf (host \<noteq> [] \<and> primary \<noteq> [] \<and> (host = primary \<or> HasSuffix host (CHR ''.'' # primary)))
            (Invalid (host @ '' is already under the primary domain''))
          (failIf (host \<noteq> [] \<and> host_in_use host (sgh_GroupID c) db > 0) (Invalid (host @ '' is already in use''))
          (failIf (affected (\<lambda>x. grp_id x = sgh_GroupID c) (site_groups db) = 0) ErrNotFound
             (Inr (db\<lparr>site_groups := upd_where (\<lambda>x. grp_id x = sgh_GroupID c)
                 (\<lambda>x. x\<lparr>grp_main_host := (if host = [] then None else Some host)\<rparr>) (site_groups db)\<rparr>))))))"

record StartBounce =
  sb_CodeHash :: string
  sb_UserID :: int
  sb_Host :: string
  sb_ExpiresAt :: int
  sb_At :: int

definition apply_StartBounce :: "StartBounce \<Rightarrow> site_db plan" where
  "apply_StartBounce c = nilTx (\<lambda>db.
     bindE (ins_new bo_code \<lparr>bo_code = sb_CodeHash c, bo_user = sb_UserID c, bo_host = sb_Host c, bo_expires = sb_ExpiresAt c\<rparr>
       (del_where (\<lambda>b. bo_expires b \<le> sb_At c) (bounces db))) (\<lambda>t. Inr (db\<lparr>bounces := t\<rparr>)))"

record FinishBounce =
  fnb_CodeHash :: string
  fnb_Host :: string
  fnb_SessionHash :: string
  fnb_SessionExpires :: int
  fnb_UserAgentHint :: string
  fnb_At :: int

definition apply_FinishBounce :: "FinishBounce \<Rightarrow> site_db plan" where
  "apply_FinishBounce c = Tx (VInt 0) (\<lambda>db.
     case find (\<lambda>b. bo_code b = fnb_CodeHash c \<and> bo_host b = fnb_Host c \<and> bo_expires b > fnb_At c) (bounces db) of
       None \<Rightarrow> Inl ErrLoginDead
     | Some b \<Rightarrow>
       bindE (start_session \<lparr>ses_token = fnb_SessionHash c, ses_user = bo_user b, ses_created = fnb_At c,
           ses_expires = fnb_SessionExpires c, ses_last_used = fnb_At c, ses_hint = fnb_UserAgentHint c\<rparr>
         (db\<lparr>bounces := del_where (\<lambda>x. bo_code x = fnb_CodeHash c) (bounces db)\<rparr>)) (\<lambda>db1. Inr (VInt (bo_user b), db1)))"

section \<open>Accounts\<close>

record SuspendUser =
  spu_UserID :: int
  spu_Until :: int
  spu_At :: int

definition apply_SuspendUser :: "SuspendUser \<Rightarrow> site_db plan" where
  "apply_SuspendUser c = nilTx (\<lambda>db.
     let who = (\<lambda>u. user_id u = spu_UserID c \<and> \<not> user_is_operator u) in
     failIf (affected who (users db) = 0) (Invalid ''no such account (or it's an operator)'')
       (let db1 = db\<lparr>users := upd_where who (\<lambda>u. u\<lparr>user_suspended_until := spu_Until c\<rparr>) (users db)\<rparr>
        in Inr (if spu_Until c > spu_At c then db1\<lparr>sessions := del_where (\<lambda>s. ses_user s = spu_UserID c) (sessions db1)\<rparr>
                else db1)))"

record SetNotifyPrefs =
  np_UserID :: int
  np_Email :: bool
  np_Digest :: string
  np_At :: int

definition apply_SetNotifyPrefs :: "SetNotifyPrefs \<Rightarrow> site_db plan" where
  "apply_SetNotifyPrefs c =
     (if np_Digest c \<noteq> ''off'' \<and> np_Digest c \<noteq> ''daily'' then Refuse (Invalid ''the digest is off or daily'')
      else nilTx (\<lambda>db. Inr (db\<lparr>users := upd_where (\<lambda>u. user_id u = np_UserID c)
             (\<lambda>u. u\<lparr>user_notify_email := np_Email c, user_digest := np_Digest c\<rparr>) (users db)\<rparr>)))"

record SetProfile =
  pr_UserID :: int
  pr_Bio :: string
  pr_Photo :: string
  pr_ClearPhoto :: bool
  pr_At :: int

definition MaxBio :: nat where "MaxBio = 500"

definition apply_SetProfile :: "SetProfile \<Rightarrow> site_db plan" where
  "apply_SetProfile c =
     (let bio = TrimSpace (pr_Bio c) in
      if rune_count bio > MaxBio then Refuse (Invalid (''a bio can be '' @ FormatInt (int MaxBio) @ '' characters at most''))
      else nilTx (\<lambda>db.
        let me = (\<lambda>u. user_id u = pr_UserID c);
            t = upd_where me (\<lambda>u. u\<lparr>user_bio := Some bio\<rparr>) (users db)
        in Inr (db\<lparr>users :=
             (if pr_ClearPhoto c then upd_where me (\<lambda>u. u\<lparr>user_photo_key := None\<rparr>) t
              else if pr_Photo c \<noteq> [] then upd_where me (\<lambda>u. u\<lparr>user_photo_key := Some (pr_Photo c)\<rparr>) t
              else t)\<rparr>)))"

record Purge =
  pu_Before :: int

text \<open>What is spent goes, and what identifies a person once the grace period is over.\<close>

definition past :: "int \<Rightarrow> user \<Rightarrow> bool" where
  "past before u = (case user_purge_after u of None \<Rightarrow> False | Some t \<Rightarrow> t < before)"

definition purge_accounts :: "int \<Rightarrow> site_db \<Rightarrow> site_db" where
  "purge_accounts before db =
     db\<lparr>login_tokens := del_where (\<lambda>t. lt_expires t < before) (login_tokens db),
        sessions := del_where (\<lambda>s. ses_user s \<in> user_id ` set (filter (past before) (users db)))
          (del_where (\<lambda>s. ses_expires s < before) (sessions db)),
        users := upd_where (past before)
          (\<lambda>u. u\<lparr>user_email := None, user_handle := None, user_phone := None, user_photo_key := None,
                 user_bio := None, user_purge_after := None\<rparr>) (users db)\<rparr>"

definition apply_Purge :: "Purge \<Rightarrow> site_db plan" where
  "apply_Purge c = nilTx (\<lambda>db.
     let db1 = purge_accounts (pu_Before c) db in
     Inr (fold (\<lambda>g. site_send (F_PurgeGroup \<lparr>pg_GroupID = g, pg_Before = pu_Before c\<rparr>) (pu_Before c))
       (groupIDs (\<lambda>_. True) db1) db1))"

end
