(* ===== verification/Placement.thy ===== *)
theory Placement
  imports SiteDB
begin

text \<open>
  The node map: \<^verbatim>\<open>internal/cmd/nodes.go\<close>. Which nodes there are, which groups each holds, and
  whether it votes in a group's log. (\<open>placeNewGroup\<close> is in the theory \<open>SiteDB\<close>.)
\<close>

record RegisterNode =
  reg_ID :: string
  reg_Addr :: string
  reg_Voter :: bool
  reg_Full :: bool
  reg_At :: int

definition apply_RegisterNode :: "RegisterNode \<Rightarrow> site_db plan" where
  "apply_RegisterNode c =
     (if reg_ID c = [] \<or> reg_Addr c = [] \<or> CHR '' '' \<in> set (reg_ID c) \<or> CHR ''/'' \<in> set (reg_ID c)
      then Refuse (Invalid ''a node needs an id and an address'')
      else nilTx (\<lambda>db.
        let db1 = db\<lparr>node_rows := upsert nd_id
              \<lparr>nd_id = reg_ID c, nd_addr = reg_Addr c, nd_voter = reg_Voter c, nd_full = reg_Full c, nd_created = reg_At c, nd_updated = reg_At c\<rparr>
              (\<lambda>n. n\<lparr>nd_addr := reg_Addr c, nd_voter := reg_Voter c, nd_full := reg_Full c, nd_updated := reg_At c\<rparr>) (node_rows db)\<rparr>;
            row = (\<lambda>v g. \<lparr>gh_group = g, gh_node = reg_ID c, gh_voter = v, gh_bootstrap = v, gh_created = reg_At c\<rparr>);
            homeless = filter (\<lambda>g. g \<notin> gh_group ` set (group_hosts db1)) (map grp_id (site_groups db1))
        in bindE (if reg_Voter c then foldE (\<lambda>g. ins_new host_key (row True g)) homeless (group_hosts db1)
                  else Inr (group_hosts db1)) (\<lambda>t.
           Inr (db1\<lparr>group_hosts := (if reg_Full c then fold (\<lambda>g. ins_ignore host_key (row False g)) (map grp_id (site_groups db1)) t
                                    else t)\<rparr>))))"

record RemoveNode =
  rm_ID :: string
  rm_Replacement :: string
  rm_At :: int

definition sole_voter :: "string \<Rightarrow> group_host list \<Rightarrow> int list" where
  "sole_voter n hs = map gh_group (filter (\<lambda>h. gh_node h = n \<and> gh_voter h
     \<and> \<not> list_ex (\<lambda>x. gh_group x = gh_group h \<and> gh_voter x \<and> gh_node x \<noteq> n) hs) hs)"

definition apply_RemoveNode :: "RemoveNode \<Rightarrow> site_db plan" where
  "apply_RemoveNode c = nilTx (\<lambda>db.
     failIf (rm_Replacement c \<noteq> [] \<and> affected (\<lambda>n. nd_id n = rm_Replacement c \<and> nd_id n \<noteq> rm_ID c) (node_rows db) = 0)
       (Invalid (''no node '' @ rm_Replacement c @ '' to take its groups''))
       (let hs = (if rm_Replacement c \<noteq> []
                  then fold (\<lambda>g. upsert host_key
                           \<lparr>gh_group = g, gh_node = rm_Replacement c, gh_voter = True, gh_bootstrap = True, gh_created = rm_At c\<rparr>
                           (\<lambda>h. h\<lparr>gh_voter := True, gh_bootstrap := True\<rparr>))
                         (sole_voter (rm_ID c) (group_hosts db)) (group_hosts db)
                  else group_hosts db)
        in Inr (db\<lparr>group_hosts := del_where (\<lambda>h. gh_node h = rm_ID c) hs,
                   node_rows := del_where (\<lambda>n. nd_id n = rm_ID c) (node_rows db)\<rparr>)))"

record PlaceGroup =
  pl_GroupID :: int
  pl_NodeID :: string
  pl_Voter :: bool
  pl_At :: int

definition apply_PlaceGroup :: "PlaceGroup \<Rightarrow> site_db plan" where
  "apply_PlaceGroup c = nilTx (\<lambda>db.
     failIf (affected (\<lambda>n. nd_id n = pl_NodeID c) (node_rows db) * affected (\<lambda>g. grp_id g = pl_GroupID c) (site_groups db) = 0)
       (Invalid ''no such node or group'')
       (Inr (db\<lparr>group_hosts := upsert host_key
            \<lparr>gh_group = pl_GroupID c, gh_node = pl_NodeID c, gh_voter = pl_Voter c, gh_bootstrap = False, gh_created = pl_At c\<rparr>
            (\<lambda>h. h\<lparr>gh_voter := pl_Voter c\<rparr>) (group_hosts db)\<rparr>)))"

record UnplaceGroup =
  up_GroupID :: int
  up_NodeID :: string
  up_At :: int

definition apply_UnplaceGroup :: "UnplaceGroup \<Rightarrow> site_db plan" where
  "apply_UnplaceGroup c = nilTx (\<lambda>db.
     case (find (\<lambda>h. host_key h = (up_GroupID c, up_NodeID c)) (group_hosts db), find (\<lambda>n. nd_id n = up_NodeID c) (node_rows db)) of
       (Some h, Some n) \<Rightarrow>
         failIf (nd_full n) (Invalid ''a full-copy node holds every group'')
         (failIf (gh_voter h \<and> affected (\<lambda>x. gh_group x = up_GroupID c \<and> gh_voter x \<and> gh_node x \<noteq> up_NodeID c) (group_hosts db) = 0)
            (Invalid ''that's the group's last voter; place it on another node first'')
            (Inr (db\<lparr>group_hosts := del_where (\<lambda>x. gh_group x = up_GroupID c \<and> gh_node x = up_NodeID c) (group_hosts db)\<rparr>)))
     | _ \<Rightarrow> Inl (Invalid ''that node doesn't hold that group''))"

end
