(* ===== verification/SisterPairs.thy ===== *)
theory SisterPairs
  imports Access Accounts Placement Sisters
begin

text \<open>
  The pairings of sister groups, which the site's file keeps (\<^verbatim>\<open>internal/cmd/sisters.go\<close>),
  and the site's side of \<^verbatim>\<open>crosslog.go\<close>, \<^verbatim>\<open>logs.go\<close> and the nightly batch of
  \<^verbatim>\<open>faq.go\<close>. A pairing is proposed by one group's owner and active once an owner of the
  other group agrees; what follows in the groups' own files is sent to their logs.
\<close>

section \<open>Pairings\<close>

abbreviation MaxSisterTopics :: nat where "MaxSisterTopics \<equiv> 200"

definition pairKey :: "int \<Rightarrow> int \<Rightarrow> int \<times> int" where
  "pairKey g1 g2 = (min g1 g2, max g1 g2)"

definition pair_key :: "group_pair \<Rightarrow> int \<times> int" where
  "pair_key p = (gp_a p, gp_b p)"

definition get_pair :: "site_db \<Rightarrow> int \<Rightarrow> int \<Rightarrow> group_pair option" where
  "get_pair db g1 g2 = find (\<lambda>p. pair_key p = pairKey g1 g2) (group_pairs db)"

definition sisterPair :: "site_db \<Rightarrow> int \<Rightarrow> int \<Rightarrow> bool \<times> string" where
  "sisterPair db g1 g2 =
     (case get_pair db g1 g2 of None \<Rightarrow> (False, []) | Some p \<Rightarrow> (gp_state p = PairActive, gp_topics p))"

definition groupFacts :: "site_db \<Rightarrow> int \<Rightarrow> go_error + visibility \<times> bool" where
  "groupFacts db i =
     (case get_group db i of None \<Rightarrow> Inl ErrNotFound | Some g \<Rightarrow> Inr (grp_visibility g, grp_ai g))"

abbreviation need_ai :: go_error where
  "need_ai \<equiv> Invalid ''both groups need \"Use AI in this group\" on''"

record ProposeSister =
  pp_GroupID :: int
  pp_Other :: int
  pp_Topics :: string
  pp_By :: int
  pp_At :: int

definition tidy_topics :: "string \<Rightarrow> string" where
  "tidy_topics s = Join (filter (\<lambda>w. w \<noteq> []) (map squeeze (split_on CHR '','' s))) '', ''"

definition ask_ai :: "int \<Rightarrow> site_db \<Rightarrow> go_error + site_db" where
  "ask_ai g db = bindE (groupFacts db g) (\<lambda>(_, ai). failIf (\<not> ai) need_ai (Inr db))"

text \<open>The row after a proposal, and the state it ends in.\<close>

definition propose :: "ProposeSister \<Rightarrow> string \<Rightarrow> site_db \<Rightarrow> go_error + string \<times> site_db" where
  "propose c topics db =
     (let k = pairKey (pp_GroupID c) (pp_Other c);
          ask = (\<lambda>db. (''proposed'', db\<lparr>group_pairs := upsert pair_key
             \<lparr>gp_a = fst k, gp_b = snd k, gp_proposed_by_group = pp_GroupID c, gp_topics = topics, gp_state = PairProposed,
              gp_proposed_by = pp_By c, gp_decided_by = None, gp_created = pp_At c, gp_updated = pp_At c\<rparr>
             (\<lambda>p. p\<lparr>gp_proposed_by_group := pp_GroupID c, gp_topics := topics, gp_state := PairProposed,
                    gp_proposed_by := pp_By c, gp_decided_by := None, gp_updated := pp_At c\<rparr>) (group_pairs db)\<rparr>))
      in case get_pair db (pp_GroupID c) (pp_Other c) of
           None \<Rightarrow> Inr (ask db)
         | Some p \<Rightarrow>
           if gp_state p = PairActive then Inl (Invalid ''these groups are already sisters'')
           else if gp_state p = PairProposed \<and> gp_proposed_by_group p = pp_Other c
           then Inr (''active'', db\<lparr>group_pairs := upd_where (\<lambda>p. pair_key p = k)
                  (\<lambda>p. p\<lparr>gp_state := PairActive, gp_decided_by := Some (pp_By c), gp_updated := pp_At c\<rparr>) (group_pairs db)\<rparr>)
           else Inr (ask db))"

definition apply_ProposeSister :: "ProposeSister \<Rightarrow> site_db plan" where
  "apply_ProposeSister c =
     (let topics = tidy_topics (pp_Topics c) in
      if length topics > MaxSisterTopics
      then Refuse (Invalid (''topics can be up to '' @ FormatInt (int MaxSisterTopics) @ '' characters''))
      else if pp_Other c = pp_GroupID c then Refuse (Invalid ''a group can't be its own sister'')
      else Tx (VStr []) (\<lambda>db.
        bindE (foldE ask_ai [pp_GroupID c, pp_Other c] db) (\<lambda>_.
        bindE (propose c topics db) (\<lambda>(state, db1).
        Inr (VStr state, site_send (F_ModLogEntry \<lparr>ml_GroupID = pp_GroupID c, ml_By = pp_By c, ml_Action = ''sister_'' @ state,
               ml_TargetType = ''group'', ml_TargetID = pp_Other c, ml_Reason = topics, ml_At = pp_At c\<rparr>) (pp_At c) db1)))))"

record AnswerSister =
  ans_GroupID :: int
  ans_Other :: int
  ans_Accept :: bool
  ans_By :: int
  ans_At :: int

definition apply_AnswerSister :: "AnswerSister \<Rightarrow> site_db plan" where
  "apply_AnswerSister c = nilTx (\<lambda>db.
     let open_pair = (\<lambda>p. pair_key p = pairKey (ans_GroupID c) (ans_Other c) \<and> gp_state p = PairProposed
                        \<and> gp_proposed_by_group p = ans_Other c);
         db1 = db\<lparr>group_pairs := upd_where open_pair
                 (\<lambda>p. p\<lparr>gp_state := (if ans_Accept c then PairActive else PairEnded), gp_decided_by := Some (ans_By c),
                        gp_updated := ans_At c\<rparr>) (group_pairs db)\<rparr>
     in failIf (affected open_pair (group_pairs db) = 0) (Invalid ''that proposal has already been answered'')
       (failIf (ans_Accept c \<and> \<not> list_all (\<lambda>g. case groupFacts db1 g of Inl _ \<Rightarrow> False | Inr (_, ai) \<Rightarrow> ai) [ans_GroupID c, ans_Other c])
          need_ai
          (Inr (site_send (F_ModLogEntry \<lparr>ml_GroupID = ans_GroupID c, ml_By = ans_By c,
                 ml_Action = ''sister_'' @ (if ans_Accept c then ''accept'' else ''decline''), ml_TargetType = ''group'',
                 ml_TargetID = ans_Other c, ml_Reason = [], ml_At = ans_At c\<rparr>) (ans_At c) db1))))"

record EndSister =
  en_GroupID :: int
  en_Other :: int
  en_By :: int
  en_At :: int

definition apply_EndSister :: "EndSister \<Rightarrow> site_db plan" where
  "apply_EndSister c = nilTx (\<lambda>db.
     let db1 = db\<lparr>group_pairs := upd_where (\<lambda>p. pair_key p = pairKey (en_GroupID c) (en_Other c))
           (\<lambda>p. p\<lparr>gp_state := PairEnded, gp_decided_by := Some (en_By c), gp_updated := en_At c\<rparr>) (group_pairs db)\<rparr>;
         db2 = site_send (F_DropSisterLinks \<lparr>dl_GroupID = en_GroupID c, dl_Other = en_Other c, dl_By = en_By c, dl_At = en_At c\<rparr>)
                 (en_At c) db1
     in Inr (site_send (F_DropSisterLinks \<lparr>dl_GroupID = en_Other c, dl_Other = en_GroupID c, dl_By = 0, dl_At = en_At c\<rparr>)
               (en_At c) db2))"

text \<open>What may be linked, and which side may cite the other.\<close>

definition SisterRule :: "site_db \<Rightarrow> int \<Rightarrow> int \<Rightarrow> bool \<times> bool \<times> bool" where
  "SisterRule db here there =
     (case groupFacts db here of
        Inl _ \<Rightarrow> (False, False, False)
      | Inr (visHere, aiHere) \<Rightarrow>
        if \<not> aiHere then (False, False, False)
        else case groupFacts db there of
               Inl _ \<Rightarrow> (False, False, False)
             | Inr (visThere, aiThere) \<Rightarrow>
               if \<not> fst (sisterPair db here there) \<or> \<not> aiThere then (False, False, False)
               else (CanCite (vis_str visThere) \<or> CanCite (vis_str visHere), CanCite (vis_str visThere), CanCite (vis_str visHere)))"

section \<open>The site's side of other files' commands\<close>

definition apply_MirrorGroup :: "MirrorGroup \<Rightarrow> site_db plan" where
  "apply_MirrorGroup c = nilTx (\<lambda>db. Inr (db\<lparr>site_groups := upd_where (\<lambda>g. grp_id g = mg_GroupID c)
     (\<lambda>g. g\<lparr>grp_name := mg_Name c, grp_visibility := mg_Visibility c, grp_ai := mg_AIEnabled c\<rparr>) (site_groups db)\<rparr>))"

definition apply_OutboxDone_site :: "OutboxDone \<Rightarrow> site_db plan" where
  "apply_OutboxDone_site c = nilTx (\<lambda>db. Inr (db\<lparr>site_outbox := del_where (\<lambda>b. ob_id b \<le> od_UpTo c) (site_outbox db)\<rparr>))"

record QueueFAQ =
  qf_Weekly :: bool
  qf_At :: int

definition apply_QueueFAQ :: "QueueFAQ \<Rightarrow> site_db plan" where
  "apply_QueueFAQ c = nilTx (\<lambda>db.
     Inr (fold (\<lambda>g. site_send (F_QueueGroupFAQ \<lparr>qg_GroupID = g, qg_Weekly = qf_Weekly c, qg_At = qf_At c\<rparr>) (qf_At c))
       (groupIDs (\<lambda>g. grp_status g = ''active'') db) db))"

end
