(* ===== verification/Machine.thy ===== *)
theory Machine
  imports GroupDB
begin

text \<open>
  A file and the commands of its log. A log applies its commands in order; one that is refused
  leaves the file as it was. The locale \<open>kept\<close> is the contract of an invariant with the commands:
  each keeps it, where what the submitter promises of the command holds; then it holds in every file
  that can be reached. The site's and the groups' files are its interpretations.
\<close>

definition step_with :: "('c \<Rightarrow> 'db plan) \<Rightarrow> 'c \<Rightarrow> 'db \<Rightarrow> 'db" where
  "step_with plan c db = (case run_plan (plan c) db of Inl _ \<Rightarrow> db | Inr (_, db') \<Rightarrow> db')"

primrec run_all :: "('c \<Rightarrow> 'db plan) \<Rightarrow> 'c list \<Rightarrow> 'db \<Rightarrow> 'db" where
  "run_all plan [] db = db"
| "run_all plan (c # cs) db = run_all plan cs (step_with plan c db)"

inductive reachable :: "('c \<Rightarrow> 'db plan) \<Rightarrow> ('c \<Rightarrow> 'db \<Rightarrow> bool) \<Rightarrow> 'db \<Rightarrow> 'db \<Rightarrow> bool"
  for plan :: "'c \<Rightarrow> 'db plan" and promise :: "'c \<Rightarrow> 'db \<Rightarrow> bool" and db0 :: 'db where
  reach_start: "reachable plan promise db0 db0"
| reach_step: "reachable plan promise db0 db \<Longrightarrow> promise c db \<Longrightarrow> run_plan (plan c) db = Inr (v, db')
    \<Longrightarrow> reachable plan promise db0 db'"

lemma run_all_append: "run_all plan (cs @ ds) db = run_all plan ds (run_all plan cs db)"
  by (induction cs arbitrary: db) simp_all

lemma step_with_cases:
  obtains "step_with plan c db = db" | v where "run_plan (plan c) db = Inr (v, step_with plan c db)"
  by (cases "run_plan (plan c) db") (auto simp: step_with_def)

lemma reachable_run_all:
  "list_all (\<lambda>c. \<forall>d. promise c d) cs \<Longrightarrow> reachable plan promise db0 db \<Longrightarrow> reachable plan promise db0 (run_all plan cs db)"
proof (induction cs arbitrary: db)
  case Nil
  then show ?case by simp
next
  case (Cons c cs)
  have "promise c db" using Cons.prems(1) by simp
  then have "reachable plan promise db0 (step_with plan c db)"
    by (rule_tac step_with_cases[of plan c db]) (use Cons.prems(2) in \<open>auto intro: reach_step\<close>)
  with Cons show ?case by simp
qed

locale kept =
  fixes plan :: "'c \<Rightarrow> 'db plan" and promise :: "'c \<Rightarrow> 'db \<Rightarrow> bool" and Inv :: "'db \<Rightarrow> bool"
  assumes keeps_it: "Inv db \<Longrightarrow> promise c db \<Longrightarrow> okE (\<lambda>(_, db'). Inv db') (run_plan (plan c) db)"
begin

lemma after: "Inv db \<Longrightarrow> promise c db \<Longrightarrow> run_plan (plan c) db = Inr (v, db') \<Longrightarrow> Inv db'"
  using keeps_it[of db c] by simp

lemma everywhere: "reachable plan promise db0 db \<Longrightarrow> Inv db0 \<Longrightarrow> Inv db"
  by (induction rule: reachable.induct) (auto intro: after)

end

text \<open>An invariant every command keeps by itself: nothing to promise.\<close>

locale always_kept =
  fixes plan :: "'c \<Rightarrow> 'db plan" and Inv :: "'db \<Rightarrow> bool"
  assumes keeps_plan: "keeps Inv (plan c)"

sublocale always_kept \<subseteq> kept plan "\<lambda>_ _. True" Inv
  using keeps_plan by unfold_locales (simp add: keeps_def)

context always_kept
begin

lemma step_kept: "Inv db \<Longrightarrow> Inv (step_with plan c db)"
  by (rule step_with_cases[of plan c db]) (auto intro: after)

lemma run_all_kept: "Inv db \<Longrightarrow> Inv (run_all plan cs db)"
  by (induction cs arbitrary: db) (auto intro: step_kept)

end

end
