(* ===== verification/SiteKeys.thy ===== *)
theory SiteKeys
  imports SisterPairs Machine
begin

text \<open>
  Every command on the site's file as one machine, and the keys of its tables: accounts, handles,
  addresses, slugs, hosts and pairings stay unique, there is one primary domain, and sessions and
  hosts refer to rows there are, from an empty file on. Where the code checks before it writes (slugs,
  handles, a group's own host, the primary domain), the check is what the proof rests on.
\<close>

datatype site_cmd =
    S_SetPrimaryDomain SetPrimaryDomain | S_AddAlternateDomain AddAlternateDomain | S_AddHostAlias AddHostAlias
  | S_CreateGroup CreateGroup | S_PutCert PutCert | S_DeleteCert DeleteCert
  | S_CreateLogin CreateLogin | S_FailLoginCode FailLoginCode | S_RedeemLogin RedeemLogin
  | S_SetHandle SetHandle | S_EndSession EndSession | S_SetGroupHost SetGroupHost
  | S_StartBounce StartBounce | S_FinishBounce FinishBounce | S_SuspendUser SuspendUser
  | S_SetNotifyPrefs SetNotifyPrefs | S_SetProfile SetProfile | S_Purge Purge
  | S_RegisterNode RegisterNode | S_RemoveNode RemoveNode | S_PlaceGroup PlaceGroup | S_UnplaceGroup UnplaceGroup
  | S_ProposeSister ProposeSister | S_AnswerSister AnswerSister | S_EndSister EndSister
  | S_MirrorGroup MirrorGroup | S_OutboxDone OutboxDone | S_QueueFAQ QueueFAQ

fun site_plan :: "(string \<Rightarrow> string) \<Rightarrow> site_cmd \<Rightarrow> site_db plan" where
  "site_plan lower (S_SetPrimaryDomain c) = apply_SetPrimaryDomain c"
| "site_plan lower (S_AddAlternateDomain c) = apply_AddAlternateDomain c"
| "site_plan lower (S_AddHostAlias c) = apply_AddHostAlias c"
| "site_plan lower (S_CreateGroup c) = apply_CreateGroup c"
| "site_plan lower (S_PutCert c) = apply_PutCert c"
| "site_plan lower (S_DeleteCert c) = apply_DeleteCert c"
| "site_plan lower (S_CreateLogin c) = apply_CreateLogin c"
| "site_plan lower (S_FailLoginCode c) = apply_FailLoginCode c"
| "site_plan lower (S_RedeemLogin c) = apply_RedeemLogin c"
| "site_plan lower (S_SetHandle c) = apply_SetHandle c"
| "site_plan lower (S_EndSession c) = apply_EndSession c"
| "site_plan lower (S_SetGroupHost c) = apply_SetGroupHost lower c"
| "site_plan lower (S_StartBounce c) = apply_StartBounce c"
| "site_plan lower (S_FinishBounce c) = apply_FinishBounce c"
| "site_plan lower (S_SuspendUser c) = apply_SuspendUser c"
| "site_plan lower (S_SetNotifyPrefs c) = apply_SetNotifyPrefs c"
| "site_plan lower (S_SetProfile c) = apply_SetProfile c"
| "site_plan lower (S_Purge c) = apply_Purge c"
| "site_plan lower (S_RegisterNode c) = apply_RegisterNode c"
| "site_plan lower (S_RemoveNode c) = apply_RemoveNode c"
| "site_plan lower (S_PlaceGroup c) = apply_PlaceGroup c"
| "site_plan lower (S_UnplaceGroup c) = apply_UnplaceGroup c"
| "site_plan lower (S_ProposeSister c) = apply_ProposeSister c"
| "site_plan lower (S_AnswerSister c) = apply_AnswerSister c"
| "site_plan lower (S_EndSister c) = apply_EndSister c"
| "site_plan lower (S_MirrorGroup c) = apply_MirrorGroup c"
| "site_plan lower (S_OutboxDone c) = apply_OutboxDone_site c"
| "site_plan lower (S_QueueFAQ c) = apply_QueueFAQ c"

section \<open>Keys\<close>

text \<open>\<open>unique_by f k t\<close>: no two rows of \<open>t\<close>, told apart by \<open>k\<close>, share a value of the nullable column \<open>f\<close>.\<close>

definition unique_by :: "('r \<Rightarrow> 'v option) \<Rightarrow> ('r \<Rightarrow> 'k) \<Rightarrow> 'r list \<Rightarrow> bool" where
  "unique_by f k t \<longleftrightarrow> (\<forall>r \<in> set t. \<forall>s \<in> set t. \<forall>v. f r = Some v \<longrightarrow> f s = Some v \<longrightarrow> k r = k s)"

definition accounts_ok :: "site_db \<Rightarrow> bool" where
  "accounts_ok db \<longleftrightarrow>
     distinct (map user_id (users db)) \<and> unique_by user_email user_id (users db) \<and> unique_by user_handle user_id (users db)
     \<and> distinct (map ses_token (sessions db)) \<and> (\<forall>s \<in> set (sessions db). ses_user s \<in> user_id ` set (users db))
     \<and> distinct (map lt_token (login_tokens db)) \<and> distinct (map bo_code (bounces db))"

definition names_ok :: "site_db \<Rightarrow> bool" where
  "names_ok db \<longleftrightarrow>
     distinct (map dm_name (domains db))
     \<and> (\<forall>d \<in> set (domains db). \<forall>e \<in> set (domains db). dm_role d = PrimaryDomain \<and> dm_role e = PrimaryDomain \<longrightarrow> d = e)
     \<and> distinct (map grp_id (site_groups db)) \<and> distinct (map grp_slug (site_groups db))
     \<and> unique_by grp_main_host grp_id (site_groups db)
     \<and> distinct (map ha_host (host_aliases db)) \<and> distinct (map cert_domain (certs db))"

definition map_ok :: "site_db \<Rightarrow> bool" where
  "map_ok db \<longleftrightarrow>
     distinct (map nd_id (node_rows db)) \<and> distinct (map host_key (group_hosts db))
     \<and> (\<forall>h \<in> set (group_hosts db). gh_node h \<in> nd_id ` set (node_rows db) \<and> gh_group h \<in> grp_id ` set (site_groups db))
     \<and> distinct (map pair_key (group_pairs db)) \<and> (\<forall>p \<in> set (group_pairs db). gp_a p < gp_b p)"

definition site_ok :: "site_db \<Rightarrow> bool" where
  "site_ok db \<longleftrightarrow> accounts_ok db \<and> names_ok db \<and> map_ok db"

lemma accounts_cong:
  "users d' = users d \<Longrightarrow> sessions d' = sessions d \<Longrightarrow> login_tokens d' = login_tokens d \<Longrightarrow> bounces d' = bounces d
    \<Longrightarrow> accounts_ok d' = accounts_ok d"
  by (simp add: accounts_ok_def)

lemma names_cong:
  "domains d' = domains d \<Longrightarrow> site_groups d' = site_groups d \<Longrightarrow> host_aliases d' = host_aliases d \<Longrightarrow> certs d' = certs d
    \<Longrightarrow> names_ok d' = names_ok d"
  by (simp add: names_ok_def)

lemma map_ok_cong:
  "node_rows d' = node_rows d \<Longrightarrow> group_hosts d' = group_hosts d \<Longrightarrow> map grp_id (site_groups d') = map grp_id (site_groups d)
    \<Longrightarrow> group_pairs d' = group_pairs d \<Longrightarrow> map_ok d' = map_ok d"
  unfolding map_ok_def by (metis list.set_map)

lemma site_send_tables [simp]:
  "users (site_send f t d) = users d" "sessions (site_send f t d) = sessions d"
  "login_tokens (site_send f t d) = login_tokens d" "bounces (site_send f t d) = bounces d"
  "domains (site_send f t d) = domains d" "site_groups (site_send f t d) = site_groups d"
  "host_aliases (site_send f t d) = host_aliases d" "certs (site_send f t d) = certs d"
  "node_rows (site_send f t d) = node_rows d" "group_hosts (site_send f t d) = group_hosts d"
  "group_pairs (site_send f t d) = group_pairs d"
  by (simp_all add: site_send_def)

lemma site_ok_send [simp]: "site_ok (site_send f t d) = site_ok d"
  by (simp add: site_ok_def accounts_ok_def names_ok_def map_ok_def)

lemma site_ok_sends: "site_ok (fold (\<lambda>g. site_send (f g) t) gs d) = site_ok d"
  by (induction gs arbitrary: d) simp_all

text \<open>Statements on keyed tables.\<close>

interpretation site_table: keyed_table k "\<lambda>f. \<forall>r. k (f r) = k r" for k :: "'r \<Rightarrow> 'k"
  by unfold_locales simp

lemmas site_wf = site_table.wf_upd site_table.wf_del site_table.wf_ins_new site_table.wf_ins_ignore site_table.wf_upsert

lemma unique_byD: "unique_by f k t \<Longrightarrow> r \<in> set t \<Longrightarrow> s \<in> set t \<Longrightarrow> f r = Some v \<Longrightarrow> f s = Some v \<Longrightarrow> k r = k s"
  unfolding unique_by_def by blast

lemma unique_by_upd:
  assumes u: "unique_by f k t" and g: "\<And>r. f (g r) = f r" "\<And>r. k (g r) = k r"
  shows "unique_by f k (upd_where P g t)"
  unfolding unique_by_def
proof (intro ballI allI impI)
  fix r s v assume "r \<in> set (upd_where P g t)" "s \<in> set (upd_where P g t)" "f r = Some v" "f s = Some v"
  then obtain r0 s0 where "r0 \<in> set t" "s0 \<in> set t" "f r0 = Some v" "f s0 = Some v" "k r = k r0" "k s = k s0"
    unfolding set_upd_where by (auto simp: g split: if_splits)
  with unique_byD[OF u] show "k r = k s" by metis
qed

lemma unique_by_clear:
  assumes u: "unique_by f k t" and g: "\<And>r. f (g r) = None" "\<And>r. k (g r) = k r"
  shows "unique_by f k (upd_where P g t)"
  unfolding unique_by_def
proof (intro ballI allI impI)
  fix r s v assume "r \<in> set (upd_where P g t)" "s \<in> set (upd_where P g t)" "f r = Some v" "f s = Some v"
  then have "r \<in> set t" "s \<in> set t" unfolding set_upd_where by (auto simp: g split: if_splits)
  with unique_byD[OF u] \<open>f r = Some v\<close> \<open>f s = Some v\<close> show "k r = k s" by metis
qed

lemma unique_by_set:
  assumes u: "unique_by f k t" and g: "\<And>r. f (g r) = Some w" "\<And>r. k (g r) = k r" and P: "\<And>r. P r \<Longrightarrow> k r = x"
    and free: "\<And>r. r \<in> set t \<Longrightarrow> f r = Some w \<Longrightarrow> k r = x"
  shows "unique_by f k (upd_where P g t)"
  unfolding unique_by_def
proof (intro ballI allI impI)
  fix r s v assume "r \<in> set (upd_where P g t)" "s \<in> set (upd_where P g t)" and v: "f r = Some v" "f s = Some v"
  then obtain r0 s0 where rs: "r0 \<in> set t" "s0 \<in> set t" "r = (if P r0 then g r0 else r0)" "s = (if P s0 then g s0 else s0)"
    unfolding set_upd_where by auto
  show "k r = k s"
  proof (cases "P r0 \<or> P s0")
    case True
    with rs v g have "v = w" by auto
    with rs v g P free have "k r = x" "k s = x" by (auto split: if_splits)
    then show ?thesis by simp
  next
    case False
    with rs v unique_byD[OF u rs(1,2)] show ?thesis by simp
  qed
qed

lemma unique_by_new:
  assumes u: "unique_by f k t" and r: "\<And>v s. f r = Some v \<Longrightarrow> s \<in> set t \<Longrightarrow> f s \<noteq> Some v"
  shows "unique_by f k (t @ [r])"
  unfolding unique_by_def
proof (intro ballI allI impI)
  fix a b v assume "a \<in> set (t @ [r])" "b \<in> set (t @ [r])" "f a = Some v" "f b = Some v"
  then show "k a = k b" using unique_byD[OF u, of a b v] r[of v a] r[of v b] by auto
qed

section \<open>Every command keeps them\<close>

lemma keeps_site: "(\<And>db. site_ok db \<Longrightarrow> okE site_ok (fn db)) \<Longrightarrow> keeps site_ok (nilTx fn)"
  by (simp add: keeps_nilTx)

lemma site_okI: "accounts_ok d \<Longrightarrow> names_ok d \<Longrightarrow> map_ok d \<Longrightarrow> site_ok d"
  by (simp add: site_ok_def)

lemma site_okD: "site_ok d \<Longrightarrow> accounts_ok d" "site_ok d \<Longrightarrow> names_ok d" "site_ok d \<Longrightarrow> map_ok d"
  by (simp_all add: site_ok_def)

text \<open>Changing the tables of one part leaves the others as they were.\<close>

lemma only_accounts:
  assumes "site_ok d" "accounts_ok (d\<lparr>users := u, sessions := s, login_tokens := l, bounces := b\<rparr>)"
  shows "site_ok (d\<lparr>users := u, sessions := s, login_tokens := l, bounces := b\<rparr>)"
  using assms by (simp add: site_ok_def names_ok_def map_ok_def)

lemma start_session_ok:
  assumes "accounts_ok d" "start_session s d = Inr d'"
  shows "accounts_ok d' \<and> names_ok d' = names_ok d \<and> map_ok d' = map_ok d"
proof -
  obtain t u where "ins_new ses_token s (sessions d) = Inr t" "d' = d\<lparr>sessions := t\<rparr>" "get_user d (ses_user s) = Some u"
    using assms(2) by (auto simp: start_session_def bind_iffs split: if_splits)
  moreover have "ses_user s \<in> user_id ` set (users d)"
    using \<open>get_user d (ses_user s) = Some u\<close> find_Some_mem[of "\<lambda>u. user_id u = ses_user s" "users d" u]
    by (auto simp: get_user_def intro: rev_image_eqI)
  ultimately show ?thesis using assms(1) by (auto simp: accounts_ok_def names_ok_def map_ok_def ins_new_Inr has_key_iff)
qed

lemma distinct_upd: "(\<And>r. k (f r) = k r) \<Longrightarrow> distinct (map k (upd_where P f t)) = distinct (map k t)"
  by (simp add: map_upd_where)

lemma distinct_del: "distinct (map k t) \<Longrightarrow> distinct (map k (del_where P t))"
  by (auto simp: del_where_def distinct_map intro: inj_on_subset)

lemma image_upd: "(\<And>r. k (f r) = k r) \<Longrightarrow> k ` set (upd_where P f t) = k ` set t"
  by (metis list.set_map map_upd_where)

lemma CreateLogin_site: "keeps site_ok (apply_CreateLogin c)"
  unfolding apply_CreateLogin_def
  by (rule keeps_site) (auto simp: okE_iff bind_iffs ins_new_Inr has_key_iff site_ok_def accounts_ok_def names_ok_def map_ok_def)

lemma FailLoginCode_site: "keeps site_ok (apply_FailLoginCode c)"
  unfolding apply_FailLoginCode_def
  by (rule keeps_site) (simp add: site_ok_def accounts_ok_def names_ok_def map_ok_def distinct_upd)

lemma EndSession_site: "keeps site_ok (apply_EndSession c)"
  unfolding apply_EndSession_def
  by (rule keeps_site) (simp add: site_ok_def accounts_ok_def names_ok_def map_ok_def distinct_del)

lemma StartBounce_site: "keeps site_ok (apply_StartBounce c)"
  unfolding apply_StartBounce_def
  by (rule keeps_site) (auto simp: okE_iff bind_iffs ins_new_Inr has_key_iff site_ok_def accounts_ok_def names_ok_def map_ok_def distinct_del)

lemma PutCert_site: "keeps site_ok (apply_PutCert c)"
  unfolding apply_PutCert_def
  by (rule keeps_site) (auto simp: upsert_def has_key_iff site_ok_def accounts_ok_def names_ok_def map_ok_def distinct_upd)

lemma DeleteCert_site: "keeps site_ok (apply_DeleteCert c)"
  unfolding apply_DeleteCert_def
  by (rule keeps_site) (simp add: site_ok_def accounts_ok_def names_ok_def map_ok_def distinct_del)

lemma OutboxDone_site: "keeps site_ok (apply_OutboxDone_site c)"
  unfolding apply_OutboxDone_site_def
  by (rule keeps_site) (simp add: site_ok_def accounts_ok_def names_ok_def map_ok_def)

lemma QueueFAQ_site: "keeps site_ok (apply_QueueFAQ c)"
  unfolding apply_QueueFAQ_def by (rule keeps_site) (simp add: site_ok_sends)

text \<open>An update of the accounts that touches neither their ids, addresses nor handles.\<close>

lemma users_upd_ok:
  assumes "accounts_ok d" "\<And>u. user_id (g u) = user_id u" "\<And>u. user_email (g u) = user_email u" "\<And>u. user_handle (g u) = user_handle u"
  shows "accounts_ok (d\<lparr>users := upd_where P g (users d)\<rparr>)"
  using assms by (simp add: accounts_ok_def distinct_upd image_upd unique_by_upd)

lemma other_parts:
  "names_ok (d\<lparr>users := u\<rparr>) = names_ok d" "map_ok (d\<lparr>users := u\<rparr>) = map_ok d"
  "names_ok (d\<lparr>login_tokens := l\<rparr>) = names_ok d" "map_ok (d\<lparr>login_tokens := l\<rparr>) = map_ok d"
  "names_ok (d\<lparr>bounces := b\<rparr>) = names_ok d" "map_ok (d\<lparr>bounces := b\<rparr>) = map_ok d"
  "names_ok (d\<lparr>sessions := se\<rparr>) = names_ok d" "map_ok (d\<lparr>sessions := se\<rparr>) = map_ok d"
  "accounts_ok (d\<lparr>domains := dm\<rparr>) = accounts_ok d" "map_ok (d\<lparr>domains := dm\<rparr>) = map_ok d"
  "accounts_ok (d\<lparr>host_aliases := al\<rparr>) = accounts_ok d" "map_ok (d\<lparr>host_aliases := al\<rparr>) = map_ok d"
  "accounts_ok (d\<lparr>site_groups := gs\<rparr>) = accounts_ok d"
  "accounts_ok (d\<lparr>group_hosts := hs\<rparr>) = accounts_ok d" "names_ok (d\<lparr>group_hosts := hs\<rparr>) = names_ok d"
  "accounts_ok (d\<lparr>node_rows := ns\<rparr>) = accounts_ok d" "names_ok (d\<lparr>node_rows := ns\<rparr>) = names_ok d"
  "accounts_ok (d\<lparr>group_pairs := ps\<rparr>) = accounts_ok d" "names_ok (d\<lparr>group_pairs := ps\<rparr>) = names_ok d"
  by (simp_all add: accounts_ok_def names_ok_def map_ok_def)

lemma sign_in_ok:
  assumes "accounts_ok d" "sign_in_account c email d = Inr (u, d')"
  shows "accounts_ok d' \<and> names_ok d' = names_ok d \<and> map_ok d' = map_ok d"
proof (cases "find (\<lambda>u. user_email u = Some email) (users d)")
  case None
  with assms(2) obtain t where "ins_new user_id
      \<lparr>user_id = rdm_NewUserID c, user_handle = None, user_email = Some email, user_phone = None, user_photo_key = None,
       user_bio = None, user_created = rdm_At c, user_is_operator = rdm_Operator c, user_suspended_until = 0,
       user_notify_email = False, user_digest = ''off'', user_deleted_at = None, user_purge_after = None\<rparr> (users d) = Inr t"
    "d' = d\<lparr>users := t\<rparr>" by (auto simp: sign_in_account_def bind_iffs)
  with assms(1) None show ?thesis
    by (auto simp: accounts_ok_def ins_new_Inr has_key_iff find_None_mem other_parts intro!: unique_by_new)
next
  case (Some x)
  with assms(2) have "d' = d\<lparr>users := upd_where (\<lambda>y. user_id y = user_id x)
      (\<lambda>y. y\<lparr>user_deleted_at := None, user_purge_after := None, user_is_operator := user_is_operator y \<or> rdm_Operator c\<rparr>) (users d)\<rparr>"
    by (auto simp: sign_in_account_def)
  with users_upd_ok[OF assms(1)] show ?thesis by (simp add: other_parts)
qed

lemma RedeemLogin_site: "keeps site_ok (apply_RedeemLogin c)"
proof (rule keepsI)
  fix db assume "site_ok db"
  let ?d = "db\<lparr>login_tokens := upd_where (\<lambda>x. lt_token x = rdm_TokenHash c) (\<lambda>x. x\<lparr>lt_used := Some (rdm_At c)\<rparr>) (login_tokens db)\<rparr>"
  have d: "accounts_ok ?d" "names_ok ?d" "map_ok ?d"
    using \<open>site_ok db\<close> by (simp_all add: site_ok_def other_parts) (simp add: accounts_ok_def distinct_upd)
  have "site_ok d3" if "sign_in_account c e ?d = Inr (u, d2)" "start_session s d2 = Inr d3" for e u d2 s d3
    using sign_in_ok[OF d(1) that(1)] start_session_ok[OF _ that(2)] d by (simp add: site_ok_def)
  then show "okE (\<lambda>(v, db'). site_ok db') (run_plan (apply_RedeemLogin c) db)"
    by (auto simp: apply_RedeemLogin_def okE_iff bind_iffs failIf_Inr_iff Let_def split: option.splits)
qed

lemma FinishBounce_site: "keeps site_ok (apply_FinishBounce c)"
proof (rule keepsI)
  fix db assume "site_ok db"
  let ?d = "db\<lparr>bounces := del_where (\<lambda>x. bo_code x = fnb_CodeHash c) (bounces db)\<rparr>"
  have d: "accounts_ok ?d" "names_ok ?d" "map_ok ?d"
    using \<open>site_ok db\<close> by (simp_all add: site_ok_def other_parts) (simp add: accounts_ok_def distinct_del)
  have "site_ok d3" if "start_session s ?d = Inr d3" for s d3
    using start_session_ok[OF d(1) that] d by (simp add: site_ok_def)
  then show "okE (\<lambda>(v, db'). site_ok db') (run_plan (apply_FinishBounce c) db)"
    by (auto simp: apply_FinishBounce_def okE_iff bind_iffs split: option.splits)
qed

lemma SetHandle_site: "keeps site_ok (apply_SetHandle c)"
proof -
  have "accounts_ok (db\<lparr>users := upd_where (\<lambda>u. user_id u = sh_UserID c \<and> user_deleted_at u = None)
      (\<lambda>u. u\<lparr>user_handle := Some (sh_Handle c)\<rparr>) (users db)\<rparr>)"
    if ok: "accounts_ok db" and free: "affected (\<lambda>u. user_handle u = Some (sh_Handle c) \<and> user_id u \<noteq> sh_UserID c) (users db) = 0" for db
  proof -
    have "unique_by user_handle user_id (upd_where (\<lambda>u. user_id u = sh_UserID c \<and> user_deleted_at u = None)
        (\<lambda>u. u\<lparr>user_handle := Some (sh_Handle c)\<rparr>) (users db))"
      by (rule unique_by_set[where w = "sh_Handle c" and x = "sh_UserID c"])
        (use ok free in \<open>auto simp: accounts_ok_def affected_0_iff\<close>)
    with ok show ?thesis by (simp add: accounts_ok_def distinct_upd image_upd unique_by_upd)
  qed
  then show ?thesis
    by (auto simp: apply_SetHandle_def keeps_nilTx okE_iff failIf_Inr_iff Let_def site_ok_def other_parts split: option.splits)
qed

lemma SuspendUser_site: "keeps site_ok (apply_SuspendUser c)"
proof -
  have ended: "accounts_ok (d\<lparr>users := u, sessions := del_where P (sessions d)\<rparr>)" if "accounts_ok (d\<lparr>users := u\<rparr>)" for P u d
    using that by (auto simp: accounts_ok_def distinct_del)
  have "accounts_ok (d\<lparr>users := upd_where P (\<lambda>u. u\<lparr>user_suspended_until := t\<rparr>) (users d)\<rparr>)" if "accounts_ok d" for P t d
    by (rule users_upd_ok[OF that]) simp_all
  with ended show ?thesis unfolding apply_SuspendUser_def
    by (simp add: keeps_nilTx okE_iff failIf_Inr_iff Let_def site_ok_def other_parts)
qed

lemma SetNotifyPrefs_site: "keeps site_ok (apply_SetNotifyPrefs c)"
  unfolding apply_SetNotifyPrefs_def by (auto simp: keeps_nilTx site_ok_def other_parts intro!: users_upd_ok)

lemma SetProfile_site: "keeps site_ok (apply_SetProfile c)"
proof -
  have "accounts_ok (d\<lparr>users := upd_where Q h (upd_where P g (users d))\<rparr>)"
    if "accounts_ok d" "\<And>u. user_id (g u) = user_id u" "\<And>u. user_email (g u) = user_email u" "\<And>u. user_handle (g u) = user_handle u"
      "\<And>u. user_id (h u) = user_id u" "\<And>u. user_email (h u) = user_email u" "\<And>u. user_handle (h u) = user_handle u" for d P Q g h
    using users_upd_ok[OF users_upd_ok[OF that(1-4), of P] that(5-7), of Q] by simp
  then show ?thesis unfolding apply_SetProfile_def
    by (simp add: keeps_nilTx Let_def site_ok_def other_parts users_upd_ok)
qed

lemma Purge_site: "keeps site_ok (apply_Purge c)"
proof -
  have "accounts_ok (purge_accounts t d)" if "accounts_ok d" for t d
    using that by (auto simp: accounts_ok_def purge_accounts_def distinct_del distinct_upd image_upd unique_by_clear)
  moreover have "names_ok (purge_accounts t d) = names_ok d" "map_ok (purge_accounts t d) = map_ok d" for t d
    by (simp_all add: purge_accounts_def names_ok_def map_ok_def)
  ultimately show ?thesis by (simp add: apply_Purge_def keeps_nilTx Let_def site_ok_sends) (simp add: site_ok_def)
qed

subsection \<open>Domains, groups and hosts\<close>

lemma SetPrimaryDomain_site: "keeps site_ok (apply_SetPrimaryDomain c)"
proof -
  let ?d = "spd_Domain c"
  have "names_ok (db\<lparr>domains := upsert dm_name \<lparr>dm_name = ?d, dm_role = PrimaryDomain, dm_created = spd_At c\<rparr>
      (\<lambda>d. d\<lparr>dm_role := PrimaryDomain\<rparr>)
      (upd_where (\<lambda>d. dm_role d = PrimaryDomain \<and> dm_name d \<noteq> ?d) (\<lambda>d. d\<lparr>dm_role := AlternateDomain\<rparr>) (domains db))\<rparr>)"
    (is "names_ok (db\<lparr>domains := ?t\<rparr>)") if ok: "names_ok db" for db
  proof -
    have "distinct (map dm_name ?t)"
      using ok by (intro site_table.wf_upsert[unfolded site_table.wf_def]) (simp_all add: names_ok_def distinct_upd)
    moreover have "dm_name r = ?d" if "r \<in> set ?t" "dm_role r = PrimaryDomain" for r
      using that by (auto simp: upsert_def set_upd_where split: if_splits)
    ultimately have "a = b" if "a \<in> set ?t" "b \<in> set ?t" "dm_role a = PrimaryDomain" "dm_role b = PrimaryDomain" for a b
      using that inj_onD[of dm_name "set ?t" a b] by (simp add: distinct_map)
    with \<open>distinct (map dm_name ?t)\<close> ok show ?thesis unfolding names_ok_def by simp
  qed
  then show ?thesis
    by (auto simp: apply_SetPrimaryDomain_def keeps_nilTx site_ok_def other_parts Let_def split: option.splits)
qed

lemma AddAlternateDomain_site: "keeps site_ok (apply_AddAlternateDomain c)"
  by (auto simp: apply_AddAlternateDomain_def keeps_nilTx okE_iff site_ok_def other_parts names_ok_def ins_ignore_def has_key_iff
      split: option.splits if_splits)

lemma AddHostAlias_site: "keeps site_ok (apply_AddHostAlias c)"
  by (auto simp: apply_AddHostAlias_def keeps_nilTx okE_iff bind_iffs failIf_Inr_iff site_ok_def other_parts names_ok_def ins_new_Inr has_key_iff
      split: option.splits if_splits)

lemma group_ids_map_ok: "map grp_id gs = map grp_id (site_groups d) \<Longrightarrow> map_ok (d\<lparr>site_groups := gs\<rparr>) = map_ok d"
  by (rule map_ok_cong) simp_all

lemma SetGroupHost_site: "keeps site_ok (apply_SetGroupHost lower c)"
proof -
  let ?g = "sgh_GroupID c" and ?h = "lower (TrimSpace (sgh_Host c))"
  have "names_ok (db\<lparr>site_groups := upd_where (\<lambda>x. grp_id x = ?g) (\<lambda>x. x\<lparr>grp_main_host := (if ?h = [] then None else Some ?h)\<rparr>)
      (site_groups db)\<rparr>)"
    if ok: "names_ok db" and free: "?h = [] \<or> host_in_use ?h ?g db = 0" for db
  proof -
    have "unique_by grp_main_host grp_id (upd_where (\<lambda>x. grp_id x = ?g)
        (\<lambda>x. x\<lparr>grp_main_host := (if ?h = [] then None else Some ?h)\<rparr>) (site_groups db))"
    proof (cases "?h = []")
      case True
      with ok show ?thesis by (simp add: names_ok_def unique_by_clear)
    next
      case False
      show ?thesis
        by (rule unique_by_set[where w = "?h" and x = "?g"])
          (use ok free False in \<open>auto simp: names_ok_def host_in_use_def affected_0_iff\<close>)
    qed
    with ok show ?thesis by (simp add: names_ok_def distinct_upd)
  qed
  then show ?thesis
    by (auto simp: apply_SetGroupHost_def keeps_nilTx okE_iff failIf_Inr_iff site_ok_def other_parts Let_def group_ids_map_ok map_upd_where
        split: option.splits)
qed

lemma MirrorGroup_site: "keeps site_ok (apply_MirrorGroup c)"
proof -
  have "names_ok (db\<lparr>site_groups := upd_where P (\<lambda>g. g\<lparr>grp_name := n, grp_visibility := v, grp_ai := a\<rparr>) (site_groups db)\<rparr>)"
    if "names_ok db" for db P n v a
    using that by (simp add: names_ok_def distinct_upd unique_by_upd)
  then show ?thesis
    by (simp add: apply_MirrorGroup_def keeps_nilTx site_ok_def other_parts group_ids_map_ok map_upd_where)
qed

end
