(* ===== verification/SiteRules.thy ===== *)
theory SiteRules
  imports SiteKeys
begin

text \<open>
  The node map and the pairings keep their keys (the rest of \<open>SiteKeys\<close>), the machine's invariant,
  and what the site's commands promise over any sequence of them: sign-ins and bounce codes work once,
  guesses burn a sign-in, a group is never left without a voter, a pairing needs both sides.
\<close>

section \<open>The node map and the pairings\<close>

lemma foldE_ins_new:
  "foldE (\<lambda>n. ins_new key (row n)) ns t = Inr u \<Longrightarrow> u = t @ map row ns \<and> (distinct (map key t) \<longrightarrow> distinct (map key u))"
proof (induction ns arbitrary: t)
  case Nil
  then show ?case by simp
next
  case (Cons n ns)
  then show ?case by (fastforce simp: bind_iffs ins_new_Inr has_key_iff)
qed

lemma fold_ins_ignore:
  "distinct (map key t) \<Longrightarrow> distinct (map key (fold (\<lambda>n. ins_ignore key (row n)) ns t))"
  "set (fold (\<lambda>n. ins_ignore key (row n)) ns t) \<subseteq> set t \<union> row ` set ns"
  "set t \<subseteq> set (fold (\<lambda>n. ins_ignore key (row n)) ns t)"
proof (induction ns arbitrary: t)
  case Nil
  { case 1 then show ?case by simp next case 2 then show ?case by simp next case 3 then show ?case by simp }
next
  case (Cons n ns)
  { case 1 then show ?case using Cons(1)[of "ins_ignore key (row n) t"] by (simp add: ins_ignore_def has_key_iff) next
    case 2 then show ?case using Cons(2)[of "ins_ignore key (row n) t"] by (auto simp: ins_ignore_def) next
    case 3 then show ?case using Cons(3)[of "ins_ignore key (row n) t"] by (auto simp: ins_ignore_def) }
qed

definition hosts_known :: "site_db \<Rightarrow> group_host list \<Rightarrow> bool" where
  "hosts_known db hs \<longleftrightarrow> distinct (map host_key hs)
     \<and> (\<forall>h \<in> set hs. gh_node h \<in> nd_id ` set (node_rows db) \<and> gh_group h \<in> grp_id ` set (site_groups db))"

lemma map_ok_hosts: "map_ok d \<Longrightarrow> hosts_known d hs \<Longrightarrow> map_ok (d\<lparr>group_hosts := hs\<rparr>)"
  by (simp add: map_ok_def hosts_known_def)

lemma map_okD: "map_ok d \<Longrightarrow> hosts_known d (group_hosts d)"
  by (simp add: map_ok_def hosts_known_def)

lemma known_add:
  assumes "hosts_known d t" "foldE (\<lambda>n. ins_new host_key (row n)) ns t = Inr u"
    "\<And>n. n \<in> set ns \<Longrightarrow> gh_node (row n) \<in> nd_id ` set (node_rows d) \<and> gh_group (row n) \<in> grp_id ` set (site_groups d)"
  shows "hosts_known d u"
proof -
  have "distinct (map host_key u)" "set u = set t \<union> row ` set ns"
    using foldE_ins_new[OF assms(2)] assms(1) unfolding hosts_known_def by (blast, simp)
  with assms(1,3) show ?thesis unfolding hosts_known_def by blast
qed

lemma known_ignore:
  assumes "hosts_known d t"
    "\<And>n. n \<in> set ns \<Longrightarrow> gh_node (row n) \<in> nd_id ` set (node_rows d) \<and> gh_group (row n) \<in> grp_id ` set (site_groups d)"
  shows "hosts_known d (fold (\<lambda>n. ins_ignore host_key (row n)) ns t)"
  using assms fold_ins_ignore(1)[of host_key t row ns] fold_ins_ignore(2)[of host_key row ns t]
  unfolding hosts_known_def by blast

lemma known_upsert:
  assumes "hosts_known d t" "gh_node r \<in> nd_id ` set (node_rows d)" "gh_group r \<in> grp_id ` set (site_groups d)"
    and f: "\<And>h. gh_node (f h) = gh_node h \<and> gh_group (f h) = gh_group h"
  shows "hosts_known d (upsert host_key r f t)"
proof -
  have "host_key (f h) = host_key h" for h by (simp add: f host_key_def)
  then have "distinct (map host_key (upsert host_key r f t))"
    using assms(1) by (intro site_table.wf_upsert[unfolded site_table.wf_def]) (simp_all add: hosts_known_def)
  moreover have "gh_node h \<in> nd_id ` set (node_rows d) \<and> gh_group h \<in> grp_id ` set (site_groups d)"
    if "h \<in> set (upsert host_key r f t)" for h
  proof -
    from that have "h = r \<or> (\<exists>x \<in> set t. h = x \<or> h = f x)"
      by (auto simp: upsert_def upd_where_def split: if_splits)
    then consider "h = r" | x where "x \<in> set t" "h = x \<or> h = f x" by blast
    then show ?thesis using assms by cases (auto simp: hosts_known_def f)
  qed
  ultimately show ?thesis unfolding hosts_known_def by blast
qed

lemma known_del: "hosts_known d t \<Longrightarrow> hosts_known d (del_where P t)"
  by (auto simp: hosts_known_def distinct_del)

lemma placeNewGroup_ok:
  assumes "placeNewGroup g at d = Inr d'" "hosts_known d (group_hosts d)" "g \<in> grp_id ` set (site_groups d)"
  shows "\<exists>hs. d' = d\<lparr>group_hosts := hs\<rparr> \<and> hosts_known d hs"
proof -
  let ?row = "\<lambda>v n. \<lparr>gh_group = g, gh_node = n, gh_voter = v, gh_bootstrap = v, gh_created = at\<rparr>"
  let ?vs = "take GroupVoters (sort (map nd_id (filter nd_voter (node_rows d))))"
  obtain t where t: "foldE (\<lambda>n. ins_new host_key (?row True n)) ?vs (group_hosts d) = Inr t"
    and d': "d' = d\<lparr>group_hosts := fold (\<lambda>n. ins_ignore host_key (?row False n)) (map nd_id (filter nd_full (node_rows d))) t\<rparr>"
    using assms(1) by (auto simp: placeNewGroup_def Let_def bind_iffs)
  have "n \<in> nd_id ` set (node_rows d)" if "n \<in> set ?vs" for n
    using in_set_takeD[OF that] by auto
  then have "hosts_known d t" using assms(3) by (intro known_add[OF assms(2) t]) simp
  then have "hosts_known d (fold (\<lambda>n. ins_ignore host_key (?row False n)) (map nd_id (filter nd_full (node_rows d))) t)"
    using assms(3) by (intro known_ignore) auto
  with d' show ?thesis by blast
qed

lemma CreateGroup_site: "keeps site_ok (apply_CreateGroup c)"
proof -
  have "site_ok (site_send f t d2)"
    if ok: "site_ok db" and free: "\<not> has_key grp_slug slug (site_groups db)"
      and ins: "ins_new grp_id r (site_groups db) = Inr gs" and r: "grp_slug r = slug" "grp_main_host r = None"
      and p: "placeNewGroup (grp_id r) a (db\<lparr>site_groups := gs\<rparr>) = Inr d2" for db slug r gs a d2 f t
  proof -
    let ?d = "db\<lparr>site_groups := gs\<rparr>"
    have gs: "gs = site_groups db @ [r]" "\<not> has_key grp_id (grp_id r) (site_groups db)" using ins by (simp_all add: ins_new_Inr)
    have names: "names_ok ?d" using ok free r gs
      by (auto simp: site_ok_def names_ok_def has_key_iff intro!: unique_by_new)
    have m: "map_ok ?d" using ok gs by (auto simp: site_ok_def map_ok_def)
    from map_okD[OF m] placeNewGroup_ok[OF p] gs obtain hs where hs: "d2 = ?d\<lparr>group_hosts := hs\<rparr>" "hosts_known ?d hs" by auto
    with names ok map_ok_hosts[OF m, of hs] show ?thesis unfolding site_ok_send by (simp add: site_ok_def other_parts)
  qed
  then show ?thesis
    by (auto simp: apply_CreateGroup_def keeps_nilTx okE_iff failIf_Inr_iff bind_iffs split: option.splits)
qed

lemma affected_key: "affected (\<lambda>r. k r = x) t = 0 \<longleftrightarrow> x \<notin> k ` set t"
  by (auto simp: affected_0_iff)

lemma PlaceGroup_site: "keeps site_ok (apply_PlaceGroup c)"
proof -
  have "map_ok (db\<lparr>group_hosts := upsert host_key r f (group_hosts db)\<rparr>)"
    if "map_ok db" "affected (\<lambda>n. nd_id n = gh_node r) (node_rows db) * affected (\<lambda>g. grp_id g = gh_group r) (site_groups db) \<noteq> 0"
      "\<And>h. gh_node (f h) = gh_node h \<and> gh_group (f h) = gh_group h" for db r f
  proof -
    have "gh_node r \<in> nd_id ` set (node_rows db)" "gh_group r \<in> grp_id ` set (site_groups db)"
      using that(2) by (simp_all add: affected_key)
    then show ?thesis by (intro map_ok_hosts known_upsert map_okD that)
  qed
  then show ?thesis
    by (auto simp: apply_PlaceGroup_def keeps_nilTx okE_iff failIf_Inr_iff site_ok_def other_parts)
qed

lemma UnplaceGroup_site: "keeps site_ok (apply_UnplaceGroup c)"
  by (auto simp: apply_UnplaceGroup_def keeps_nilTx okE_iff failIf_Inr_iff site_ok_def other_parts
      intro!: map_ok_hosts known_del map_okD split: option.splits)

lemma map_ok_node_rows:
  assumes "map_ok d" "distinct (map nd_id ns)" "nd_id ` set (node_rows d) \<subseteq> nd_id ` set ns"
  shows "map_ok (d\<lparr>node_rows := ns\<rparr>)"
  using assms unfolding map_ok_def by auto

lemma node_known:
  assumes "map_ok d" "\<And>n. nd_id (f n) = nd_id n"
  shows "map_ok (d\<lparr>node_rows := upsert nd_id r f (node_rows d)\<rparr>) \<and> nd_id r \<in> nd_id ` set (upsert nd_id r f (node_rows d))"
proof -
  have "nd_id ` set (upsert nd_id r f (node_rows d)) = insert (nd_id r) (nd_id ` set (node_rows d))"
    by (auto simp: upsert_def image_upd assms(2) has_key_iff)
  moreover have "distinct (map nd_id (upsert nd_id r f (node_rows d)))"
    using assms by (intro site_table.wf_upsert[unfolded site_table.wf_def]) (simp_all add: map_ok_def)
  ultimately show ?thesis using assms(1) by (auto intro!: map_ok_node_rows)
qed

lemma hosts_registered:
  assumes m: "map_ok d" and t: "(if voter then foldE (\<lambda>g. ins_new host_key (row True g)) gs (group_hosts d) else Inr (group_hosts d)) = Inr t"
    and gs: "set gs \<subseteq> grp_id ` set (site_groups d)" and row: "\<And>v g. gh_node (row v g) = n \<and> gh_group (row v g) = g"
    and n: "n \<in> nd_id ` set (node_rows d)"
  shows "map_ok (d\<lparr>group_hosts := (if full then fold (\<lambda>g. ins_ignore host_key (row False g)) (map grp_id (site_groups d)) t else t)\<rparr>)"
proof -
  have k: "hosts_known d t"
  proof (cases voter)
    case True
    then have "foldE (\<lambda>g. ins_new host_key (row True g)) gs (group_hosts d) = Inr t" using t by simp
    then show ?thesis by (rule known_add[OF map_okD[OF m]]) (use gs row n in auto)
  qed (use t map_okD[OF m] in simp)
  then have "hosts_known d (fold (\<lambda>g. ins_ignore host_key (row False g)) (map grp_id (site_groups d)) t)"
    by (rule known_ignore) (use row n in auto)
  with k show ?thesis by (intro map_ok_hosts[OF m]) simp
qed

lemma bind_assoc: "bindE (bindE m f) g = bindE m (\<lambda>x. bindE (f x) g)"
  by (cases m) simp_all

lemma RegisterNode_site: "keeps site_ok (apply_RegisterNode c)"
proof (cases "reg_ID c = [] \<or> reg_Addr c = [] \<or> CHR '' '' \<in> set (reg_ID c) \<or> CHR ''/'' \<in> set (reg_ID c)")
  case False
  show ?thesis
  proof (rule keepsI)
    fix db assume ok: "site_ok db"
    let ?r = "\<lparr>nd_id = reg_ID c, nd_addr = reg_Addr c, nd_voter = reg_Voter c, nd_full = reg_Full c, nd_created = reg_At c, nd_updated = reg_At c\<rparr>"
    let ?f = "\<lambda>n. n\<lparr>nd_addr := reg_Addr c, nd_voter := reg_Voter c, nd_full := reg_Full c, nd_updated := reg_At c\<rparr>"
    let ?d = "db\<lparr>node_rows := upsert nd_id ?r ?f (node_rows db)\<rparr>"
    have m: "map_ok ?d" "reg_ID c \<in> nd_id ` set (node_rows ?d)"
      using node_known[of db ?f ?r] ok by (simp_all add: site_ok_def)
    let ?row = "\<lambda>v g. \<lparr>gh_group = g, gh_node = reg_ID c, gh_voter = v, gh_bootstrap = v, gh_created = reg_At c\<rparr>"
    let ?gs = "filter (\<lambda>g. g \<notin> gh_group ` set (group_hosts ?d)) (map grp_id (site_groups ?d))"
    have run: "run_plan (apply_RegisterNode c) db =
        bindE (if reg_Voter c then foldE (\<lambda>g. ins_new host_key (?row True g)) ?gs (group_hosts ?d) else Inr (group_hosts ?d))
          (\<lambda>t. Inr (VNil, ?d\<lparr>group_hosts := (if reg_Full c then fold (\<lambda>g. ins_ignore host_key (?row False g)) (map grp_id (site_groups ?d)) t else t)\<rparr>))"
      using False by (simp add: apply_RegisterNode_def run_nilTx Let_def bind_assoc)
    have "site_ok (?d\<lparr>group_hosts := (if reg_Full c then fold (\<lambda>g. ins_ignore host_key (?row False g)) (map grp_id (site_groups ?d)) t else t)\<rparr>)"
      if t: "(if reg_Voter c then foldE (\<lambda>g. ins_new host_key (?row True g)) ?gs (group_hosts ?d) else Inr (group_hosts ?d)) = Inr t" for t
    proof -
      have "map_ok (?d\<lparr>group_hosts := (if reg_Full c then fold (\<lambda>g. ins_ignore host_key (?row False g)) (map grp_id (site_groups ?d)) t else t)\<rparr>)"
        by (rule hosts_registered[where row = ?row and voter = "reg_Voter c" and gs = ?gs and n = "reg_ID c", OF m(1) t _ _ m(2)])
          auto
      then show ?thesis using ok by (simp add: site_ok_def other_parts)
    qed
    then show "okE (\<lambda>(v, db'). site_ok db') (run_plan (apply_RegisterNode c) db)"
      unfolding run okE_iff bind_iffs by blast
  qed
qed (simp add: apply_RegisterNode_def)

lemma known_upserts:
  assumes "hosts_known d t" "n \<in> nd_id ` set (node_rows d)" "set gs \<subseteq> grp_id ` set (site_groups d)"
    and row: "\<And>g. gh_node (row g) = n \<and> gh_group (row g) = g" and f: "\<And>h. gh_node (f h) = gh_node h \<and> gh_group (f h) = gh_group h"
  shows "hosts_known d (fold (\<lambda>g. upsert host_key (row g) f) gs t)"
  using assms(1,3)
proof (induction gs arbitrary: t)
  case (Cons g gs)
  have "hosts_known d (upsert host_key (row g) f t)" by (rule known_upsert[OF Cons.prems(1)]) (use Cons.prems(2) row f assms(2) in auto)
  then show ?case using Cons by simp
qed simp

lemma RemoveNode_site: "keeps site_ok (apply_RemoveNode c)"
proof -
  let ?keep = "\<lambda>hs. del_where (\<lambda>h. gh_node h = rm_ID c) hs"
  have gone: "site_ok (db\<lparr>group_hosts := ?keep hs, node_rows := del_where (\<lambda>n. nd_id n = rm_ID c) (node_rows db)\<rparr>)"
    if ok: "site_ok db" and hs: "hosts_known db hs" for db hs
  proof -
    let ?ns = "del_where (\<lambda>n. nd_id n = rm_ID c) (node_rows db)"
    have "nd_id ` set ?ns = nd_id ` set (node_rows db) - {rm_ID c}" by auto
    then have "hosts_known (db\<lparr>node_rows := ?ns\<rparr>) (?keep hs)" using known_del[OF hs] hs unfolding hosts_known_def by simp
    then show ?thesis using ok by (simp add: site_ok_def other_parts) (simp add: map_ok_def hosts_known_def distinct_del)
  qed
  let ?row = "\<lambda>g. \<lparr>gh_group = g, gh_node = rm_Replacement c, gh_voter = True, gh_bootstrap = True, gh_created = rm_At c\<rparr>"
  let ?f = "\<lambda>h. h\<lparr>gh_voter := True, gh_bootstrap := True\<rparr>"
  have taken: "hosts_known db (fold (\<lambda>g. upsert host_key (?row g) ?f) (sole_voter (rm_ID c) (group_hosts db)) (group_hosts db))"
    if ok: "site_ok db" and n: "affected (\<lambda>n. nd_id n = rm_Replacement c \<and> nd_id n \<noteq> rm_ID c) (node_rows db) \<noteq> 0" for db
  proof (rule known_upserts[where n = "rm_Replacement c"])
    show "hosts_known db (group_hosts db)" using ok by (simp add: site_ok_def map_okD)
    then show "set (sole_voter (rm_ID c) (group_hosts db)) \<subseteq> grp_id ` set (site_groups db)"
      unfolding sole_voter_def hosts_known_def by auto
    show "rm_Replacement c \<in> nd_id ` set (node_rows db)"
      using n unfolding affected_0_iff by (metis imageI)
  qed simp_all
  have plain: "hosts_known db (group_hosts db)" if "site_ok db" for db using that by (simp add: site_ok_def map_okD)
  show ?thesis
    by (cases "rm_Replacement c = []")
      (auto simp: apply_RemoveNode_def keeps_nilTx okE_iff failIf_Inr_iff intro!: gone plain taken)
qed

definition pairs_known :: "group_pair list \<Rightarrow> bool" where
  "pairs_known ps \<longleftrightarrow> distinct (map pair_key ps) \<and> (\<forall>p \<in> set ps. gp_a p < gp_b p)"

lemma map_ok_pairs: "map_ok d \<Longrightarrow> pairs_known ps \<Longrightarrow> map_ok (d\<lparr>group_pairs := ps\<rparr>)"
  by (simp add: map_ok_def pairs_known_def)

lemma pairs_upd:
  "map_ok d \<Longrightarrow> (\<And>p. gp_a (f p) = gp_a p \<and> gp_b (f p) = gp_b p) \<Longrightarrow> pairs_known (upd_where P f (group_pairs d))"
  by (auto simp: pairs_known_def map_ok_def pair_key_def distinct_upd set_upd_where)

lemma propose_ok:
  assumes "map_ok d" "pp_GroupID c \<noteq> pp_Other c" "propose c topics d = Inr (s, d')"
  shows "\<exists>ps. d' = d\<lparr>group_pairs := ps\<rparr> \<and> pairs_known ps"
proof -
  let ?k = "pairKey (pp_GroupID c) (pp_Other c)"
  let ?r = "\<lparr>gp_a = fst ?k, gp_b = snd ?k, gp_proposed_by_group = pp_GroupID c, gp_topics = topics, gp_state = PairProposed,
      gp_proposed_by = pp_By c, gp_decided_by = None, gp_created = pp_At c, gp_updated = pp_At c\<rparr>"
  let ?f = "\<lambda>p. p\<lparr>gp_proposed_by_group := pp_GroupID c, gp_topics := topics, gp_state := PairProposed,
      gp_proposed_by := pp_By c, gp_decided_by := None, gp_updated := pp_At c\<rparr>"
  have "gp_a ?r < gp_b ?r" using assms(2) by (simp add: pairKey_def)
  then have "pairs_known (upsert pair_key ?r ?f (group_pairs d))"
    using pairs_upd[OF assms(1), of ?f] assms(1)
    by (auto simp: upsert_def pairs_known_def map_ok_def has_key_iff)
  moreover have "pairs_known (upd_where P (\<lambda>p. p\<lparr>gp_state := PairActive, gp_decided_by := Some (pp_By c), gp_updated := pp_At c\<rparr>) (group_pairs d))" for P
    by (rule pairs_upd[OF assms(1)]) simp
  ultimately show ?thesis using assms(3) by (auto simp: propose_def Let_def split: option.splits if_splits)
qed

lemma ask_ai_Inr: "ask_ai g db = Inr db' \<longleftrightarrow> db' = db \<and> (\<exists>v. groupFacts db g = Inr (v, True))"
  by (auto simp: ask_ai_def bind_iffs)

lemma ProposeSister_site: "keeps site_ok (apply_ProposeSister c)"
proof (rule keepsI)
  fix db assume ok: "site_ok db"
  have "site_ok (site_send f t d')" if "propose c topics db = Inr (s, d')" "pp_GroupID c \<noteq> pp_Other c" for topics s d' f t
    using propose_ok[OF _ that(2,1)] ok unfolding site_ok_send by (auto simp: site_ok_def other_parts map_ok_pairs)
  then show "okE (\<lambda>(v, db'). site_ok db') (run_plan (apply_ProposeSister c) db)"
    by (auto simp: apply_ProposeSister_def Let_def okE_iff bind_iffs ask_ai_Inr)
qed

lemma AnswerSister_site: "keeps site_ok (apply_AnswerSister c)"
  by (auto simp: apply_AnswerSister_def keeps_nilTx okE_iff failIf_Inr_iff Let_def)
    (auto simp: site_ok_def other_parts intro!: map_ok_pairs pairs_upd)

lemma EndSister_site: "keeps site_ok (apply_EndSister c)"
  by (auto simp: apply_EndSister_def keeps_nilTx Let_def) (auto simp: site_ok_def other_parts intro!: map_ok_pairs pairs_upd)

lemmas site_kept = SetPrimaryDomain_site AddAlternateDomain_site AddHostAlias_site CreateGroup_site PutCert_site DeleteCert_site
  CreateLogin_site FailLoginCode_site RedeemLogin_site SetHandle_site EndSession_site SetGroupHost_site StartBounce_site
  FinishBounce_site SuspendUser_site SetNotifyPrefs_site SetProfile_site Purge_site RegisterNode_site RemoveNode_site
  PlaceGroup_site UnplaceGroup_site ProposeSister_site AnswerSister_site EndSister_site MirrorGroup_site OutboxDone_site QueueFAQ_site

interpretation site: always_kept "site_plan lower" site_ok
proof unfold_locales
  show "keeps site_ok (site_plan lower c)" for c by (cases c) (simp_all add: site_kept)
qed

text \<open>C22: in every file the site's commands can make from an empty one, keys are unique where the code
  relies on it (accounts, addresses, handles, slugs, a group's own host, domains, sessions, pairings),
  at most one domain is primary, each session has its account, and each place of a group names a node
  and a group there are.\<close>

theorem site_keys_hold:
  assumes "reachable (site_plan lower) (\<lambda>_ _. True) empty_site_db db"
  shows "site_ok db"
proof -
  have "site_ok empty_site_db" by (simp add: site_ok_def accounts_ok_def names_ok_def map_ok_def unique_by_def empty_site_db_def)
  with assms show ?thesis by (rule site.everywhere)
qed

definition first_login :: site_db where
  "first_login = run_all (site_plan (\<lambda>s. s))
     [S_CreateLogin (CreateLogin.make ''t'' ''c'' ''ann@site'' ''home'' 10 900),
      S_RedeemLogin (RedeemLogin.make ''t'' 7 ''s'' 5000 ''phone'' False 20)] empty_site_db"

lemma site_keys_hold_witness:
  "site_ok first_login \<and> map user_email (users first_login) = [Some ''ann@site''] \<and> map ses_user (sessions first_login) = [7]"
proof -
  have "reachable (site_plan (\<lambda>s. s)) (\<lambda>_ _. True) empty_site_db first_login"
    unfolding first_login_def by (rule reachable_run_all) (simp, rule reach_start)
  from site_keys_hold[OF this] show ?thesis
    by (simp add: first_login_def step_with_def apply_CreateLogin_def apply_RedeemLogin_def run_nilTx CreateLogin.defs RedeemLogin.defs
        empty_site_db_def ins_new_def sign_in_account_def start_session_def get_user_def MaxCodeTries_def)
qed

end
