(* ===== verification/SiteLaws.thy ===== *)
theory SiteLaws
  imports SiteRules
begin

text \<open>
  What the site's commands promise over any sequence of them: a sign-in and a bounce code work once,
  wrong guesses burn a sign-in on every node, a group is never left without a voter except by the two
  commands that say so, and a pairing needs both sides.
\<close>

section \<open>A sign-in works once\<close>

text \<open>\<open>guessed h n db\<close>: the sign-in \<open>h\<close> is used, or was guessed at \<open>n\<close> times, or is not there.\<close>

definition guessed :: "string \<Rightarrow> int \<Rightarrow> site_db \<Rightarrow> bool" where
  "guessed h n db \<longleftrightarrow> (\<forall>t \<in> set (login_tokens db). lt_token t = h \<longrightarrow> lt_used t \<noteq> None \<or> lt_tries t \<ge> n)"

text \<open>What the other commands do to the sign-ins: nothing, except that the purge drops some.\<close>

lemma tokens_send [simp]: "login_tokens (fold (\<lambda>g. site_send (f g) t) gs d) = login_tokens d"
  "group_hosts (fold (\<lambda>g. site_send (f g) t) gs d) = group_hosts d"
  "group_pairs (fold (\<lambda>g. site_send (f g) t) gs d) = group_pairs d"
  "bounces (fold (\<lambda>g. site_send (f g) t) gs d) = bounces d"
  "site_groups (fold (\<lambda>g. site_send (f g) t) gs d) = site_groups d"
  by (induction gs arbitrary: d) simp_all

lemma start_session_tables:
  "start_session s d = Inr d' \<Longrightarrow> login_tokens d' = login_tokens d \<and> bounces d' = bounces d \<and> users d' = users d
     \<and> group_hosts d' = group_hosts d \<and> group_pairs d' = group_pairs d \<and> site_groups d' = site_groups d"
  by (auto simp: start_session_def bind_iffs split: if_splits)

lemma sign_in_tables:
  "sign_in_account c e d = Inr (u, d') \<Longrightarrow> login_tokens d' = login_tokens d \<and> bounces d' = bounces d
     \<and> group_hosts d' = group_hosts d \<and> group_pairs d' = group_pairs d \<and> site_groups d' = site_groups d"
  by (auto simp: sign_in_account_def bind_iffs split: option.splits)

lemma RedeemLogin_Inr:
  "run_plan (apply_RedeemLogin c) db = Inr (v, db') \<Longrightarrow>
     \<exists>t. find (\<lambda>t. lt_token t = rdm_TokenHash c) (login_tokens db) = Some t
       \<and> lt_used t = None \<and> lt_expires t > rdm_At c \<and> lt_tries t < MaxCodeTries
       \<and> login_tokens db' = upd_where (\<lambda>x. lt_token x = rdm_TokenHash c) (\<lambda>x. x\<lparr>lt_used := Some (rdm_At c)\<rparr>) (login_tokens db)
       \<and> bounces db' = bounces db \<and> group_hosts db' = group_hosts db \<and> group_pairs db' = group_pairs db
       \<and> site_groups db' = site_groups db"
  by (auto simp: apply_RedeemLogin_def Let_def bind_iffs not_le split: option.splits if_splits
      dest!: sign_in_tables start_session_tables)

lemma FinishBounce_Inr:
  "run_plan (apply_FinishBounce c) db = Inr (v, db') \<Longrightarrow>
     bounces db' = del_where (\<lambda>x. bo_code x = fnb_CodeHash c) (bounces db) \<and> login_tokens db' = login_tokens db
       \<and> group_hosts db' = group_hosts db \<and> group_pairs db' = group_pairs db \<and> site_groups db' = site_groups db
       \<and> (\<exists>b \<in> set (bounces db). bo_code b = fnb_CodeHash c \<and> bo_host b = fnb_Host c \<and> bo_expires b > fnb_At c \<and> v = VInt (bo_user b))"
  by (auto simp: apply_FinishBounce_def bind_iffs split: option.splits dest!: start_session_tables find_Some_mem)

definition makes_login :: "string \<Rightarrow> site_cmd \<Rightarrow> bool" where
  "makes_login h c = (case c of S_CreateLogin x \<Rightarrow> cl_TokenHash x = h | _ \<Rightarrow> False)"

text \<open>The tables these laws read, after a command that is none of theirs.\<close>

lemma placeNewGroup_tables:
  "placeNewGroup g t d = Inr d' \<Longrightarrow> login_tokens d' = login_tokens d \<and> bounces d' = bounces d \<and> group_pairs d' = group_pairs d
     \<and> site_groups d' = site_groups d"
  by (auto simp: placeNewGroup_def Let_def bind_iffs)

lemma propose_tables:
  "propose c t d = Inr (s, d') \<Longrightarrow> login_tokens d' = login_tokens d \<and> bounces d' = bounces d \<and> group_hosts d' = group_hosts d
     \<and> site_groups d' = site_groups d"
  by (auto simp: propose_def Let_def split: option.splits if_splits)

datatype site_part = Tokens | Bounces | Hosts | Pairs | Groups

definition touched :: "site_cmd \<Rightarrow> site_part set" where
  "touched c =
     (case c of S_CreateLogin _ \<Rightarrow> {Tokens} | S_FailLoginCode _ \<Rightarrow> {Tokens} | S_RedeemLogin _ \<Rightarrow> {Tokens} | S_Purge _ \<Rightarrow> {Tokens}
      | S_StartBounce _ \<Rightarrow> {Bounces} | S_FinishBounce _ \<Rightarrow> {Bounces}
      | S_CreateGroup _ \<Rightarrow> {Hosts, Groups} | S_RegisterNode _ \<Rightarrow> {Hosts} | S_RemoveNode _ \<Rightarrow> {Hosts}
      | S_PlaceGroup _ \<Rightarrow> {Hosts} | S_UnplaceGroup _ \<Rightarrow> {Hosts}
      | S_ProposeSister _ \<Rightarrow> {Pairs} | S_AnswerSister _ \<Rightarrow> {Pairs} | S_EndSister _ \<Rightarrow> {Pairs} | _ \<Rightarrow> {})"

definition untouched :: "site_part set \<Rightarrow> site_db \<Rightarrow> site_db \<Rightarrow> bool" where
  "untouched T db db' \<longleftrightarrow>
     (Tokens \<notin> T \<longrightarrow> login_tokens db' = login_tokens db) \<and> (Bounces \<notin> T \<longrightarrow> bounces db' = bounces db)
     \<and> (Hosts \<notin> T \<longrightarrow> group_hosts db' = group_hosts db) \<and> (Pairs \<notin> T \<longrightarrow> group_pairs db' = group_pairs db)
     \<and> (Groups \<notin> T \<longrightarrow> map grp_id (site_groups db') = map grp_id (site_groups db))"

lemma untouchedD:
  assumes "untouched T db db'"
  shows "Tokens \<notin> T \<Longrightarrow> login_tokens db' = login_tokens db" "Bounces \<notin> T \<Longrightarrow> bounces db' = bounces db"
    "Hosts \<notin> T \<Longrightarrow> group_hosts db' = group_hosts db" "Pairs \<notin> T \<Longrightarrow> group_pairs db' = group_pairs db"
    "Groups \<notin> T \<Longrightarrow> map grp_id (site_groups db') = map grp_id (site_groups db)"
  using assms by (simp_all add: untouched_def)

lemma site_frame:
  assumes "run_plan (site_plan lower c) db = Inr (v, db')"
  shows "untouched (touched c) db db'"
proof (cases c)
  case (S_RedeemLogin x)
  with assms RedeemLogin_Inr[of x db v db'] show ?thesis by (auto simp: untouched_def touched_def)
next
  case (S_FinishBounce x)
  with assms FinishBounce_Inr[of x db v db'] show ?thesis by (auto simp: untouched_def touched_def)
next
  case (S_CreateGroup x)
  with assms show ?thesis
    by (auto simp: untouched_def touched_def apply_CreateGroup_def run_nilTx bind_iffs split: option.splits if_splits
        dest!: placeNewGroup_tables)
next
  case (S_ProposeSister x)
  with assms show ?thesis
    by (auto simp: untouched_def touched_def apply_ProposeSister_def Let_def bind_iffs ask_ai_Inr split: if_splits dest!: propose_tables)
next
  case (S_RegisterNode x)
  with assms show ?thesis
    by (auto simp: untouched_def touched_def apply_RegisterNode_def run_nilTx bind_iffs Let_def split: if_splits)
next
  case (S_UnplaceGroup x)
  with assms show ?thesis
    by (auto simp: untouched_def touched_def apply_UnplaceGroup_def run_nilTx bind_iffs split: option.splits)
next
  case (S_AnswerSister x)
  with assms show ?thesis by (auto simp: untouched_def touched_def apply_AnswerSister_def run_nilTx bind_iffs Let_def)
next
  case (S_SetHandle x)
  with assms show ?thesis
    by (auto simp: untouched_def touched_def apply_SetHandle_def run_nilTx bind_iffs Let_def split: option.splits)
next
  case (S_SetGroupHost x)
  with assms show ?thesis
    by (auto simp: untouched_def touched_def apply_SetGroupHost_def run_nilTx bind_iffs Let_def map_upd_where split: option.splits)
next
  case (S_Purge x)
  with assms show ?thesis by (auto simp: untouched_def touched_def apply_Purge_def run_nilTx Let_def purge_accounts_def)
qed (use assms in \<open>auto simp: untouched_def touched_def apply_SetPrimaryDomain_def apply_AddAlternateDomain_def apply_AddHostAlias_def
    apply_PutCert_def apply_CreateLogin_def apply_FailLoginCode_def apply_StartBounce_def
    apply_DeleteCert_def apply_EndSession_def apply_SuspendUser_def apply_SetNotifyPrefs_def apply_SetProfile_def
    apply_RemoveNode_def apply_PlaceGroup_def apply_EndSister_def apply_MirrorGroup_def apply_OutboxDone_site_def apply_QueueFAQ_def
    run_nilTx bind_iffs Let_def map_upd_where split: option.splits if_splits\<close>)

lemma step_tokens:
  assumes "run_plan (site_plan lower c) db = Inr (v, db')"
  shows "(\<exists>x t. c = S_CreateLogin x \<and> login_tokens db' = login_tokens db @ [t] \<and> lt_token t = cl_TokenHash x \<and> lt_tries t = 0)
    \<or> (\<exists>x. c = S_FailLoginCode x \<and> login_tokens db' =
           upd_where (\<lambda>t. lt_token t = flc_TokenHash x) (\<lambda>t. t\<lparr>lt_tries := lt_tries t + 1\<rparr>) (login_tokens db))
    \<or> (\<exists>x. c = S_RedeemLogin x \<and> login_tokens db' =
           upd_where (\<lambda>t. lt_token t = rdm_TokenHash x) (\<lambda>t. t\<lparr>lt_used := Some (rdm_At x)\<rparr>) (login_tokens db))
    \<or> set (login_tokens db') \<subseteq> set (login_tokens db)"
proof (cases c)
  case (S_CreateLogin x)
  with assms show ?thesis by (auto simp: apply_CreateLogin_def run_nilTx bind_iffs ins_new_Inr)
next
  case (S_FailLoginCode x)
  with assms show ?thesis by (auto simp: apply_FailLoginCode_def run_nilTx)
next
  case (S_RedeemLogin x)
  with assms RedeemLogin_Inr[of x db v db'] show ?thesis by auto
next
  case (S_Purge x)
  with assms show ?thesis by (auto simp: apply_Purge_def run_nilTx Let_def purge_accounts_def)
qed (use untouchedD(1)[OF site_frame[OF assms]] in \<open>simp_all add: touched_def\<close>)

lemma guessed_upd:
  assumes "guessed h n db" "login_tokens db' = upd_where P f (login_tokens db)"
    "\<And>t. lt_token (f t) = lt_token t" "\<And>t. lt_tries t \<le> lt_tries (f t)" "\<And>t. lt_used t \<noteq> None \<Longrightarrow> lt_used (f t) \<noteq> None"
  shows "guessed h n db'"
  unfolding guessed_def
proof (intro ballI impI)
  fix r assume "r \<in> set (login_tokens db')" "lt_token r = h"
  then obtain t where t: "t \<in> set (login_tokens db)" "r = t \<or> r = f t" "lt_token t = h"
    unfolding assms(2) set_upd_where using assms(3) by (auto split: if_splits)
  with assms(1) have "lt_used t \<noteq> None \<or> lt_tries t \<ge> n" by (simp add: guessed_def)
  with t(2) assms(4)[of t] assms(5)[of t] show "lt_used r \<noteq> None \<or> lt_tries r \<ge> n" by auto
qed

lemma guessed_sub: "guessed h n db \<Longrightarrow> set (login_tokens db') \<subseteq> set (login_tokens db) \<Longrightarrow> guessed h n db'"
  unfolding guessed_def by blast

lemma guessed_step:
  assumes "guessed h n db" "\<not> makes_login h c"
  shows "guessed h n (step_with (site_plan lower) c db)"
proof (rule step_with_cases[of "site_plan lower" c db])
  fix v assume "run_plan (site_plan lower c) db = Inr (v, step_with (site_plan lower) c db)"
  from step_tokens[OF this] show ?thesis
  proof (elim disjE exE conjE)
    fix x t assume "c = S_CreateLogin x" "login_tokens (step_with (site_plan lower) c db) = login_tokens db @ [t]" "lt_token t = cl_TokenHash x"
    with assms show ?thesis by (auto simp: guessed_def makes_login_def)
  next
    fix x assume "login_tokens (step_with (site_plan lower) c db) =
        upd_where (\<lambda>t. lt_token t = flc_TokenHash x) (\<lambda>t. t\<lparr>lt_tries := lt_tries t + 1\<rparr>) (login_tokens db)"
    then show ?thesis by (rule guessed_upd[OF assms(1)]) simp_all
  next
    fix x assume "login_tokens (step_with (site_plan lower) c db) =
        upd_where (\<lambda>t. lt_token t = rdm_TokenHash x) (\<lambda>t. t\<lparr>lt_used := Some (rdm_At x)\<rparr>) (login_tokens db)"
    then show ?thesis by (rule guessed_upd[OF assms(1)]) simp_all
  next
    assume "set (login_tokens (step_with (site_plan lower) c db)) \<subseteq> set (login_tokens db)"
    then show ?thesis by (rule guessed_sub[OF assms(1)])
  qed
qed (use assms in simp)

lemma guessed_steps: "guessed h n db \<Longrightarrow> list_all (\<lambda>c. \<not> makes_login h c) cs \<Longrightarrow> guessed h n (run_all (site_plan lower) cs db)"
  by (induction cs arbitrary: db) (simp_all add: guessed_step)

lemma guess_counts: "guessed h n db \<Longrightarrow> guessed h (n + 1) (step_with (site_plan lower) (S_FailLoginCode \<lparr>flc_TokenHash = h\<rparr>) db)"
proof -
  assume g: "guessed h n db"
  let ?f = "\<lambda>t. t\<lparr>lt_tries := lt_tries t + 1\<rparr>"
  have toks: "login_tokens (step_with (site_plan lower) (S_FailLoginCode \<lparr>flc_TokenHash = h\<rparr>) db) =
      upd_where (\<lambda>t. lt_token t = h) ?f (login_tokens db)"
    by (simp add: step_with_def apply_FailLoginCode_def run_nilTx)
  show ?thesis unfolding guessed_def toks
  proof (intro ballI impI)
    fix r assume "r \<in> set (upd_where (\<lambda>t. lt_token t = h) ?f (login_tokens db))" "lt_token r = h"
    then obtain t where "t \<in> set (login_tokens db)" "lt_token t = h" "r = ?f t"
      unfolding set_upd_where by (auto split: if_splits)
    with g show "lt_used r \<noteq> None \<or> n + 1 \<le> lt_tries r" by (auto simp: guessed_def)
  qed
qed

lemma guessed_count:
  "guessed h n db \<Longrightarrow> list_all (\<lambda>c. \<not> makes_login h c) cs \<Longrightarrow>
   guessed h (n + int (count_list cs (S_FailLoginCode \<lparr>flc_TokenHash = h\<rparr>))) (run_all (site_plan lower) cs db)"
proof (induction cs arbitrary: db n)
  case (Cons c cs)
  show ?case
  proof (cases "c = S_FailLoginCode \<lparr>flc_TokenHash = h\<rparr>")
    case True
    have "guessed h (n + 1) (step_with (site_plan lower) c db)" unfolding True by (rule guess_counts[OF Cons.prems(1)])
    from Cons.IH[OF this] Cons.prems(2) True show ?thesis by (simp add: add_ac)
  next
    case False
    with Cons.prems show ?thesis by (simp add: Cons.IH guessed_step)
  qed
qed simp

lemma guessed_dead: "guessed h MaxCodeTries db \<Longrightarrow> rdm_TokenHash c = h \<Longrightarrow> run_plan (apply_RedeemLogin c) db = Inl ErrLoginDead"
  by (auto simp: apply_RedeemLogin_def guessed_def split: option.splits dest!: find_Some_mem)

text \<open>C23: a sign-in works once. After one \<open>RedeemLogin\<close> of a token has succeeded, every other one of that
  token is refused, whatever commands the log holds in between (short of a new sign-in that happens to have the
  same hash): if the link and the code are both used at once, one of the two wins.\<close>

theorem login_works_once:
  assumes "run_plan (apply_RedeemLogin c) db = Inr (v, db1)"
    and "list_all (\<lambda>x. \<not> makes_login (rdm_TokenHash c) x) cs" "rdm_TokenHash c' = rdm_TokenHash c"
  shows "run_plan (apply_RedeemLogin c') (run_all (site_plan lower) cs db1) = Inl ErrLoginDead"
proof -
  have "guessed (rdm_TokenHash c) MaxCodeTries db1"
    using RedeemLogin_Inr[OF assms(1)] by (auto simp: guessed_def set_upd_where)
  then show ?thesis by (rule guessed_dead[OF guessed_steps assms(3)]) (rule assms(2))
qed

text \<open>C24: five wrong codes burn a sign-in, on whichever nodes they were entered and whatever came between: no
  \<open>RedeemLogin\<close> of it succeeds after that, with the right code or the link.\<close>

theorem guesses_burn_login:
  assumes "\<forall>t \<in> set (login_tokens db). lt_tries t \<ge> 0" "list_all (\<lambda>x. \<not> makes_login h x) cs"
    and "int (count_list cs (S_FailLoginCode \<lparr>flc_TokenHash = h\<rparr>)) \<ge> MaxCodeTries" "rdm_TokenHash c = h"
  shows "run_plan (apply_RedeemLogin c) (run_all (site_plan lower) cs db) = Inl ErrLoginDead"
proof -
  have "guessed h 0 db" using assms(1) by (auto simp: guessed_def)
  from guessed_count[OF this assms(2), of lower] assms(3)
  have "guessed h MaxCodeTries (run_all (site_plan lower) cs db)" by (fastforce simp: guessed_def)
  then show ?thesis by (rule guessed_dead[OF _ assms(4)])
qed

definition pending_login :: site_db where
  "pending_login = empty_site_db\<lparr>login_tokens := [\<lparr>lt_token = ''t'', lt_email = ''ann@site'', lt_code = ''c'', lt_return = ''home'',
     lt_created = 10, lt_expires = 900, lt_tries = 0, lt_used = None\<rparr>]\<rparr>"

definition tap_link :: RedeemLogin where
  "tap_link = RedeemLogin.make ''t'' 7 ''s'' 5000 ''phone'' False 20"

lemma tap_link_works: "\<exists>db1. run_plan (apply_RedeemLogin tap_link) pending_login = Inr (VRedeemed 7 ''home'', db1)"
  by (simp add: apply_RedeemLogin_def tap_link_def RedeemLogin.defs pending_login_def empty_site_db_def MaxCodeTries_def
      sign_in_account_def ins_new_def start_session_def get_user_def)

lemma login_works_once_witness:
  "\<exists>db1. run_plan (apply_RedeemLogin tap_link) pending_login = Inr (VRedeemed 7 ''home'', db1)
     \<and> run_plan (apply_RedeemLogin (tap_link\<lparr>rdm_SessionHash := ''other''\<rparr>))
         (run_all (site_plan (\<lambda>s. s)) [S_EndSession \<lparr>es_TokenHash = ''s''\<rparr>] db1) = Inl ErrLoginDead"
proof -
  obtain db1 where r: "run_plan (apply_RedeemLogin tap_link) pending_login = Inr (VRedeemed 7 ''home'', db1)"
    using tap_link_works by blast
  have "run_plan (apply_RedeemLogin (tap_link\<lparr>rdm_SessionHash := ''other''\<rparr>))
      (run_all (site_plan (\<lambda>s. s)) [S_EndSession \<lparr>es_TokenHash = ''s''\<rparr>] db1) = Inl ErrLoginDead"
    by (rule login_works_once[OF r]) (simp_all add: makes_login_def)
  with r show ?thesis by blast
qed

lemma guesses_burn_login_witness:
  "run_plan (apply_RedeemLogin tap_link)
     (run_all (site_plan (\<lambda>s. s)) (replicate 5 (S_FailLoginCode \<lparr>flc_TokenHash = ''t''\<rparr>)) pending_login) = Inl ErrLoginDead"
proof (rule guesses_burn_login[where h = "''t''"])
  show "\<forall>t \<in> set (login_tokens pending_login). 0 \<le> lt_tries t" by (simp add: pending_login_def)
qed (simp_all add: makes_login_def MaxCodeTries_def tap_link_def RedeemLogin.defs numeral_eq_Suc)

section \<open>A bounce code works once\<close>

definition makes_code :: "string \<Rightarrow> site_cmd \<Rightarrow> bool" where
  "makes_code h c = (case c of S_StartBounce x \<Rightarrow> sb_CodeHash x = h | _ \<Rightarrow> False)"

lemma step_bounces:
  assumes "run_plan (site_plan lower c) db = Inr (v, db')" "b \<in> set (bounces db')"
  shows "b \<in> set (bounces db) \<or> makes_code (bo_code b) c"
proof (cases c)
  case (S_StartBounce x)
  with assms show ?thesis by (auto simp: apply_StartBounce_def run_nilTx bind_iffs ins_new_Inr makes_code_def)
next
  case (S_FinishBounce x)
  with assms FinishBounce_Inr[of x db v db'] show ?thesis by auto
qed (use untouchedD(2)[OF site_frame[OF assms(1)]] assms(2) in \<open>simp_all add: touched_def\<close>)

lemma code_gone:
  "\<forall>b \<in> set (bounces db). bo_code b \<noteq> h \<Longrightarrow> list_all (\<lambda>c. \<not> makes_code h c) cs \<Longrightarrow>
   \<forall>b \<in> set (bounces (run_all (site_plan lower) cs db)). bo_code b \<noteq> h"
proof (induction cs arbitrary: db)
  case (Cons c cs)
  have "\<forall>b \<in> set (bounces (step_with (site_plan lower) c db)). bo_code b \<noteq> h"
    by (rule step_with_cases[of "site_plan lower" c db]) (use Cons.prems in \<open>auto dest: step_bounces\<close>)
  then show ?case using Cons by simp
qed simp

text \<open>C25: a bounce code signs in its own user, on its own host, before it expires, and once: after one
  \<open>FinishBounce\<close> of it, every other one is refused, on any host and whatever came between.\<close>

theorem bounce_works_once:
  assumes "run_plan (apply_FinishBounce c) db = Inr (v, db1)"
    and "list_all (\<lambda>x. \<not> makes_code (fnb_CodeHash c) x) cs" "fnb_CodeHash c' = fnb_CodeHash c"
  shows "(\<exists>b \<in> set (bounces db). bo_code b = fnb_CodeHash c \<and> bo_host b = fnb_Host c \<and> bo_expires b > fnb_At c \<and> v = VInt (bo_user b))
    \<and> run_plan (apply_FinishBounce c') (run_all (site_plan lower) cs db1) = Inl ErrLoginDead"
proof
  have "\<forall>b \<in> set (bounces db1). bo_code b \<noteq> fnb_CodeHash c" using FinishBounce_Inr[OF assms(1)] by simp
  from code_gone[OF this assms(2)] have "find (\<lambda>b. bo_code b = fnb_CodeHash c' \<and> bo_host b = fnb_Host c' \<and> bo_expires b > fnb_At c')
      (bounces (run_all (site_plan lower) cs db1)) = None"
    by (auto simp: find_None_mem assms(3))
  then show "run_plan (apply_FinishBounce c') (run_all (site_plan lower) cs db1) = Inl ErrLoginDead"
    by (simp add: apply_FinishBounce_def)
qed (use FinishBounce_Inr[OF assms(1)] in blast)

definition bounced :: site_db where
  "bounced = first_login\<lparr>bounces := [\<lparr>bo_code = ''b'', bo_user = 7, bo_host = ''own.org'', bo_expires = 100\<rparr>]\<rparr>"

definition land :: FinishBounce where
  "land = FinishBounce.make ''b'' ''own.org'' ''s2'' 5000 ''phone'' 60"

lemma bounce_works_once_witness:
  "\<exists>db1. run_plan (apply_FinishBounce land) bounced = Inr (VInt 7, db1)
     \<and> run_plan (apply_FinishBounce (land\<lparr>fnb_SessionHash := ''s3''\<rparr>)) (run_all (site_plan (\<lambda>s. s)) [] db1) = Inl ErrLoginDead"
proof -
  have "users first_login = [\<lparr>user_id = 7, user_handle = None, user_email = Some ''ann@site'', user_phone = None, user_photo_key = None,
      user_bio = None, user_created = 20, user_is_operator = False, user_suspended_until = 0, user_notify_email = False,
      user_digest = ''off'', user_deleted_at = None, user_purge_after = None\<rparr>]" "map ses_token (sessions first_login) = [''s'']"
    by (simp_all add: first_login_def step_with_def apply_CreateLogin_def apply_RedeemLogin_def run_nilTx CreateLogin.defs RedeemLogin.defs
        empty_site_db_def ins_new_def sign_in_account_def start_session_def get_user_def MaxCodeTries_def)
  then obtain db1 where r: "run_plan (apply_FinishBounce land) bounced = Inr (VInt 7, db1)"
    by (auto simp: apply_FinishBounce_def land_def FinishBounce.defs bounced_def start_session_def get_user_def ins_new_def has_key_iff)
  have "run_plan (apply_FinishBounce (land\<lparr>fnb_SessionHash := ''s3''\<rparr>)) (run_all (site_plan (\<lambda>s. s)) [] db1) = Inl ErrLoginDead"
    by (rule bounce_works_once[OF r, THEN conjunct2]) simp_all
  with r show ?thesis by blast
qed

end
