(* ===== verification/Voters.thy ===== *)
theory Voters
  imports SiteLaws
begin






















end
