(* ===== verification/Settings.thy ===== *)
theory Settings
  imports Complex_Main "HOL-Library.List_Lexorder" "HOL-Library.Char_ord" Members
begin

text \<open>
  A group's settings: \<^verbatim>\<open>internal/cmd/settings.go\<close>. The command's map of changes is a list
  of names and values, each name once; a value is what JSON gives, a number being the exact value
  of its \<^verbatim>\<open>float64\<close>. \<open>RecordUsage\<close> changes the site's file and is in the theory \<open>Site\<close>.
\<close>

datatype any_value = AStr string | ABool bool | AInt int | AFloat rat | AOther

text \<open>What is stored: text, or an integer (a flag is 0 or 1).\<close>

datatype stored = SText string | SNum int

definition trunc :: "rat \<Rightarrow> int" where
  "trunc q = (if 0 \<le> q then floor q else ceiling q)"

definition check_text :: "nat \<Rightarrow> nat \<Rightarrow> any_value \<Rightarrow> string + stored" where
  "check_text lo hi v =
     (let bad = Inl (''needs '' @ FormatInt (int lo) @ '' to '' @ FormatInt (int hi) @ '' characters'') in
      case v of AStr s \<Rightarrow> (let t = TrimSpace s in if length t < lo \<or> length t > hi then bad else Inr (SText t))
      | _ \<Rightarrow> bad)"

definition oneOf :: "string list \<Rightarrow> any_value \<Rightarrow> string + stored" where
  "oneOf options v =
     (let s = (case v of AStr s \<Rightarrow> s | _ \<Rightarrow> []) in
      if s \<in> set options then Inr (SText s) else Inl (''must be one of '' @ Join options '', ''))"

definition boolean :: "any_value \<Rightarrow> string + stored" where
  "boolean v = (case v of ABool b \<Rightarrow> Inr (SNum (if b then 1 else 0)) | _ \<Rightarrow> Inl ''must be on or off'')"

definition number_of :: "any_value \<Rightarrow> int option" where
  "number_of v = (case v of AInt n \<Rightarrow> Some n | AFloat q \<Rightarrow> Some (trunc q) | _ \<Rightarrow> None)"

definition check_number :: "int \<Rightarrow> int \<Rightarrow> any_value \<Rightarrow> string + stored" where
  "check_number lo hi v =
     (case number_of v of
        None \<Rightarrow> Inl ''must be a number''
      | Some n \<Rightarrow> if n < lo \<or> n > hi then Inl (''must be '' @ FormatInt lo @ '' to '' @ FormatInt hi) else Inr (SNum n))"

definition settingRules :: "(string \<times> (any_value \<Rightarrow> string + stored)) list" where
  "settingRules =
     [(''name'', check_text 1 100), (''description'', check_text 0 2000), (''rules'', check_text 0 5000),
      (''join_questions'', check_text 0 2000), (''visibility'', oneOf [''public'', ''private'', ''hidden'']),
      (''join_policy'', oneOf [''open'', ''approval'', ''invite'']), (''allow_anonymous'', boolean),
      (''hold_first_post'', boolean), (''allow_indexing'', boolean), (''ai_enabled'', boolean),
      (''ai_local_only'', boolean), (''public_faq'', boolean), (''notify_hidden'', boolean),
      (''vote_threshold'', check_number 1 50)]"

definition mirrored :: "string \<Rightarrow> bool" where
  "mirrored k \<longleftrightarrow> k = ''name'' \<or> k = ''visibility'' \<or> k = ''ai_enabled''"

text \<open>One column set. A column holding names is read back as its datatype.\<close>

definition parse_visibility :: "string \<Rightarrow> visibility" where
  "parse_visibility s = (if s = ''private'' then Private else if s = ''hidden'' then Hidden else Public)"

definition parse_policy :: "string \<Rightarrow> join_policy" where
  "parse_policy s = (if s = ''approval'' then Approval else if s = ''invite'' then InviteOnly else Open)"

definition set_text :: "string \<Rightarrow> string \<Rightarrow> settings \<Rightarrow> settings" where
  "set_text k v s =
     (if k = ''name'' then s\<lparr>s_name := v\<rparr>
      else if k = ''description'' then s\<lparr>s_description := v\<rparr>
      else if k = ''rules'' then s\<lparr>s_rules := v\<rparr>
      else if k = ''join_questions'' then s\<lparr>s_join_questions := v\<rparr>
      else if k = ''visibility'' then s\<lparr>s_visibility := parse_visibility v\<rparr>
      else if k = ''join_policy'' then s\<lparr>s_join_policy := parse_policy v\<rparr>
      else s)"

definition set_num :: "string \<Rightarrow> int \<Rightarrow> settings \<Rightarrow> settings" where
  "set_num k n s =
     (if k = ''allow_anonymous'' then s\<lparr>s_allow_anonymous := n \<noteq> 0\<rparr>
      else if k = ''hold_first_post'' then s\<lparr>s_hold_first_post := n \<noteq> 0\<rparr>
      else if k = ''allow_indexing'' then s\<lparr>s_allow_indexing := n \<noteq> 0\<rparr>
      else if k = ''ai_enabled'' then s\<lparr>s_ai_enabled := n \<noteq> 0\<rparr>
      else if k = ''ai_local_only'' then s\<lparr>s_ai_local_only := n \<noteq> 0\<rparr>
      else if k = ''public_faq'' then s\<lparr>s_public_faq := n \<noteq> 0\<rparr>
      else if k = ''notify_hidden'' then s\<lparr>s_notify_hidden := n \<noteq> 0\<rparr>
      else if k = ''vote_threshold'' then s\<lparr>s_vote_threshold := n\<rparr>
      else s)"

definition set_column :: "string \<times> stored \<Rightarrow> settings \<Rightarrow> settings" where
  "set_column kv s = (case kv of (k, SText v) \<Rightarrow> set_text k v s | (k, SNum n) \<Rightarrow> set_num k n s)"

record UpdateSettings =
  us_GroupID :: int
  us_Set :: "(string \<times> any_value) list"
  us_By :: int
  us_At :: int

text \<open>The changes checked, in the order of their names.\<close>

fun check_settings :: "(string \<times> any_value) list \<Rightarrow> go_error + (string \<times> stored) list" where
  "check_settings [] = Inr []"
| "check_settings ((k, v) # kvs) =
     (case map_of settingRules k of
        None \<Rightarrow> Inl (Invalid (k @ '' isn't a setting''))
      | Some check \<Rightarrow>
        (case check v of
           Inl why \<Rightarrow> Inl (Invalid (map (\<lambda>c. if c = CHR ''_'' then CHR '' '' else c) k @ '' '' @ why))
         | Inr w \<Rightarrow> bindE (check_settings kvs) (\<lambda>ws. Inr ((k, w) # ws))))"

definition goes_private :: "(string \<times> stored) list \<Rightarrow> settings \<Rightarrow> bool" where
  "goes_private vals old \<longleftrightarrow> map_of vals ''visibility'' \<noteq> None \<and> map_of vals ''visibility'' \<noteq> Some (SText ''public'')
     \<and> map_of vals ''public_faq'' = None \<and> s_visibility old = Public"

definition new_settings :: "(string \<times> stored) list \<Rightarrow> settings \<Rightarrow> settings" where
  "new_settings vals old =
     (let s = fold set_column vals old in if goes_private vals old then s\<lparr>s_public_faq := False\<rparr> else s)"

definition apply_UpdateSettings :: "UpdateSettings \<Rightarrow> group_db plan" where
  "apply_UpdateSettings c =
     (let kvs = sort_key fst (us_Set c) in
      case check_settings kvs of
        Inl e \<Rightarrow> Refuse e
      | Inr vals \<Rightarrow>
        if vals = [] then NoTx VNil
        else nilTx (\<lambda>db.
          let db1 = db\<lparr>settings_row := map_option (new_settings vals) (settings_row db)\<rparr>;
              db2 = modLog (us_By c) ''settings'' ''group'' (us_GroupID c) (Join (map fst kvs) '', '') (us_At c) db1
          in if \<not> list_ex (mirrored \<circ> fst) kvs then Inr db2
             else case settings_row db2 of
                    None \<Rightarrow> Inl SqlNoRows
                  | Some s \<Rightarrow> Inr (send (F_MirrorGroup \<lparr>mg_GroupID = us_GroupID c, mg_Name = s_name s,
                      mg_Visibility = s_visibility s, mg_AIEnabled = s_ai_enabled s\<rparr>) (us_At c) db2)))"

record SaveFeedback =
  fb_GroupID :: int
  fb_ID :: int
  fb_UserID :: int
  fb_Question :: string
  fb_CitedIDs :: string
  fb_At :: int

definition apply_SaveFeedback :: "SaveFeedback \<Rightarrow> group_db plan" where
  "apply_SaveFeedback c =
     (if length (fb_Question c) > 1000 \<or> length (fb_CitedIDs c) > 1000 then Refuse (Invalid ''too long'')
      else nilTx (\<lambda>db.
        bindE (ins_new af_id \<lparr>af_id = fb_ID c, af_user = fb_UserID c, af_question = fb_Question c,
                 af_cited = fb_CitedIDs c, af_created = fb_At c\<rparr> (ai_feedbacks db)) (\<lambda>t.
        Inr (db\<lparr>ai_feedbacks := t\<rparr>))))"

section \<open>They keep posts, comments and the index in step\<close>

lemma UpdateSettings_ok: "keeps group_ok (apply_UpdateSettings c)"
proof -
  have "core (db\<lparr>settings_row := s\<rparr>) = core db" for db s by (simp add: core_def)
  then show ?thesis unfolding apply_UpdateSettings_def Let_def
    by (auto intro!: keeps_core simp: frame split: sum.splits option.splits if_splits)
qed

lemma SaveFeedback_ok: "keeps group_ok (apply_SaveFeedback c)"
  unfolding apply_SaveFeedback_def by (intro keeps_if keeps_Refuse, rule keeps_core) (auto simp: bind_iffs core_def)

section \<open>What a change of settings leaves\<close>

lemma check_settings_keys: "check_settings kvs = Inr vals \<Longrightarrow> map fst vals = map fst kvs"
  by (induction kvs arbitrary: vals rule: check_settings.induct)
    (auto simp: bind_iffs split: option.splits sum.splits)

lemma stays_public:
  assumes "s_visibility s = Public" "\<forall>kv \<in> set vals. fst kv = ''visibility'' \<longrightarrow> snd kv = SText ''public''"
  shows "s_visibility (fold set_column vals s) = Public"
  using assms
proof (induction vals arbitrary: s)
  case (Cons kv vals)
  obtain k w where kv: "kv = (k, w)" by fastforce
  have "s_visibility (set_column kv s) = Public"
    using Cons.prems by (cases w) (auto simp: kv set_column_def set_text_def set_num_def parse_visibility_def)
  with Cons show ?case by simp
qed simp

text \<open>C19: a group that stops being public takes its public question page with it: whoever changes the
  visibility of a public group away from public, and says nothing of the page in the same change,
  leaves a group whose FAQ is not public; and where the change touches the name, the visibility or
  the use of AI, what is sent to the site's own copy is exactly what the group's file now says.\<close>

theorem private_hides_faq:
  assumes "run_plan (apply_UpdateSettings c) db = Inr (v, db')" "settings_row db = Some old"
    and "distinct (map fst (us_Set c))"
  shows "\<exists>s. settings_row db' = Some s
    \<and> (''visibility'' \<in> fst ` set (us_Set c) \<and> ''public_faq'' \<notin> fst ` set (us_Set c)
         \<and> s_visibility old = Public \<and> s_visibility s \<noteq> Public \<longrightarrow> \<not> s_public_faq s)
    \<and> ((\<exists>k \<in> fst ` set (us_Set c). mirrored k) \<longrightarrow>
         ob_command (last (outbox db')) = F_MirrorGroup \<lparr>mg_GroupID = us_GroupID c, mg_Name = s_name s,
            mg_Visibility = s_visibility s, mg_AIEnabled = s_ai_enabled s\<rparr>)"
proof -
  let ?kvs = "sort_key fst (us_Set c)"
  have keys: "fst ` set ?kvs = fst ` set (us_Set c)" by simp
  show ?thesis
  proof (cases "us_Set c = []")
    case True
    then have "db' = db" using assms(1) by (simp add: apply_UpdateSettings_def run_plan_def)
    with True assms(2) show ?thesis by simp
  next
    case False
    obtain vals where vals: "check_settings ?kvs = Inr vals"
      using assms(1) by (auto simp: apply_UpdateSettings_def Let_def split: sum.splits)
    have mk: "map fst vals = map fst ?kvs" by (rule check_settings_keys[OF vals])
    have ne: "vals \<noteq> []" using mk False by (metis Nil_is_map_conv set_empty set_sort)
    let ?s = "new_settings vals old"
    let ?m = "F_MirrorGroup \<lparr>mg_GroupID = us_GroupID c, mg_Name = s_name ?s,
            mg_Visibility = s_visibility ?s, mg_AIEnabled = s_ai_enabled ?s\<rparr>"
    let ?d = "modLog (us_By c) ''settings'' ''group'' (us_GroupID c) (Join (map fst ?kvs) '', '') (us_At c)
        (db\<lparr>settings_row := Some ?s\<rparr>)"
    have row: "settings_row ?d = Some ?s" by (simp add: modLog_def)
    have db': "db' = (if list_ex (mirrored \<circ> fst) ?kvs then send ?m (us_At c) ?d else ?d)"
      using assms(1) vals ne row assms(2) unfolding apply_UpdateSettings_def Let_def
      by (auto simp: run_nilTx split: if_splits)
    have "settings_row db' = Some ?s" using row unfolding db' by (simp add: send_def)
    moreover have "\<not> s_public_faq ?s"
      if v: "''visibility'' \<in> fst ` set (us_Set c)" "''public_faq'' \<notin> fst ` set (us_Set c)"
        "s_visibility old = Public" "s_visibility ?s \<noteq> Public"
    proof -
      have ks: "fst ` set vals = fst ` set (us_Set c)" using mk keys by (metis list.set_map)
      have "distinct (map fst ?kvs)" using assms(3) by (simp add: distinct_map)
      then have d: "distinct (map fst vals)" by (simp only: mk)
      have "map_of vals ''visibility'' \<noteq> None" "map_of vals ''public_faq'' = None"
        using v(1,2) ks by (simp_all add: map_of_eq_None_iff)
      moreover have "map_of vals ''visibility'' \<noteq> Some (SText ''public'')"
      proof
        assume m: "map_of vals ''visibility'' = Some (SText ''public'')"
        have "\<forall>kv \<in> set vals. fst kv = ''visibility'' \<longrightarrow> snd kv = SText ''public''"
        proof (intro ballI impI)
          fix kv assume kv: "kv \<in> set vals" "fst kv = ''visibility''"
          then have "map_of vals (fst kv) = Some (snd kv)" using d by (metis map_of_is_SomeI prod.collapse)
          with m kv(2) show "snd kv = SText ''public''" by simp
        qed
        from stays_public[OF v(3) this] v(4) show False by (simp add: new_settings_def Let_def split: if_splits)
      qed
      ultimately have "goes_private vals old" using v(3) by (simp add: goes_private_def)
      then show ?thesis by (simp add: new_settings_def Let_def)
    qed
    moreover have "ob_command (last (outbox db')) = ?m" if "\<exists>k \<in> fst ` set (us_Set c). mirrored k"
    proof -
      have "list_ex (mirrored \<circ> fst) ?kvs" using that by (auto simp: list_ex_iff)
      then show ?thesis unfolding db' by (simp add: send_def)
    qed
    ultimately show ?thesis by blast
  qed
qed

lemma private_hides_faq_witness:
  "\<exists>db'. run_plan (apply_UpdateSettings (UpdateSettings.make 3 [(''visibility'', AStr ''hidden'')] 7 9))
        (empty_group_db\<lparr>settings_row := Some (default_settings ''pumps'' [] Public True)\<rparr>) = Inr (VNil, db')
     \<and> map_option s_public_faq (settings_row db') = Some False \<and> map_option s_visibility (settings_row db') = Some Hidden"
proof -
  let ?c = "UpdateSettings.make 3 [(''visibility'', AStr ''hidden'')] 7 9"
  let ?db = "empty_group_db\<lparr>settings_row := Some (default_settings ''pumps'' [] Public True)\<rparr>"
  have k: "sort_key fst (us_Set ?c) = [(''visibility'', AStr ''hidden'')]" by (simp add: UpdateSettings.defs)
  have ch: "check_settings [(''visibility'', AStr ''hidden'')] = Inr [(''visibility'', SText ''hidden'')]"
    by (simp add: settingRules_def oneOf_def)
  obtain db' where r: "run_plan (apply_UpdateSettings ?c) ?db = Inr (VNil, db')"
    and v: "map_option s_visibility (settings_row db') = Some Hidden"
    by (simp add: apply_UpdateSettings_def Let_def k ch run_nilTx modLog_def mirrored_def send_def new_settings_def
        set_column_def set_text_def parse_visibility_def default_settings_def goes_private_def UpdateSettings.defs
        del: check_settings.simps)
  from private_hides_faq[OF r, of "default_settings ''pumps'' [] Public True"] v r
  show ?thesis by (auto simp: UpdateSettings.defs default_settings_def)
qed

end
