(* ===== verification/GroupMachine.thy ===== *)
theory GroupMachine
  imports SourceLaws Settings PurgeGroups Machine
begin

text \<open>
  Every command on a group's file as one machine, and what is true of every file it can make: the
  invariant \<open>group_ok\<close>, spelled out. An archive import keeps it when the comments it names are not
  already stored under another post (\<open>import_refs_ok\<close>: references are unique in an archive).
\<close>

section \<open>The commands\<close>

datatype upkeep_cmd =
    G_ClaimJob ClaimJob | G_FailJob FailJob | G_UpdateSettings UpdateSettings | G_SaveFeedback SaveFeedback
   | G_ImportPost ImportPost | G_PurgeGroup PurgeGroup

fun upkeep_plan :: "upkeep_cmd \<Rightarrow> group_db plan" where
  "upkeep_plan (G_ClaimJob c) = apply_ClaimJob c"
| "upkeep_plan (G_FailJob c) = apply_FailJob c"
| "upkeep_plan (G_UpdateSettings c) = apply_UpdateSettings c"
| "upkeep_plan (G_SaveFeedback c) = apply_SaveFeedback c"
| "upkeep_plan (G_ImportPost c) = apply_ImportPost c"
| "upkeep_plan (G_PurgeGroup c) = apply_PurgeGroup c"

datatype post_cmd =
    G_CreatePost CreatePost | G_EditPost EditPost | G_CreateComment CreateComment | G_EditComment EditComment
   | G_SoftDelete SoftDelete | G_Restore Restore | G_Helpful Helpful | G_Follow Follow | G_MarkRead MarkRead
   | G_MarkEmailed MarkEmailed | G_DigestSent DigestSent

fun post_plan :: "post_cmd \<Rightarrow> group_db plan" where
  "post_plan (G_CreatePost c) = apply_CreatePost c"
| "post_plan (G_EditPost c) = apply_EditPost c"
| "post_plan (G_CreateComment c) = apply_CreateComment c"
| "post_plan (G_EditComment c) = apply_EditComment c"
| "post_plan (G_SoftDelete c) = apply_SoftDelete c"
| "post_plan (G_Restore c) = apply_Restore c"
| "post_plan (G_Helpful c) = apply_Helpful c"
| "post_plan (G_Follow c) = apply_Follow c"
| "post_plan (G_MarkRead c) = apply_MarkRead c"
| "post_plan (G_MarkEmailed c) = apply_MarkEmailed c"
| "post_plan (G_DigestSent c) = apply_DigestSent c"

datatype people_cmd =
    G_SetCommentCheck SetCommentCheck | G_Approve Approve | G_Report Report | G_Vote Vote
   | G_SetPostFlag SetPostFlag | G_SetRole SetRole | G_Ban Ban | G_Unban Unban | G_JoinGroup JoinGroup
   | G_ReviewJoin ReviewJoin | G_CreateInvite CreateInvite | G_RevokeInvite RevokeInvite
   | G_LeaveGroup LeaveGroup | G_RevealAuthor RevealAuthor

fun people_plan :: "people_cmd \<Rightarrow> group_db plan" where
  "people_plan (G_SetCommentCheck c) = apply_SetCommentCheck c"
| "people_plan (G_Approve c) = apply_Approve c"
| "people_plan (G_Report c) = apply_Report c"
| "people_plan (G_Vote c) = apply_Vote c"
| "people_plan (G_SetPostFlag c) = apply_SetPostFlag c"
| "people_plan (G_SetRole c) = apply_SetRole c"
| "people_plan (G_Ban c) = apply_Ban c"
| "people_plan (G_Unban c) = apply_Unban c"
| "people_plan (G_JoinGroup c) = apply_JoinGroup c"
| "people_plan (G_ReviewJoin c) = apply_ReviewJoin c"
| "people_plan (G_CreateInvite c) = apply_CreateInvite c"
| "people_plan (G_RevokeInvite c) = apply_RevokeInvite c"
| "people_plan (G_LeaveGroup c) = apply_LeaveGroup c"
| "people_plan (G_RevealAuthor c) = apply_RevealAuthor c"

datatype link_cmd =
    G_AddLink AddLink | G_RemoveLink RemoveLink | G_SetNote SetNote | G_MoveUnder MoveUnder | G_MoveOut MoveOut
   | G_SetCheck SetCheck | G_SetDigest SetDigest | G_SetSummary SetSummary | G_ReverseNudge ReverseNudge
   | G_RemoveNote RemoveNote

fun link_plan :: "link_cmd \<Rightarrow> group_db plan" where
  "link_plan (G_AddLink c) = apply_AddLink c"
| "link_plan (G_RemoveLink c) = apply_RemoveLink c"
| "link_plan (G_SetNote c) = apply_SetNote c"
| "link_plan (G_MoveUnder c) = apply_MoveUnder c"
| "link_plan (G_MoveOut c) = apply_MoveOut c"
| "link_plan (G_SetCheck c) = apply_SetCheck c"
| "link_plan (G_SetDigest c) = apply_SetDigest c"
| "link_plan (G_SetSummary c) = apply_SetSummary c"
| "link_plan (G_ReverseNudge c) = apply_ReverseNudge c"
| "link_plan (G_RemoveNote c) = apply_RemoveNote c"

datatype sister_cmd =
    G_RemoveSisterLink RemoveSisterLink | G_MarkSisterStale MarkSisterStale | G_InitGroup InitGroup
   | G_DropSisterLinks DropSisterLinks | G_PutSisterSide PutSisterSide | G_ShowSisterNotes ShowSisterNotes
   | G_ModLogEntry ModLogEntry | G_OutboxDone OutboxDone

fun sister_plan :: "sister_cmd \<Rightarrow> group_db plan" where
  "sister_plan (G_RemoveSisterLink c) = apply_RemoveSisterLink c"
| "sister_plan (G_MarkSisterStale c) = apply_MarkSisterStale c"
| "sister_plan (G_InitGroup c) = apply_InitGroup c"
| "sister_plan (G_DropSisterLinks c) = apply_DropSisterLinks c"
| "sister_plan (G_PutSisterSide c) = apply_PutSisterSide c"
| "sister_plan (G_ShowSisterNotes c) = apply_ShowSisterNotes c"
| "sister_plan (G_ModLogEntry c) = apply_ModLogEntry c"
| "sister_plan (G_OutboxDone c) = apply_OutboxDone c"

datatype faq_cmd =
    G_CreateTopic CreateTopic | G_EditTopic EditTopic | G_CreateFAQEntry CreateFAQEntry
   | G_AddFAQSource AddFAQSource | G_RemoveFAQSource RemoveFAQSource | G_EditFAQEntry EditFAQEntry
   | G_RollbackFAQEntry RollbackFAQEntry | G_SetFAQAnswer SetFAQAnswer | G_AddFAQComment AddFAQComment
   | G_RemoveFAQComment RemoveFAQComment | G_SetPostTopics SetPostTopics | G_TidyTopics TidyTopics
   | G_QueueGroupFAQ QueueGroupFAQ

fun faq_plan :: "faq_cmd \<Rightarrow> group_db plan" where
  "faq_plan (G_CreateTopic c) = apply_CreateTopic c"
| "faq_plan (G_EditTopic c) = apply_EditTopic c"
| "faq_plan (G_CreateFAQEntry c) = apply_CreateFAQEntry c"
| "faq_plan (G_AddFAQSource c) = apply_AddFAQSource c"
| "faq_plan (G_RemoveFAQSource c) = apply_RemoveFAQSource c"
| "faq_plan (G_EditFAQEntry c) = apply_EditFAQEntry c"
| "faq_plan (G_RollbackFAQEntry c) = apply_RollbackFAQEntry c"
| "faq_plan (G_SetFAQAnswer c) = apply_SetFAQAnswer c"
| "faq_plan (G_AddFAQComment c) = apply_AddFAQComment c"
| "faq_plan (G_RemoveFAQComment c) = apply_RemoveFAQComment c"
| "faq_plan (G_SetPostTopics c) = apply_SetPostTopics c"
| "faq_plan (G_TidyTopics c) = apply_TidyTopics c"
| "faq_plan (G_QueueGroupFAQ c) = apply_QueueGroupFAQ c"

datatype page_cmd =
    G_AddSource AddSource | G_SetSource SetSource | G_AddSeeds AddSeeds | G_ApproveSources ApproveSources
   | G_RemoveSource RemoveSource | G_RestoreSource RestoreSource | G_AllowDomain AllowDomain
   | G_DetachSource DetachSource | G_RequestArchiveRemoval RequestArchiveRemoval

fun page_plan :: "('u, 'a) net_lib_scheme \<Rightarrow> page_cmd \<Rightarrow> group_db plan" where
  "page_plan nl (G_AddSource c) = apply_AddSource nl c"
| "page_plan nl (G_SetSource c) = apply_SetSource c"
| "page_plan nl (G_AddSeeds c) = apply_AddSeeds nl c"
| "page_plan nl (G_ApproveSources c) = apply_ApproveSources c"
| "page_plan nl (G_RemoveSource c) = apply_RemoveSource c"
| "page_plan nl (G_RestoreSource c) = apply_RestoreSource c"
| "page_plan nl (G_AllowDomain c) = apply_AllowDomain nl c"
| "page_plan nl (G_DetachSource c) = apply_DetachSource c"
| "page_plan nl (G_RequestArchiveRemoval c) = apply_RequestArchiveRemoval c"

datatype group_cmd =
    Upkeep upkeep_cmd | OnPosts post_cmd | OnPeople people_cmd | OnLinks link_cmd | OnSisters sister_cmd | OnFAQ faq_cmd
  | OnPages page_cmd

fun group_plan :: "('u, 'a) net_lib_scheme \<Rightarrow> group_cmd \<Rightarrow> group_db plan" where
  "group_plan nl (Upkeep c) = upkeep_plan c"
| "group_plan nl (OnPosts c) = post_plan c"
| "group_plan nl (OnPeople c) = people_plan c"
| "group_plan nl (OnLinks c) = link_plan c"
| "group_plan nl (OnSisters c) = sister_plan c"
| "group_plan nl (OnFAQ c) = faq_plan c"
| "group_plan nl (OnPages c) = page_plan nl c"

section \<open>Each keeps the invariant\<close>

lemma ClaimJob_ok: "keeps group_ok (apply_ClaimJob c)"
  by (auto simp: apply_ClaimJob_def keeps_def okE_iff Let_def case_prod_unfold group_ok_def core_def)

lemma FailJob_ok: "keeps group_ok (apply_FailJob c)"
  by (simp add: apply_FailJob_def keeps_nilTx group_ok_def core_def)

lemma upkeep_kept: "(\<And>x. c \<noteq> G_ImportPost x) \<Longrightarrow> keeps group_ok (upkeep_plan c)"
  by (cases c) (auto simp: ClaimJob_ok FailJob_ok UpdateSettings_ok SaveFeedback_ok PurgeGroup_ok)

lemma post_kept: "keeps group_ok (post_plan c)"
  by (cases c) (simp_all add: CreatePost_ok EditPost_ok CreateComment_ok EditComment_ok SoftDelete_ok Restore_ok Helpful_ok
      Follow_ok MarkRead_ok MarkEmailed_ok DigestSent_ok)

lemma people_kept: "keeps group_ok (people_plan c)"
  by (cases c) (simp_all add: SetCommentCheck_ok Approve_ok Report_ok Vote_ok SetPostFlag_ok SetRole_ok Ban_ok Unban_ok
      JoinGroup_ok ReviewJoin_ok CreateInvite_ok RevokeInvite_ok LeaveGroup_ok RevealAuthor_ok)

lemma link_kept: "keeps group_ok (link_plan c)"
  by (cases c) (simp_all add: AddLink_ok RemoveLink_ok SetNote_ok MoveUnder_ok MoveOut_ok SetCheck_ok SetDigest_ok SetSummary_ok
      ReverseNudge_ok RemoveNote_ok)

lemma sister_kept: "keeps group_ok (sister_plan c)"
  by (cases c) (simp_all add: RemoveSisterLink_ok MarkSisterStale_ok InitGroup_ok DropSisterLinks_ok PutSisterSide_ok
      ShowSisterNotes_ok ModLogEntry_ok OutboxDone_ok)

lemma faq_kept: "keeps group_ok (faq_plan c)"
  by (cases c) (simp_all add: CreateTopic_ok EditTopic_ok CreateFAQEntry_ok AddFAQSource_ok RemoveFAQSource_ok EditFAQEntry_ok
      RollbackFAQEntry_ok SetFAQAnswer_ok AddFAQComment_ok RemoveFAQComment_ok SetPostTopics_ok
      TidyTopics_ok QueueGroupFAQ_ok)

lemma page_kept: "keeps group_ok (page_plan nl c)"
  by (cases c) (simp_all add: AddSource_ok SetSource_ok AddSeeds_ok ApproveSources_ok RemoveSource_ok RestoreSource_ok
      AllowDomain_ok DetachSource_ok RequestArchiveRemoval_ok)

definition fair_import :: "group_cmd \<Rightarrow> group_db \<Rightarrow> bool" where
  "fair_import c db = (case c of Upkeep (G_ImportPost x) \<Rightarrow> import_refs_ok x db | _ \<Rightarrow> True)"

interpretation group: kept "group_plan nl" fair_import group_ok
proof unfold_locales
  fix db :: group_db and c :: group_cmd
  assume ok: "group_ok db" "fair_import c db"
  have by_keeps: "keeps group_ok p \<Longrightarrow> okE (\<lambda>(_, db'). group_ok db') (run_plan p db)" for p
    using ok(1) by (simp add: keeps_def)
  show "okE (\<lambda>(_, db'). group_ok db') (run_plan (group_plan nl c) db)"
  proof (cases c)
    case (Upkeep x)
    show ?thesis
    proof (cases "\<exists>i. x = G_ImportPost i")
      case True
      with ok Upkeep show ?thesis by (auto simp: okE_iff fair_import_def intro: ImportPost_ok)
    next
      case False
      then have "keeps group_ok (upkeep_plan x)" by (intro upkeep_kept) blast
      with Upkeep show ?thesis by (simp add: by_keeps)
    qed
  qed (simp_all add: by_keeps post_kept people_kept link_kept sister_kept faq_kept page_kept)
qed

lemma group_ok_rows:
  assumes "group_ok db"
  shows "distinct (map p_id (posts db)) \<and> distinct (map c_id (comments db))"
    and "p \<in> set (posts db) \<Longrightarrow> p_comment_count p = int (length (filter (\<lambda>c. c_post c = p_id p \<and> shown (c_status c)) (comments db)))"
    and "r \<in> set (search_fts db) \<Longrightarrow> f_kind r = FtsItem Post \<Longrightarrow>
      \<exists>p \<in> set (posts db). p_id p = f_rowid r \<and> shown (p_status p) \<and> f_title r = p_title p \<and> f_body r = p_body p"
    and "r \<in> set (search_fts db) \<Longrightarrow> f_kind r = FtsItem Comment \<Longrightarrow>
      \<exists>c \<in> set (comments db). c_id c = f_rowid r \<and> shown (c_status c) \<and> f_post r = c_post c \<and> f_body r = c_body c"
    and "c \<in> set (comments db) \<Longrightarrow> c_post c \<in> p_id ` set (posts db)"
proof -
  have k: "core_ok (map post_core (posts db), map comment_core (comments db), search_fts db)"
    using assms by (simp add: group_ok_def core_def)
  show "distinct (map p_id (posts db)) \<and> distinct (map c_id (comments db))" using core_okD[OF assms] by simp
  show "p_comment_count p = int (length (filter (\<lambda>c. c_post c = p_id p \<and> shown (c_status c)) (comments db)))"
    if "p \<in> set (posts db)"
  proof -
    from that have "post_core p \<in> set (map post_core (posts db))" by simp
    from core_ok_count[OF k this] show ?thesis
      by (simp add: shown_under_def post_core_def filter_map comp_def comment_core_def)
  qed
  show "\<exists>p \<in> set (posts db). p_id p = f_rowid r \<and> shown (p_status p) \<and> f_title r = p_title p \<and> f_body r = p_body p"
    if "r \<in> set (search_fts db)" "f_kind r = FtsItem Post"
    using core_ok_row[OF k that(1)] that(2) by (auto simp: row_ok_def post_core_def)
  show "\<exists>c \<in> set (comments db). c_id c = f_rowid r \<and> shown (c_status c) \<and> f_post r = c_post c \<and> f_body r = c_body c"
    if "r \<in> set (search_fts db)" "f_kind r = FtsItem Comment"
    using core_ok_row[OF k that(1)] that(2) by (auto simp: row_ok_def comment_core_def)
  show "c_post c \<in> p_id ` set (posts db)" if "c \<in> set (comments db)"
    using core_ok_comment[OF k, of "comment_core c"] that unfolding kp_id_core by (simp add: comment_core_def)
qed

text \<open>C31: in every file the commands can make from an empty one: no two posts and no two comments share an id; a
  comment is under a post there is; the number stored with a post is the number of the comments shown under
  it; and search finds an item only while it is shown, and finds its present text.\<close>

theorem group_files_consistent:
  assumes "reachable (group_plan nl) fair_import empty_group_db db"
  shows "distinct (map p_id (posts db)) \<and> distinct (map c_id (comments db))
    \<and> c_post ` set (comments db) \<subseteq> p_id ` set (posts db)
    \<and> list_all (\<lambda>p. p_comment_count p = int (length (filter (\<lambda>c. c_post c = p_id p \<and> shown (c_status c)) (comments db)))) (posts db)
    \<and> list_all (\<lambda>r. case f_kind r of
          FtsItem Post \<Rightarrow> list_ex (\<lambda>p. p_id p = f_rowid r \<and> shown (p_status p) \<and> p_title p = f_title r \<and> p_body p = f_body r) (posts db)
        | FtsItem Comment \<Rightarrow> list_ex (\<lambda>c. c_id c = f_rowid r \<and> shown (c_status c) \<and> c_body c = f_body r) (comments db)
        | _ \<Rightarrow> True) (search_fts db)"
proof -
  have "group_ok empty_group_db" by (simp add: group_ok_def core_ok_def core_def empty_group_db_def)
  with assms have ok: "group_ok db" by (rule group.everywhere)
  have "list_all (\<lambda>r. case f_kind r of
          FtsItem Post \<Rightarrow> list_ex (\<lambda>p. p_id p = f_rowid r \<and> shown (p_status p) \<and> p_title p = f_title r \<and> p_body p = f_body r) (posts db)
        | FtsItem Comment \<Rightarrow> list_ex (\<lambda>c. c_id c = f_rowid r \<and> shown (c_status c) \<and> c_body c = f_body r) (comments db)
        | _ \<Rightarrow> True) (search_fts db)"
    unfolding list_all_iff list_ex_iff
  proof
    fix r assume "r \<in> set (search_fts db)"
    from group_ok_rows(3,4)[OF ok this]
    show "case f_kind r of
          FtsItem Post \<Rightarrow> \<exists>p \<in> set (posts db). p_id p = f_rowid r \<and> shown (p_status p) \<and> p_title p = f_title r \<and> p_body p = f_body r
        | FtsItem Comment \<Rightarrow> \<exists>c \<in> set (comments db). c_id c = f_rowid r \<and> shown (c_status c) \<and> c_body c = f_body r
        | _ \<Rightarrow> True"
      by (fastforce split: fts_kind.splits kind.splits)
  qed
  with group_ok_rows(1,2,5)[OF ok] show ?thesis unfolding list_all_iff by blast
qed

definition first_post :: group_db where
  "first_post = run_all (group_plan plain_net)
     [OnSisters (G_InitGroup (InitGroup.make 5 ''Vans'' [] Public 1 10)),
      OnPosts (G_CreatePost (CreatePost.make 5 70 1 ''pump'' ''leaks'' False [] 20))] empty_group_db"

lemma group_files_consistent_witness:
  "map p_title (posts first_post) = [''pump''] \<and> length (search_fts first_post) = 1
   \<and> list_all (\<lambda>p. p_comment_count p = int (length (filter (\<lambda>c. c_post c = p_id p \<and> shown (c_status c)) (comments first_post)))) (posts first_post)"
proof -
  have "reachable (group_plan plain_net) fair_import empty_group_db first_post"
    unfolding first_post_def by (rule reachable_run_all) (simp add: fair_import_def, rule reach_start)
  note group_files_consistent[OF this]
  moreover have "map p_title (posts first_post) = [''pump'']" "length (search_fts first_post) = 1"
    by (simp_all add: first_post_def step_with_def apply_InitGroup_def apply_CreatePost_def run_nilTx InitGroup.defs CreatePost.defs
        empty_group_db_def requireMember_def firstPostStatus_def anonymousAllowed_def get_member_def ins_new_def ins_ignore_def
        insertImages_def add_follow_def schedule_def schedule_in_def ftsPut_def default_settings_def new_post_def new_member_def shown_count_def Let_def)
  ultimately show ?thesis by blast
qed

end
