(* ===== verification/Results.thy ===== *)
theory Results
  imports GroupMachine
begin

text \<open>
  What comes back from the AI workers. Eight commands carry a result; each names the job, the worker
  and the version of the text it read. The locale \<open>result_of\<close> is their contract with the queue: the
  command runs \<open>finishJob\<close> first, and goes no further when that refuses. The interpretation is the
  eight commands together.
\<close>

datatype result_cmd =
    R_Check SetCheck | R_CommentCheck SetCommentCheck | R_Digest SetDigest | R_Note SetNote
   | R_Summary SetSummary | R_FAQAnswer SetFAQAnswer | R_Source SetSource | R_Seeds AddSeeds

fun result_plan :: "('u, 'a) net_lib_scheme \<Rightarrow> result_cmd \<Rightarrow> group_db plan" where
  "result_plan nl (R_Check c) = apply_SetCheck c"
| "result_plan nl (R_CommentCheck c) = apply_SetCommentCheck c"
| "result_plan nl (R_Digest c) = apply_SetDigest c"
| "result_plan nl (R_Note c) = apply_SetNote c"
| "result_plan nl (R_Summary c) = apply_SetSummary c"
| "result_plan nl (R_FAQAnswer c) = apply_SetFAQAnswer c"
| "result_plan nl (R_Source c) = apply_SetSource c"
| "result_plan nl (R_Seeds c) = apply_AddSeeds nl c"

text \<open>The job, the worker, the version the worker read, and the time.\<close>

fun lease_of :: "result_cmd \<Rightarrow> int \<times> string \<times> int \<times> int" where
  "lease_of (R_Check c) = (sc_JobID c, sc_Worker c, sc_Version c, sc_At c)"
| "lease_of (R_CommentCheck c) = (scc_JobID c, scc_Worker c, scc_Version c, scc_At c)"
| "lease_of (R_Digest c) = (dg_JobID c, dg_Worker c, dg_Version c, dg_At c)"
| "lease_of (R_Note c) = (st_JobID c, st_Worker c, st_Version c, st_At c)"
| "lease_of (R_Summary c) = (ss_JobID c, ss_Worker c, ss_Version c, ss_At c)"
| "lease_of (R_FAQAnswer c) = (sf_JobID c, sf_Worker c, sf_Version c, sf_At c)"
| "lease_of (R_Source c) = (rd_JobID c, rd_Worker c, rd_Version c, rd_At c)"
| "lease_of (R_Seeds c) = (ad_JobID c, ad_Worker c, ad_Version c, ad_At c)"

text \<open>The version the text has now; \<open>None\<close> when what the result is about is gone.\<close>

fun version_now :: "group_db \<Rightarrow> result_cmd \<Rightarrow> int option" where
  "version_now db (R_Check c) = map_option p_version (get_post db (sc_PostID c))"
| "version_now db (R_CommentCheck c) = map_option c_version (get_comment db (scc_CommentID c))"
| "version_now db (R_Digest c) = map_option p_thread_version (get_post db (dg_PostID c))"
| "version_now db (R_Note c) = Some (noteVersion db (st_NoteID c))"
| "version_now db (R_Summary c) = map_option p_thread_version (get_post db (ss_PostID c))"
| "version_now db (R_FAQAnswer c) = map_option e_version (get_entry db (sf_EntryID c))"
| "version_now db (R_Source c) = map_option so_version (get_source db (rd_SourceID c))"
| "version_now db (R_Seeds c) = map_option so_version (get_source db (ad_ListID c))"

definition freed :: "job \<Rightarrow> job" where
  "freed j = j\<lparr>j_claimed_by := None, j_lease_until := None\<rparr>"

text \<open>Job \<open>i\<close> is leased to worker \<open>w\<close>.\<close>

definition mine :: "int \<Rightarrow> string \<Rightarrow> job list \<Rightarrow> bool" where
  "mine i w t = list_ex (\<lambda>j. j_id j = i \<and> null_str (j_claimed_by j) = w) t"

lemma finish_refused:
  assumes "\<not> mine i w t \<or> v \<noteq> cur"
  obtains t' where "finish_in i w v cur tm t = (False, t')" "list_all2 (\<lambda>j j'. j' = j \<or> mine i w t \<and> j_id j = i \<and> j' = freed j) t t'"
proof (cases "find (\<lambda>j. j_id j = i) t")
  case None
  then have "finish_in i w v cur tm t = (False, t)" by (simp add: finish_in_def)
  then show ?thesis by (rule that) (simp add: list_all2_refl)
next
  case (Some j)
  then have j: "j \<in> set t" "j_id j = i" by (auto simp: find_Some_iff)
  show ?thesis
  proof (cases "null_str (j_claimed_by j) = w")
    case False
    with Some have "finish_in i w v cur tm t = (False, t)" by (simp add: finish_in_def)
    then show ?thesis by (rule that) (simp add: list_all2_refl)
  next
    case True
    with j have m: "mine i w t" by (auto simp: mine_def list_ex_iff)
    with assms have "v \<noteq> cur" by simp
    with Some True have "finish_in i w v cur tm t = (False, upd_where (\<lambda>r. j_id r = i) freed t)"
      by (simp add: finish_in_def freed_def[abs_def])
    then show ?thesis using m by (intro that) (auto simp: upd_where_def list_all2_conv_all_nth split: if_splits)
  qed
qed

lemma refused_results:
  "map_option p_version (get_post db (sc_PostID cCheck)) = Some cur \<Longrightarrow> finish_in (sc_JobID cCheck) (sc_Worker cCheck) (sc_Version cCheck) cur (sc_At cCheck) (jobs db) = (False, t) \<Longrightarrow>
    run_plan (apply_SetCheck cCheck) db = Inr (VNil, db\<lparr>jobs := t\<rparr>)"
  "map_option c_version (get_comment db (scc_CommentID cCommentCheck)) = Some cur \<Longrightarrow> finish_in (scc_JobID cCommentCheck) (scc_Worker cCommentCheck) (scc_Version cCommentCheck) cur (scc_At cCommentCheck) (jobs db) = (False, t) \<Longrightarrow>
    run_plan (apply_SetCommentCheck cCommentCheck) db = Inr (VNil, db\<lparr>jobs := t\<rparr>)"
  "map_option p_thread_version (get_post db (dg_PostID cDigest)) = Some cur \<Longrightarrow> finish_in (dg_JobID cDigest) (dg_Worker cDigest) (dg_Version cDigest) cur (dg_At cDigest) (jobs db) = (False, t) \<Longrightarrow>
    run_plan (apply_SetDigest cDigest) db = Inr (VNil, db\<lparr>jobs := t\<rparr>)"
  "map_option p_thread_version (get_post db (ss_PostID cSummary)) = Some cur \<Longrightarrow> finish_in (ss_JobID cSummary) (ss_Worker cSummary) (ss_Version cSummary) cur (ss_At cSummary) (jobs db) = (False, t) \<Longrightarrow>
    run_plan (apply_SetSummary cSummary) db = Inr (VNil, db\<lparr>jobs := t\<rparr>)"
  "map_option e_version (get_entry db (sf_EntryID cFAQAnswer)) = Some cur \<Longrightarrow> finish_in (sf_JobID cFAQAnswer) (sf_Worker cFAQAnswer) (sf_Version cFAQAnswer) cur (sf_At cFAQAnswer) (jobs db) = (False, t) \<Longrightarrow>
    run_plan (apply_SetFAQAnswer cFAQAnswer) db = Inr (VNil, db\<lparr>jobs := t\<rparr>)"
  "map_option so_version (get_source db (rd_SourceID cSource)) = Some cur \<Longrightarrow> finish_in (rd_JobID cSource) (rd_Worker cSource) (rd_Version cSource) cur (rd_At cSource) (jobs db) = (False, t) \<Longrightarrow>
    run_plan (apply_SetSource cSource) db = Inr (VNil, db\<lparr>jobs := t\<rparr>)"
  "map_option so_version (get_source db (ad_ListID cSeeds)) = Some cur \<Longrightarrow> finish_in (ad_JobID cSeeds) (ad_Worker cSeeds) (ad_Version cSeeds) cur (ad_At cSeeds) (jobs db) = (False, t) \<Longrightarrow>
    run_plan (apply_AddSeeds nl cSeeds) db = Inr (VNil, db\<lparr>jobs := t\<rparr>)"
  "finish_in (st_JobID c) (st_Worker c) (st_Version c) (noteVersion db (st_NoteID c)) (st_At c) (jobs db) = (False, t) \<Longrightarrow>
    run_plan (apply_SetNote c) db = Inr (VNil, db\<lparr>jobs := t\<rparr>)"
  subgoal by (auto simp: run_nilTx apply_SetCheck_def finishJob_def the_post_def)
  subgoal by (auto simp: run_nilTx apply_SetCommentCheck_def finishJob_def the_comment_def)
  subgoal by (auto simp: run_nilTx apply_SetDigest_def finishJob_def the_post_def)
  subgoal by (auto simp: run_nilTx apply_SetSummary_def finishJob_def the_post_def)
  subgoal by (auto simp: run_nilTx apply_SetFAQAnswer_def finishJob_def the_entry_def Let_def)
  subgoal by (auto simp: run_nilTx apply_SetSource_def finishJob_def )
  subgoal by (auto simp: run_nilTx apply_AddSeeds_def finishJob_def )
  subgoal by (simp add: run_nilTx apply_SetNote_def finishJob_def Let_def)
  done

lemma gone_results:
  "get_post db (sc_PostID cCheck) = None \<Longrightarrow> run_plan (apply_SetCheck cCheck) db = Inl ErrGone"
  "get_comment db (scc_CommentID cCommentCheck) = None \<Longrightarrow> run_plan (apply_SetCommentCheck cCommentCheck) db = Inl ErrGone"
  "get_post db (dg_PostID cDigest) = None \<Longrightarrow> run_plan (apply_SetDigest cDigest) db = Inl ErrGone"
  "get_post db (ss_PostID cSummary) = None \<Longrightarrow> run_plan (apply_SetSummary cSummary) db = Inl ErrGone"
  "get_entry db (sf_EntryID cFAQAnswer) = None \<Longrightarrow> run_plan (apply_SetFAQAnswer cFAQAnswer) db = Inl ErrGone"
  "get_source db (rd_SourceID cSource) = None \<Longrightarrow> run_plan (apply_SetSource cSource) db = Inl ErrGone"
  "get_source db (ad_ListID cSeeds) = None \<Longrightarrow> run_plan (apply_AddSeeds nl cSeeds) db = Inl ErrGone"
  subgoal by (simp add: run_nilTx apply_SetCheck_def the_post_def Let_def)
  subgoal by (simp add: run_nilTx apply_SetCommentCheck_def the_comment_def Let_def)
  subgoal by (simp add: run_nilTx apply_SetDigest_def the_post_def Let_def)
  subgoal by (simp add: run_nilTx apply_SetSummary_def the_post_def Let_def)
  subgoal by (simp add: run_nilTx apply_SetFAQAnswer_def the_entry_def Let_def)
  subgoal by (simp add: run_nilTx apply_SetSource_def  Let_def)
  subgoal by (simp add: run_nilTx apply_AddSeeds_def  Let_def)
  done

locale result_of =
  fixes plan :: "'c \<Rightarrow> group_db plan" and lease :: "'c \<Rightarrow> int \<times> string \<times> int \<times> int"
    and now :: "group_db \<Rightarrow> 'c \<Rightarrow> int option"
  assumes gone: "now db c = None \<Longrightarrow> run_plan (plan c) db = Inl ErrGone"
    and refused: "now db c = Some cur \<Longrightarrow> lease c = (i, w, v, tm) \<Longrightarrow> finish_in i w v cur tm (jobs db) = (False, t) \<Longrightarrow>
      run_plan (plan c) db = Inr (VNil, db\<lparr>jobs := t\<rparr>)"
begin

lemma ignored:
  assumes "now db c = Some cur" and "lease c = (i, w, v, tm)"
    and "\<not> mine i w (jobs db) \<or> v \<noteq> cur"
  shows "\<exists>t. run_plan (plan c) db = Inr (VNil, db\<lparr>jobs := t\<rparr>)
    \<and> list_all2 (\<lambda>j j'. j' = j \<or> mine i w (jobs db) \<and> j_id j = i \<and> j' = freed j) (jobs db) t"
proof -
  obtain t where t: "finish_in i w v cur tm (jobs db) = (False, t)"
    "list_all2 (\<lambda>j j'. j' = j \<or> mine i w (jobs db) \<and> j_id j = i \<and> j' = freed j) (jobs db) t"
    using finish_refused[OF assms(3)] .
  from refused[OF assms(1,2) t(1)] t(2) show ?thesis by blast
qed

end

interpretation results: result_of "result_plan nl" lease_of version_now for nl :: "('u, 'a) net_lib_scheme"
proof unfold_locales
  fix db :: group_db and c
  assume "version_now db c = None"
  then show "run_plan (result_plan nl c) db = Inl ErrGone"
    by (cases c) (simp_all only: result_plan.simps version_now.simps map_option_is_None option.distinct gone_results)
next
  fix db :: group_db and c cur i w v tm t
  assume "version_now db c = Some cur" "lease_of c = (i, w, v, tm)" "finish_in i w v cur tm (jobs db) = (False, t)"
  then show "run_plan (result_plan nl c) db = Inr (VNil, db\<lparr>jobs := t\<rparr>)"
    by (cases c) (auto simp only: result_plan.simps lease_of.simps version_now.simps prod.inject option.inject intro: refused_results)
qed

text \<open>The job is not (or no longer) the worker's, or the text is not (or no longer) what it read.\<close>

definition lost_lease :: "group_db \<Rightarrow> result_cmd \<Rightarrow> bool" where
  "lost_lease db c = (case lease_of c of (i, w, v, _) \<Rightarrow>
     \<not> mine i w (jobs db) \<or> version_now db c \<noteq> Some v)"

text \<open>C32: a worker's result whose job is no longer its own (the lease went to another worker, or the job was
  given up or finished) or that is about an older text changes nothing but that job's lease, which goes back
  to the queue; a result about something that is gone is refused.\<close>

theorem stale_result_ignored:
  assumes "lost_lease db c"
  shows "if version_now db c = None then run_plan (result_plan nl c) db = Inl ErrGone
    else \<exists>t. run_plan (result_plan nl c) db = Inr (VNil, db\<lparr>jobs := t\<rparr>)
       \<and> list_all2 (\<lambda>j j'. j' = j \<or> mine (fst (lease_of c)) (fst (snd (lease_of c))) (jobs db) \<and> j_id j = fst (lease_of c) \<and> j' = freed j) (jobs db) t"
proof (cases "version_now db c")
  case None
  then show ?thesis by (simp add: results.gone)
next
  case (Some cur)
  obtain i w v tm where l: "lease_of c = (i, w, v, tm)" by (cases "lease_of c") auto
  with assms Some have "\<not> mine i w (jobs db) \<or> v \<noteq> cur"
    by (auto simp: lost_lease_def)
  from results.ignored[OF Some l this, of nl] Some l show ?thesis by simp
qed

text \<open>Worker \<open>a\<close> held job 9 on post 1 until its lease ran out and \<open>b\<close> took it: the verdict of \<open>a\<close> counts for nothing.\<close>

definition taken_over :: group_db where
  "taken_over = empty_group_db\<lparr>posts := [(new_post 1 (Some 70) ''pump'' ''leaks'' 20 20)\<lparr>p_version := 2\<rparr>],
     jobs := [\<lparr>j_id = 9, j_kind = JobCheck, j_ref = 1, j_ref_version = 2, j_run_after = 20, j_pending_since = 20, j_attempts = 2,
       j_claimed_by = Some ''b'', j_lease_until = Some 600, j_done_at = None, j_last_run = None, j_last_error = None, j_created = 20\<rparr>]\<rparr>"

lemma stale_result_ignored_witness:
  "run_plan (result_plan plain_net (R_Check (SetCheck.make 5 9 ''a'' 1 2 [] [] [] [] ''violation'' ''spam'' ''ad'' 90))) taken_over
   = Inr (VNil, taken_over)"
proof -
  let ?c = "R_Check (SetCheck.make 5 9 ''a'' 1 2 [] [] [] [] ''violation'' ''spam'' ''ad'' 90)"
  have "\<not> mine 9 ''a'' (jobs taken_over)" by (simp add: mine_def taken_over_def null_str_def)
  moreover have "lease_of ?c = (9, ''a'', 2, 90)" "version_now taken_over ?c = Some 2"
    by (simp_all add: SetCheck.defs taken_over_def get_post_def new_post_def)
  ultimately obtain t where "run_plan (result_plan plain_net ?c) taken_over = Inr (VNil, taken_over\<lparr>jobs := t\<rparr>)"
      "list_all2 (\<lambda>j j'. j' = j) (jobs taken_over) t"
    using stale_result_ignored[of taken_over ?c plain_net] by (auto simp: lost_lease_def simp del: result_plan.simps lease_of.simps version_now.simps)
  moreover from this(2) have "t = jobs taken_over" by (simp add: list_all2_conv_all_nth list_eq_iff_nth_eq)
  ultimately show ?thesis by simp
qed

end
