(* ===== verification/Commands.thy ===== *)
theory Commands
  imports GroupMachine SiteKeys
begin

text \<open>
  All commands of the program as one type, the log each belongs to (\<^verbatim>\<open>LogOf\<close> in \<^verbatim>\<open>logs.go\<close>), its
  type's name, and how a command is written in a log (\<^verbatim>\<open>codec.go\<close>): the name and the fields as JSON.
  JSON itself is a parameter.
\<close>

section \<open>The log of a command\<close>

text \<open>\<^verbatim>\<open>LogOf\<close> reads the field \<^verbatim>\<open>GroupID\<close> by reflection; here it is one equation per type.\<close>

fun upkeep_log :: "upkeep_cmd \<Rightarrow> int" where
  "upkeep_log (G_ClaimJob c) = ClaimJob.cj_GroupID c"
| "upkeep_log (G_FailJob c) = FailJob.fj_GroupID c"
| "upkeep_log (G_UpdateSettings c) = UpdateSettings.us_GroupID c"
| "upkeep_log (G_SaveFeedback c) = SaveFeedback.fb_GroupID c"
| "upkeep_log (G_ImportPost c) = ImportPost.ip_GroupID c"
| "upkeep_log (G_PurgeGroup c) = PurgeGroup.pg_GroupID c"

fun post_log :: "post_cmd \<Rightarrow> int" where
  "post_log (G_CreatePost c) = CreatePost.cp_GroupID c"
| "post_log (G_EditPost c) = EditPost.ep_GroupID c"
| "post_log (G_CreateComment c) = CreateComment.cc_GroupID c"
| "post_log (G_EditComment c) = EditComment.ec_GroupID c"
| "post_log (G_SoftDelete c) = SoftDelete.sd_GroupID c"
| "post_log (G_Restore c) = Restore.rs_GroupID c"
| "post_log (G_Helpful c) = Helpful.hv_GroupID c"
| "post_log (G_Follow c) = Follow.fw_GroupID c"
| "post_log (G_MarkRead c) = MarkRead.mr_GroupID c"
| "post_log (G_MarkEmailed c) = MarkEmailed.me_GroupID c"
| "post_log (G_DigestSent c) = DigestSent.ds_GroupID c"

fun people_log :: "people_cmd \<Rightarrow> int" where
  "people_log (G_SetCommentCheck c) = SetCommentCheck.scc_GroupID c"
| "people_log (G_Approve c) = Approve.ap_GroupID c"
| "people_log (G_Report c) = Report.rt_GroupID c"
| "people_log (G_Vote c) = Vote.vt_GroupID c"
| "people_log (G_SetPostFlag c) = SetPostFlag.sp_GroupID c"
| "people_log (G_SetRole c) = SetRole.sr_GroupID c"
| "people_log (G_Ban c) = Ban.bn_GroupID c"
| "people_log (G_Unban c) = Unban.ub_GroupID c"
| "people_log (G_JoinGroup c) = JoinGroup.jg_GroupID c"
| "people_log (G_ReviewJoin c) = ReviewJoin.rj_GroupID c"
| "people_log (G_CreateInvite c) = CreateInvite.ci_GroupID c"
| "people_log (G_RevokeInvite c) = RevokeInvite.ri_GroupID c"
| "people_log (G_LeaveGroup c) = LeaveGroup.lg_GroupID c"
| "people_log (G_RevealAuthor c) = RevealAuthor.ra_GroupID c"

fun link_log :: "link_cmd \<Rightarrow> int" where
  "link_log (G_AddLink c) = AddLink.al_GroupID c"
| "link_log (G_RemoveLink c) = RemoveLink.rk_GroupID c"
| "link_log (G_SetNote c) = SetNote.st_GroupID c"
| "link_log (G_MoveUnder c) = MoveUnder.mu_GroupID c"
| "link_log (G_MoveOut c) = MoveOut.mo_GroupID c"
| "link_log (G_SetCheck c) = SetCheck.sc_GroupID c"
| "link_log (G_SetDigest c) = SetDigest.dg_GroupID c"
| "link_log (G_SetSummary c) = SetSummary.ss_GroupID c"
| "link_log (G_ReverseNudge c) = ReverseNudge.rn_GroupID c"
| "link_log (G_RemoveNote c) = RemoveNote.rv_GroupID c"

fun sister_log :: "sister_cmd \<Rightarrow> int" where
  "sister_log (G_RemoveSisterLink c) = RemoveSisterLink.rl_GroupID c"
| "sister_log (G_MarkSisterStale c) = MarkSisterStale.mk_GroupID c"
| "sister_log (G_InitGroup c) = InitGroup.ig_GroupID c"
| "sister_log (G_DropSisterLinks c) = DropSisterLinks.dl_GroupID c"
| "sister_log (G_PutSisterSide c) = PutSisterSide.ps_GroupID c"
| "sister_log (G_ShowSisterNotes c) = ShowSisterNotes.sn_GroupID c"
| "sister_log (G_ModLogEntry c) = ModLogEntry.ml_GroupID c"
| "sister_log (G_OutboxDone c) = OutboxDone.od_GroupID c"

fun faq_log :: "faq_cmd \<Rightarrow> int" where
  "faq_log (G_CreateTopic c) = CreateTopic.ct_GroupID c"
| "faq_log (G_EditTopic c) = EditTopic.et_GroupID c"
| "faq_log (G_CreateFAQEntry c) = CreateFAQEntry.cf_GroupID c"
| "faq_log (G_AddFAQSource c) = AddFAQSource.as_GroupID c"
| "faq_log (G_RemoveFAQSource c) = RemoveFAQSource.rf_GroupID c"
| "faq_log (G_EditFAQEntry c) = EditFAQEntry.ee_GroupID c"
| "faq_log (G_RollbackFAQEntry c) = RollbackFAQEntry.rb_GroupID c"
| "faq_log (G_SetFAQAnswer c) = SetFAQAnswer.sf_GroupID c"
| "faq_log (G_AddFAQComment c) = AddFAQComment.afc_GroupID c"
| "faq_log (G_RemoveFAQComment c) = RemoveFAQComment.rfc_GroupID c"
| "faq_log (G_SetPostTopics c) = SetPostTopics.sp_GroupID c"
| "faq_log (G_TidyTopics c) = TidyTopics.tt_GroupID c"
| "faq_log (G_QueueGroupFAQ c) = QueueGroupFAQ.qg_GroupID c"

fun page_log :: "page_cmd \<Rightarrow> int" where
  "page_log (G_AddSource c) = AddSource.ax_GroupID c"
| "page_log (G_SetSource c) = SetSource.rd_GroupID c"
| "page_log (G_AddSeeds c) = AddSeeds.ad_GroupID c"
| "page_log (G_ApproveSources c) = ApproveSources.av_GroupID c"
| "page_log (G_RemoveSource c) = RemoveSource.rz_GroupID c"
| "page_log (G_RestoreSource c) = RestoreSource.rq_GroupID c"
| "page_log (G_AllowDomain c) = AllowDomain.aw_GroupID c"
| "page_log (G_DetachSource c) = DetachSource.dt_GroupID c"
| "page_log (G_RequestArchiveRemoval c) = RequestArchiveRemoval.rar_GroupID c"

fun group_of :: "group_cmd \<Rightarrow> int" where
  "group_of (Upkeep c) = upkeep_log c"
| "group_of (OnPosts c) = post_log c"
| "group_of (OnPeople c) = people_log c"
| "group_of (OnLinks c) = link_log c"
| "group_of (OnSisters c) = sister_log c"
| "group_of (OnFAQ c) = faq_log c"
| "group_of (OnPages c) = page_log c"

datatype command = OnSite site_cmd | OnGroup group_cmd

text \<open>A site command has no \<^verbatim>\<open>GroupID\<close>, a marked one (\<^verbatim>\<open>siteLog\<close>), or, \<^verbatim>\<open>OutboxDone\<close>'s, zero.\<close>

definition LogOf :: "command \<Rightarrow> int" where
  "LogOf c = (case c of OnSite _ \<Rightarrow> SiteLog | OnGroup g \<Rightarrow> if group_of g > 0 then group_of g else SiteLog)"

section \<open>Names\<close>

fun upkeep_name :: "upkeep_cmd \<Rightarrow> string" where
  "upkeep_name (G_ClaimJob c) = ''ClaimJob''"
| "upkeep_name (G_FailJob c) = ''FailJob''"
| "upkeep_name (G_UpdateSettings c) = ''UpdateSettings''"
| "upkeep_name (G_SaveFeedback c) = ''SaveFeedback''"
| "upkeep_name (G_ImportPost c) = ''ImportPost''"
| "upkeep_name (G_PurgeGroup c) = ''PurgeGroup''"

fun post_name :: "post_cmd \<Rightarrow> string" where
  "post_name (G_CreatePost c) = ''CreatePost''"
| "post_name (G_EditPost c) = ''EditPost''"
| "post_name (G_CreateComment c) = ''CreateComment''"
| "post_name (G_EditComment c) = ''EditComment''"
| "post_name (G_SoftDelete c) = ''SoftDelete''"
| "post_name (G_Restore c) = ''Restore''"
| "post_name (G_Helpful c) = ''Helpful''"
| "post_name (G_Follow c) = ''Follow''"
| "post_name (G_MarkRead c) = ''MarkRead''"
| "post_name (G_MarkEmailed c) = ''MarkEmailed''"
| "post_name (G_DigestSent c) = ''DigestSent''"

fun people_name :: "people_cmd \<Rightarrow> string" where
  "people_name (G_SetCommentCheck c) = ''SetCommentCheck''"
| "people_name (G_Approve c) = ''Approve''"
| "people_name (G_Report c) = ''Report''"
| "people_name (G_Vote c) = ''Vote''"
| "people_name (G_SetPostFlag c) = ''SetPostFlag''"
| "people_name (G_SetRole c) = ''SetRole''"
| "people_name (G_Ban c) = ''Ban''"
| "people_name (G_Unban c) = ''Unban''"
| "people_name (G_JoinGroup c) = ''JoinGroup''"
| "people_name (G_ReviewJoin c) = ''ReviewJoin''"
| "people_name (G_CreateInvite c) = ''CreateInvite''"
| "people_name (G_RevokeInvite c) = ''RevokeInvite''"
| "people_name (G_LeaveGroup c) = ''LeaveGroup''"
| "people_name (G_RevealAuthor c) = ''RevealAuthor''"

fun link_name :: "link_cmd \<Rightarrow> string" where
  "link_name (G_AddLink c) = ''AddLink''"
| "link_name (G_RemoveLink c) = ''RemoveLink''"
| "link_name (G_SetNote c) = ''SetNote''"
| "link_name (G_MoveUnder c) = ''MoveUnder''"
| "link_name (G_MoveOut c) = ''MoveOut''"
| "link_name (G_SetCheck c) = ''SetCheck''"
| "link_name (G_SetDigest c) = ''SetDigest''"
| "link_name (G_SetSummary c) = ''SetSummary''"
| "link_name (G_ReverseNudge c) = ''ReverseNudge''"
| "link_name (G_RemoveNote c) = ''RemoveNote''"

fun sister_name :: "sister_cmd \<Rightarrow> string" where
  "sister_name (G_RemoveSisterLink c) = ''RemoveSisterLink''"
| "sister_name (G_MarkSisterStale c) = ''MarkSisterStale''"
| "sister_name (G_InitGroup c) = ''InitGroup''"
| "sister_name (G_DropSisterLinks c) = ''DropSisterLinks''"
| "sister_name (G_PutSisterSide c) = ''PutSisterSide''"
| "sister_name (G_ShowSisterNotes c) = ''ShowSisterNotes''"
| "sister_name (G_ModLogEntry c) = ''ModLogEntry''"
| "sister_name (G_OutboxDone c) = ''OutboxDone''"

fun faq_name :: "faq_cmd \<Rightarrow> string" where
  "faq_name (G_CreateTopic c) = ''CreateTopic''"
| "faq_name (G_EditTopic c) = ''EditTopic''"
| "faq_name (G_CreateFAQEntry c) = ''CreateFAQEntry''"
| "faq_name (G_AddFAQSource c) = ''AddFAQSource''"
| "faq_name (G_RemoveFAQSource c) = ''RemoveFAQSource''"
| "faq_name (G_EditFAQEntry c) = ''EditFAQEntry''"
| "faq_name (G_RollbackFAQEntry c) = ''RollbackFAQEntry''"
| "faq_name (G_SetFAQAnswer c) = ''SetFAQAnswer''"
| "faq_name (G_AddFAQComment c) = ''AddFAQComment''"
| "faq_name (G_RemoveFAQComment c) = ''RemoveFAQComment''"
| "faq_name (G_SetPostTopics c) = ''SetPostTopics''"
| "faq_name (G_TidyTopics c) = ''TidyTopics''"
| "faq_name (G_QueueGroupFAQ c) = ''QueueGroupFAQ''"

fun page_name :: "page_cmd \<Rightarrow> string" where
  "page_name (G_AddSource c) = ''AddSource''"
| "page_name (G_SetSource c) = ''SetSource''"
| "page_name (G_AddSeeds c) = ''AddSeeds''"
| "page_name (G_ApproveSources c) = ''ApproveSources''"
| "page_name (G_RemoveSource c) = ''RemoveSource''"
| "page_name (G_RestoreSource c) = ''RestoreSource''"
| "page_name (G_AllowDomain c) = ''AllowDomain''"
| "page_name (G_DetachSource c) = ''DetachSource''"
| "page_name (G_RequestArchiveRemoval c) = ''RequestArchiveRemoval''"

fun site_name :: "site_cmd \<Rightarrow> string" where
  "site_name (S_SetPrimaryDomain c) = ''SetPrimaryDomain''"
| "site_name (S_AddAlternateDomain c) = ''AddAlternateDomain''"
| "site_name (S_AddHostAlias c) = ''AddHostAlias''"
| "site_name (S_CreateGroup c) = ''CreateGroup''"
| "site_name (S_PutCert c) = ''PutCert''"
| "site_name (S_DeleteCert c) = ''DeleteCert''"
| "site_name (S_CreateLogin c) = ''CreateLogin''"
| "site_name (S_FailLoginCode c) = ''FailLoginCode''"
| "site_name (S_RedeemLogin c) = ''RedeemLogin''"
| "site_name (S_SetHandle c) = ''SetHandle''"
| "site_name (S_EndSession c) = ''EndSession''"
| "site_name (S_SetGroupHost c) = ''SetGroupHost''"
| "site_name (S_StartBounce c) = ''StartBounce''"
| "site_name (S_FinishBounce c) = ''FinishBounce''"
| "site_name (S_SuspendUser c) = ''SuspendUser''"
| "site_name (S_SetNotifyPrefs c) = ''SetNotifyPrefs''"
| "site_name (S_SetProfile c) = ''SetProfile''"
| "site_name (S_Purge c) = ''Purge''"
| "site_name (S_RegisterNode c) = ''RegisterNode''"
| "site_name (S_RemoveNode c) = ''RemoveNode''"
| "site_name (S_PlaceGroup c) = ''PlaceGroup''"
| "site_name (S_UnplaceGroup c) = ''UnplaceGroup''"
| "site_name (S_ProposeSister c) = ''ProposeSister''"
| "site_name (S_AnswerSister c) = ''AnswerSister''"
| "site_name (S_EndSister c) = ''EndSister''"
| "site_name (S_MirrorGroup c) = ''MirrorGroup''"
| "site_name (S_OutboxDone c) = ''OutboxDone''"
| "site_name (S_QueueFAQ c) = ''QueueFAQ''"

fun group_name :: "group_cmd \<Rightarrow> string" where
  "group_name (Upkeep c) = upkeep_name c"
| "group_name (OnPosts c) = post_name c"
| "group_name (OnPeople c) = people_name c"
| "group_name (OnLinks c) = link_name c"
| "group_name (OnSisters c) = sister_name c"
| "group_name (OnFAQ c) = faq_name c"
| "group_name (OnPages c) = page_name c"

definition nameOf :: "command \<Rightarrow> string" where
  "nameOf c = (case c of OnSite s \<Rightarrow> site_name s | OnGroup g \<Rightarrow> group_name g)"

definition registry :: "string list" where
  "registry =
  [''SetPrimaryDomain'', ''AddAlternateDomain'', ''AddHostAlias'', ''CreateGroup'', ''CreateLogin'',
    ''FailLoginCode'', ''RedeemLogin'', ''SetHandle'', ''EndSession'', ''PutCert'', ''DeleteCert'', ''Purge'',
    ''JoinGroup'', ''CreatePost'', ''EditPost'', ''CreateComment'', ''EditComment'', ''SoftDelete'',
    ''Restore'', ''ImportPost'', ''ClaimJob'', ''FailJob'', ''AddLink'', ''RemoveLink'', ''SetCheck'',
    ''SetNote'', ''SetDigest'', ''MoveUnder'', ''MoveOut'', ''UpdateSettings'', ''RecordUsage'',
    ''SaveFeedback'', ''CreateTopic'', ''EditTopic'', ''CreateFAQEntry'', ''EditFAQEntry'',
    ''RollbackFAQEntry'', ''SetFAQAnswer'', ''AddFAQSource'', ''RemoveFAQSource'', ''AddFAQComment'',
    ''RemoveFAQComment'', ''SetPostTopics'', ''TidyTopics'', ''QueueFAQ'', ''SetSummary'', ''ReverseNudge'',
    ''RemoveNote'', ''AddSource'', ''SetSource'', ''AddSeeds'', ''ApproveSources'', ''RemoveSource'',
    ''RestoreSource'', ''AllowDomain'', ''DetachSource'', ''RequestArchiveRemoval'', ''ReviewJoin'',
    ''CreateInvite'', ''RevokeInvite'', ''LeaveGroup'', ''RevealAuthor'', ''ProposeSister'', ''AnswerSister'',
    ''EndSister'', ''RemoveSisterLink'', ''MarkSisterStale'', ''SetCommentCheck'', ''Approve'', ''Report'',
    ''Vote'', ''SetPostFlag'', ''SetRole'', ''Ban'', ''Unban'', ''SuspendUser'', ''Helpful'', ''Follow'',
    ''MarkRead'', ''MarkEmailed'', ''SetNotifyPrefs'', ''DigestSent'', ''SetProfile'', ''SetGroupHost'',
    ''StartBounce'', ''FinishBounce'', ''OutboxDone'', ''ModLogEntry'', ''InitGroup'', ''MirrorGroup'',
    ''DropSisterLinks'', ''PutSisterSide'', ''ShowSisterNotes'', ''PurgeGroup'', ''QueueGroupFAQ'',
    ''RegisterNode'', ''RemoveNode'', ''PlaceGroup'', ''UnplaceGroup'']"

section \<open>Commands as bytes\<close>

text \<open>
  What the code uses of \<^verbatim>\<open>encoding/json\<close>: a command's fields as JSON, the envelope around them, both ways.
  \<open>jl_fields n b\<close> reads \<open>b\<close> into a new value of the type named \<open>n\<close>.
\<close>

record json_lib =
  jl_body :: "command \<Rightarrow> go_error + string"
  jl_seal :: "string \<times> string \<Rightarrow> go_error + string"
  jl_open :: "string \<Rightarrow> go_error + string \<times> string"
  jl_fields :: "string \<Rightarrow> string \<Rightarrow> go_error + command"

definition Encode :: "json_lib \<Rightarrow> command \<Rightarrow> go_error + string" where
  "Encode jl c =
     (let nm = nameOf c in
      if nm \<notin> set registry then Inl (PlainErr (''command '' @ nm @ '' is not in the registry''))
      else bindE (jl_body jl c) (\<lambda>body. jl_seal jl (nm, body)))"

definition Decode :: "json_lib \<Rightarrow> string \<Rightarrow> go_error + command" where
  "Decode jl bytes =
     bindE (jl_open jl bytes) (\<lambda>(typ, body).
       if typ \<notin> set registry then Inl (QuotedErr ''unknown command '' typ [])
       else case jl_fields jl typ body of
              Inl e \<Rightarrow> Inl (Wrapped (typ @ '': '') e)
            | Inr c \<Rightarrow> Inr c)"

lemma registered_parts:
  "site_name a \<in> set registry" "upkeep_name b \<in> set registry" "post_name c \<in> set registry"
  "people_name d \<in> set registry" "link_name e \<in> set registry" "sister_name f \<in> set registry"
  "faq_name g \<in> set registry" "page_name h \<in> set registry"
  subgoal by (cases a; simp only: site_name.simps registry_def list.set; (rule insertI1 | rule insertI2)+)
  subgoal by (cases b; simp only: upkeep_name.simps registry_def list.set; (rule insertI1 | rule insertI2)+)
  subgoal by (cases c; simp only: post_name.simps registry_def list.set; (rule insertI1 | rule insertI2)+)
  subgoal by (cases d; simp only: people_name.simps registry_def list.set; (rule insertI1 | rule insertI2)+)
  subgoal by (cases e; simp only: link_name.simps registry_def list.set; (rule insertI1 | rule insertI2)+)
  subgoal by (cases f; simp only: sister_name.simps registry_def list.set; (rule insertI1 | rule insertI2)+)
  subgoal by (cases g; simp only: faq_name.simps registry_def list.set; (rule insertI1 | rule insertI2)+)
  subgoal by (cases h; simp only: page_name.simps registry_def list.set; (rule insertI1 | rule insertI2)+)
  done

lemma registered: "nameOf c \<in> set registry"
  unfolding nameOf_def
proof (cases c)
  case (OnGroup g)
  then show "(case c of OnSite s \<Rightarrow> site_name s | OnGroup g \<Rightarrow> group_name g) \<in> set registry"
    by (cases g) (simp_all add: registered_parts)
qed (simp add: registered_parts)


text \<open>An entry of a log is decoded to the command that was encoded, and one whose envelope names no type of the
  registry (an entry a newer program wrote) is refused, not skipped. JSON's own part is assumed: that the envelope and the
  fields of this command are read back as they were written.\<close>

theorem decode_encode:
  assumes "jl_body jl c = Inr body" "jl_seal jl (nameOf c, body) = Inr bytes"
    and "jl_open jl bytes = Inr (nameOf c, body)" "jl_fields jl (nameOf c) body = Inr c"
    and "jl_open jl newer = Inr (typ, b)" "typ \<notin> set registry"
  shows "Encode jl c = Inr bytes \<and> Decode jl bytes = Inr c \<and> Decode jl newer = Inl (QuotedErr ''unknown command '' typ [])"
  using assms by (simp add: registered Encode_def Decode_def)

end
