(* ===== verification/Direct.thy ===== *)
theory Direct
  imports Commands "HOL-Library.AList"
begin

text \<open>
  The whole program on one machine: \<^verbatim>\<open>cmd.Direct\<close> (\<^verbatim>\<open>direct.go\<close>), the engine of \<^verbatim>\<open>cluster.Local\<close>. It
  holds the site's file, the groups' files and one index per log, runs a command on its log's file, and
  relays outboxes until they are all empty. \<open>drain\<close> is the code's loop, with no bound: that it ends is
  \<open>drain_ends\<close>.
\<close>

section \<open>The store and one command\<close>

text \<open>\<open>dir_groups\<close>: the group files there are, by id. \<open>dir_index\<close>: the map \<^verbatim>\<open>index\<close>.\<close>

record direct =
  dir_site :: "site_db dbfile"
  dir_groups :: "(int \<times> group_db dbfile) list"
  dir_index :: "int \<rightharpoonup> nat"

definition empty_direct :: direct where
  "empty_direct = \<lparr>dir_site = \<lparr>applied = 0, content = empty_site_db\<rparr>, dir_groups = [], dir_index = Map.empty\<rparr>"

definition group_file :: "direct \<Rightarrow> int \<Rightarrow> group_db dbfile option" where
  "group_file d g = map_of (dir_groups d) g"

definition GroupOrCreate :: "direct \<Rightarrow> int \<Rightarrow> group_db dbfile" where
  "GroupOrCreate d g = (case group_file d g of None \<Rightarrow> \<lparr>applied = 0, content = empty_group_db\<rparr> | Some f \<Rightarrow> f)"

definition FileApplied :: "direct \<Rightarrow> int \<Rightarrow> nat" where
  "FileApplied d lg =
     (if lg = 0 then applied (dir_site d)
      else case group_file d lg of None \<Rightarrow> 0 | Some f \<Rightarrow> applied f)"

fun has_tx :: "'db plan \<Rightarrow> bool" where
  "has_tx (Tx _ _) = True"
| "has_tx _ = False"

text \<open>
  \<^verbatim>\<open>Run\<close> on the store: the command's \<^verbatim>\<open>Apply\<close> gets a transaction on the file its log is for. \<^verbatim>\<open>Applier.Group\<close>
  refuses when the log is not the group's, and makes the file when there is none.
\<close>

definition Run_store :: "('u, 'a) net_lib_scheme \<Rightarrow> int \<Rightarrow> nat \<Rightarrow> command \<Rightarrow> direct \<Rightarrow> (go_error + retval) \<times> direct" where
  "Run_store nl lg idx c d =
     (case c of
        OnSite s \<Rightarrow>
          let (r, f) = Run (\<lambda>s. LogOf (OnSite s)) site_name (site_plan (ToLower nl)) lg idx s (dir_site d)
          in (r, d\<lparr>dir_site := f\<rparr>)
      | OnGroup g \<Rightarrow>
          if has_tx (group_plan nl g) \<and> LogOf c = lg \<and> lg \<noteq> group_of g
          then (Inl (Wrapped (nameOf c @ '': '') (PlainErr (''a command on log '' @ LogID_String lg
                  @ '' tried to write group '' @ FormatInt (group_of g) @ [CHR 0x27] @ ''s file''))), d)
          else let (r, f) = Run (\<lambda>g. LogOf (OnGroup g)) group_name (group_plan nl) lg idx g (GroupOrCreate d (group_of g))
               in (r, if has_tx (group_plan nl g) \<and> LogOf c = lg
                      then d\<lparr>dir_groups := AList.update (group_of g) f (dir_groups d)\<rparr> else d))"

definition next_index :: "direct \<Rightarrow> int \<Rightarrow> nat" where
  "next_index d lg = (case dir_index d lg of Some n \<Rightarrow> n | None \<Rightarrow> FileApplied d lg) + 1"

definition run :: "('u, 'a) net_lib_scheme \<Rightarrow> command \<Rightarrow> direct \<Rightarrow> (go_error + retval) \<times> direct" where
  "run nl c d =
     (let lg = LogOf c; idx = next_index d lg
      in Run_store nl lg idx c (d\<lparr>dir_index := (dir_index d)(lg \<mapsto> idx)\<rparr>))"

section \<open>The relay\<close>

definition outbox_of :: "direct \<Rightarrow> int \<Rightarrow> outbox_item list" where
  "outbox_of d lg =
     (if lg = 0 then site_outbox (content (dir_site d))
      else case group_file d lg of None \<Rightarrow> [] | Some f \<Rightarrow> outbox (content f))"

definition Outbox :: "direct \<Rightarrow> int \<Rightarrow> nat \<Rightarrow> outbox_item list" where
  "Outbox d lg limit = take limit (sort_key ob_id (outbox_of d lg))"

text \<open>What a follow-up is as a command, decoded.\<close>

fun as_command :: "followup \<Rightarrow> command" where
  "as_command (F_InitGroup c) = OnGroup (OnSisters (G_InitGroup c))"
| "as_command (F_MirrorGroup c) = OnSite (S_MirrorGroup c)"
| "as_command (F_DropSisterLinks c) = OnGroup (OnSisters (G_DropSisterLinks c))"
| "as_command (F_PutSisterSide c) = OnGroup (OnSisters (G_PutSisterSide c))"
| "as_command (F_ShowSisterNotes c) = OnGroup (OnSisters (G_ShowSisterNotes c))"
| "as_command (F_RemoveSisterLink c) = OnGroup (OnSisters (G_RemoveSisterLink c))"
| "as_command (F_ModLogEntry c) = OnGroup (OnSisters (G_ModLogEntry c))"
| "as_command (F_PurgeGroup c) = OnGroup (Upkeep (G_PurgeGroup c))"
| "as_command (F_QueueGroupFAQ c) = OnGroup (OnFAQ (G_QueueGroupFAQ c))"

definition outbox_done :: "int \<Rightarrow> int \<Rightarrow> command" where
  "outbox_done lg upTo =
     (if lg = 0 then OnSite (S_OutboxDone \<lparr>od_GroupID = 0, od_UpTo = upTo\<rparr>)
      else OnGroup (OnSisters (G_OutboxDone \<lparr>od_GroupID = lg, od_UpTo = upTo\<rparr>)))"

text \<open>The loop over the items: the error that stops it, and the logs it wrote to.\<close>

fun relay_items :: "('u, 'a) net_lib_scheme \<Rightarrow> outbox_item list \<Rightarrow> direct \<Rightarrow> go_error option \<times> int list \<times> direct" where
  "relay_items nl [] d = (None, [], d)"
| "relay_items nl (it # its) d =
     (let fc = as_command (ob_command it); (r, d1) = run nl fc d in
      case r of
        Inl e \<Rightarrow>
          if \<not> IsInput e then (Some e, [], d1)
          else let (err, logs, d2) = relay_items nl its d1 in (err, LogOf fc # logs, d2)
      | Inr _ \<Rightarrow> let (err, logs, d2) = relay_items nl its d1 in (err, LogOf fc # logs, d2))"

partial_function (option) drain ::
    "('u, 'a) net_lib_scheme \<Rightarrow> int list \<Rightarrow> direct \<Rightarrow> (go_error option \<times> direct) option" where
  "drain nl pending d =
     (case pending of
        [] \<Rightarrow> Some (None, d)
      | lg # rest \<Rightarrow>
        if lg \<noteq> 0 \<and> group_file d lg = None then drain nl rest d
        else let items = Outbox d lg 1000 in
          if items = [] then drain nl rest d
          else case relay_items nl items d of
            (Some e, _, d1) \<Rightarrow> Some (Some e, d1)
          | (None, logs, d1) \<Rightarrow>
              (case run nl (outbox_done lg (ob_id (last items))) d1 of
                 (Inl e, d2) \<Rightarrow> Some (Some e, d2)
               | (Inr _, d2) \<Rightarrow> drain nl (rest @ logs @ [lg]) d2))"

definition Apply :: "('u, 'a) net_lib_scheme \<Rightarrow> command \<Rightarrow> direct \<Rightarrow> ((go_error + retval) \<times> direct) option" where
  "Apply nl c d =
     (case run nl c d of
        (Inl e, d1) \<Rightarrow> Some (Inl e, d1)
      | (Inr v, d1) \<Rightarrow>
        (case drain nl [LogOf c] d1 of
           None \<Rightarrow> None
         | Some (Some e, d2) \<Rightarrow> Some (Inl e, d2)
         | Some (None, d2) \<Rightarrow> Some (Inr v, d2)))"

end
