(* ===== verification/Drain.thy ===== *)
theory Drain
  imports Direct
begin

text \<open>
  The relay of \<^verbatim>\<open>Direct\<close> ends, and leaves nothing to relay. A follow-up may send one more (a cross-link
  taken down is echoed to the other group), and that one sends none: \<open>weight\<close> counts both, and every
  round of the loop takes more weight out of the outboxes than it puts in.
\<close>

section \<open>What a follow-up sends on\<close>

fun echoes :: "followup \<Rightarrow> bool" where
  "echoes (F_RemoveSisterLink c) = (\<not> rl_Echo c)"
| "echoes _ = False"

definition weight :: "outbox_item list \<Rightarrow> nat" where
  "weight its = sum_list (map (\<lambda>i. if echoes (ob_command i) then 2 else 1) its)"

lemma weight_simps [simp]:
  "weight [] = 0" "weight (i # is) = (if echoes (ob_command i) then 2 else 1) + weight is"
  "weight (xs @ ys) = weight xs + weight ys"
  by (simp_all add: weight_def)

lemma weight_len: "length its \<le> weight its"
  by (induction its) auto

lemma weight_filter: "weight (filter P its) \<le> weight its"
  by (induction its) auto

lemma weight_insort: "weight (insort_key f i its) = weight (i # its)"
  by (induction its) auto

lemma weight_sort [simp]: "weight (sort_key f its) = weight its"
  by (induction its) (simp_all add: weight_insort)

definition adds :: "nat \<Rightarrow> group_db \<Rightarrow> group_db \<Rightarrow> bool" where
  "adds n db db' \<longleftrightarrow> (\<exists>its. outbox db' = outbox db @ its \<and> weight its \<le> n)"

lemma adds_same [intro]: "outbox db' = outbox db \<Longrightarrow> adds n db db'"
  by (auto simp: adds_def intro: exI[of _ "[]"])

named_theorems sends_nothing

lemma modLog_outbox [sends_nothing]: "outbox (modLog b a k i r t db) = outbox db"
  by (simp add: modLog_def)

lemma putSisterLink_outbox: "putSisterLink p g x ti d s t db = (ok, db') \<Longrightarrow> outbox db' = outbox db"
  by (auto simp: putSisterLink_def Let_def split: option.splits if_splits)

lemma linkNote_outbox: "linkNote g h x i e t db = Inr db' \<Longrightarrow> outbox db' = outbox db"
  by (auto simp: linkNote_def Let_def bind_iffs frame split: option.splits)

lemma fold_outbox: "(\<And>x d. outbox (f x d) = outbox d) \<Longrightarrow> outbox (fold f xs db) = outbox db"
  by (induction xs arbitrary: db) simp_all

lemma queueFAQ_outbox [sends_nothing]: "outbox (queueFAQ w t db) = outbox db"
  by (simp add: queueFAQ_def Let_def fold_outbox schedule_frame)

lemma purge_stages_outbox:
  "outbox (purge_items t db) = outbox db" "outbox (purge_versions t db) = outbox db" "outbox (purge_notes g db) = outbox db"
  "outbox (purge_on_posts db) = outbox db" "outbox (purge_engagement t db) = outbox db" "outbox (purge_rest t db) = outbox db"
  subgoal by (simp add: purge_items_def Let_def)
  subgoal by (simp add: purge_versions_def Let_def)
  subgoal by (simp add: purge_notes_def Let_def)
  subgoal by (simp add: purge_on_posts_def)
  subgoal by (simp add: purge_engagement_def)
  subgoal by (simp add: purge_rest_def)
  done

lemma purge_file_outbox [sends_nothing]: "outbox (purge_file g t db) = outbox db"
  by (simp add: purge_file_def purge_stages_outbox)

lemma InitGroup_outbox: "run_plan (apply_InitGroup c) db = Inr (v, db') \<Longrightarrow> outbox db' = outbox db"
  by (auto simp: apply_InitGroup_def run_nilTx Let_def split: option.splits)

lemma DropSisterLinks_outbox: "run_plan (apply_DropSisterLinks c) db = Inr (v, db') \<Longrightarrow> outbox db' = outbox db"
  by (auto simp: apply_DropSisterLinks_def run_nilTx Let_def sends_nothing)

lemma PutSisterSide_outbox: "run_plan (apply_PutSisterSide c) db = Inr (v, db') \<Longrightarrow> outbox db' = outbox db"
  by (auto simp: apply_PutSisterSide_def run_nilTx bind_iffs dest!: putSisterLink_outbox linkNote_outbox
      split: option.splits if_splits prod.splits)

lemma ShowSisterNotes_outbox: "run_plan (apply_ShowSisterNotes c) db = Inr (v, db') \<Longrightarrow> outbox db' = outbox db"
  by (auto simp: apply_ShowSisterNotes_def run_nilTx split: if_splits)

lemma ModLogEntry_outbox: "run_plan (apply_ModLogEntry c) db = Inr (v, db') \<Longrightarrow> outbox db' = outbox db"
  by (auto simp: apply_ModLogEntry_def run_nilTx sends_nothing)

lemma PurgeGroup_outbox: "run_plan (apply_PurgeGroup c) db = Inr (v, db') \<Longrightarrow> outbox db' = outbox db"
  by (auto simp: apply_PurgeGroup_def run_nilTx sends_nothing)

lemma QueueGroupFAQ_outbox: "run_plan (apply_QueueGroupFAQ c) db = Inr (v, db') \<Longrightarrow> outbox db' = outbox db"
  by (auto simp: apply_QueueGroupFAQ_def run_nilTx bind_iffs sends_nothing split: option.splits if_splits)

lemma RemoveSisterLink_outbox:
  "run_plan (apply_RemoveSisterLink c) db = Inr (v, db') \<Longrightarrow> adds (of_bool (\<not> rl_Echo c)) db db'"
  by (auto simp: apply_RemoveSisterLink_def run_nilTx Let_def send_def sends_nothing adds_def split: if_splits)

lemma followup_adds:
  assumes "as_command fc = OnGroup g" "run_plan (group_plan nl g) db = Inr (v, db')"
  shows "adds (of_bool (echoes fc)) db db'"
  using assms
  by (cases fc) (auto intro: adds_same dest!: InitGroup_outbox DropSisterLinks_outbox PutSisterSide_outbox
      ShowSisterNotes_outbox ModLogEntry_outbox PurgeGroup_outbox QueueGroupFAQ_outbox RemoveSisterLink_outbox)

section \<open>One command on the store\<close>

text \<open>No index is behind its file, so no entry is taken for one applied before.\<close>

definition index_ok :: "direct \<Rightarrow> bool" where
  "index_ok d \<longleftrightarrow> (\<forall>lg n. dir_index d lg = Some n \<longrightarrow> FileApplied d lg \<le> n)"

lemma next_index_gt: "index_ok d \<Longrightarrow> FileApplied d lg < next_index d lg"
  by (auto simp: index_ok_def next_index_def less_Suc_eq_le split: option.splits)

lemma LogOf_simps [simp]:
  "LogOf (OnSite s) = 0" "LogOf (OnGroup g) = (if group_of g > 0 then group_of g else 0)"
  by (simp_all add: LogOf_def)

lemma LogOf_nonneg: "0 \<le> LogOf c"
  by (cases c) simp_all

lemma run_cases:
  assumes "run nl c d = (r, d')"
  obtains
    (site) s f where "c = OnSite s"
      "d' = d\<lparr>dir_index := (dir_index d)(0 \<mapsto> next_index d 0), dir_site := f\<rparr>"
      "Run (\<lambda>s. LogOf (OnSite s)) site_name (site_plan (ToLower nl)) 0 (next_index d 0) s (dir_site d) = (r, f)"
  | (group) g f where "c = OnGroup g" "0 \<le> group_of g"
      "d' = d\<lparr>dir_index := (dir_index d)(group_of g \<mapsto> next_index d (group_of g)),
              dir_groups := AList.update (group_of g) f (dir_groups d)\<rparr>"
      "Run (\<lambda>g. LogOf (OnGroup g)) group_name (group_plan nl) (group_of g) (next_index d (group_of g)) g
         (GroupOrCreate d (group_of g)) = (r, f)"
  | (none) g where "c = OnGroup g" "\<not> has_tx (group_plan nl g) \<or> (\<exists>e. r = Inl e)"
      "d' = d\<lparr>dir_index := (dir_index d)(LogOf c \<mapsto> next_index d (LogOf c))\<rparr>"
proof (cases c)
  case (OnSite s)
  obtain r' f where f: "Run (\<lambda>s. LogOf (OnSite s)) site_name (site_plan (ToLower nl)) 0 (next_index d 0) s (dir_site d) = (r', f)"
    by fastforce
  with assms OnSite have "r' = r" "d' = d\<lparr>dir_index := (dir_index d)(0 \<mapsto> next_index d 0), dir_site := f\<rparr>"
    by (simp_all add: run_def Run_store_def Let_def)
  with OnSite f show ?thesis by (intro site) simp_all
next
  case (OnGroup g)
  let ?lg = "LogOf (OnGroup g)"
  consider (tx) "has_tx (group_plan nl g)" "?lg = group_of g" | (wrong) "has_tx (group_plan nl g)" "?lg \<noteq> group_of g"
    | (quick) "\<not> has_tx (group_plan nl g)" by blast
  then show ?thesis
  proof cases
    case tx
    then have nn: "0 \<le> group_of g" by (metis LogOf_nonneg)
    obtain f where f: "Run (\<lambda>g. LogOf (OnGroup g)) group_name (group_plan nl) (group_of g) (next_index d (group_of g)) g
         (GroupOrCreate d (group_of g)) = (r, f)"
      "d' = d\<lparr>dir_index := (dir_index d)(group_of g \<mapsto> next_index d (group_of g)),
              dir_groups := AList.update (group_of g) f (dir_groups d)\<rparr>"
      using assms tx unfolding OnGroup run_def Run_store_def Let_def command.case tx(2)
      by (auto simp: GroupOrCreate_def group_file_def split: prod.splits)
    show ?thesis by (rule group[OF OnGroup nn f(2,1)])
  next
    case wrong
    with assms show ?thesis
      by (intro none[of g]) (auto simp: OnGroup run_def Run_store_def Let_def simp del: LogOf_simps)
  next
    case quick
    with assms show ?thesis
      by (intro none[of g]) (auto simp: OnGroup run_def Run_store_def Let_def simp del: LogOf_simps split: prod.splits)
  qed
qed

lemma group_file_update:
  "group_file (d\<lparr>dir_index := ix, dir_groups := AList.update g f (dir_groups d)\<rparr>) = (group_file d)(g \<mapsto> f)"
  by (rule ext) (simp add: group_file_def update_conv)

lemma group_file_site [simp]:
  "group_file (d\<lparr>dir_index := ix, dir_site := f\<rparr>) g = group_file d g" "group_file (d\<lparr>dir_index := ix\<rparr>) g = group_file d g"
  by (simp_all add: group_file_def)

lemma run_index_ok:
  assumes "run nl c d = (r, d')" and ok: "index_ok d"
  shows "index_ok d'"
  using assms(1)
proof (cases rule: run_cases)
  case (site s f)
  have "f = dir_site d \<or> applied f = next_index d 0"
    using Run_advance[of _ site_name "site_plan (ToLower nl)" 0 "next_index d 0" s "dir_site d"] site(3) by (metis snd_conv)
  with next_index_gt[OF ok, of 0] ok site(2) show ?thesis
    by (auto simp: index_ok_def FileApplied_def group_file_def split: if_splits option.splits)
next
  case (group g f)
  have "f = GroupOrCreate d (group_of g) \<or> applied f = next_index d (group_of g)"
    using Run_advance[of _ group_name "group_plan nl" "group_of g" "next_index d (group_of g)" g "GroupOrCreate d (group_of g)"]
      group(4) by (metis snd_conv)
  with next_index_gt[OF ok, of "group_of g"] ok group(2,3) show ?thesis
    by (auto simp: index_ok_def FileApplied_def group_file_update GroupOrCreate_def split: if_splits option.splits)
next
  case (none g)
  with next_index_gt[OF ok, of "LogOf c"] ok show ?thesis
    by (auto simp: index_ok_def FileApplied_def group_file_def split: if_splits option.splits)
qed

section \<open>Outboxes after one command\<close>

text \<open>Everything that waits, in the site's file and the groups'.\<close>

definition load :: "direct \<Rightarrow> nat" where
  "load d = weight (outbox_of d 0)
     + sum_list (map (\<lambda>(g, f). if g > 0 then weight (outbox (content f)) else 0) (dir_groups d))"

lemma sum_update:
  "sum_list (map h (AList.update k v al)) + (case map_of al k of None \<Rightarrow> 0 | Some u \<Rightarrow> h (k, u))
   = sum_list (map h al) + (h (k, v) :: nat)"
  by (induction al) auto

lemma outbox_of_site [simp]:
  "outbox_of (d\<lparr>dir_index := ix, dir_site := f\<rparr>) lg = (if lg = 0 then site_outbox (content f) else outbox_of d lg)"
  "outbox_of (d\<lparr>dir_index := ix\<rparr>) lg = outbox_of d lg"
  by (simp_all add: outbox_of_def)

lemma outbox_of_group:
  "outbox_of (d\<lparr>dir_index := ix, dir_groups := AList.update g f (dir_groups d)\<rparr>) lg
   = (if lg = g \<and> lg \<noteq> 0 then outbox (content f) else outbox_of d lg)"
  by (auto simp: outbox_of_def group_file_update)

lemma outbox_of_new: "g \<noteq> 0 \<Longrightarrow> outbox (content (GroupOrCreate d g)) = outbox_of d g"
  by (auto simp: outbox_of_def GroupOrCreate_def empty_group_db_def split: option.splits)

text \<open>A command touches the outbox of its own log only; the load changes by as much.\<close>

lemma run_load:
  assumes "run nl c d = (r, d')"
  shows "lg \<noteq> LogOf c \<Longrightarrow> outbox_of d' lg = outbox_of d lg"
    and "load d' + weight (outbox_of d (LogOf c)) = load d + weight (outbox_of d' (LogOf c))"
proof -
  have "(lg \<noteq> LogOf c \<longrightarrow> outbox_of d' lg = outbox_of d lg)
    \<and> load d' + weight (outbox_of d (LogOf c)) = load d + weight (outbox_of d' (LogOf c))"
    using assms
  proof (cases rule: run_cases)
    case (site s f)
    then show ?thesis by (simp add: load_def)
  next
    case (group g f)
    let ?h = "\<lambda>(g, f :: group_db dbfile). if g > (0::int) then weight (outbox (content f)) else 0"
    have sum: "sum_list (map ?h (AList.update (group_of g) f (dir_groups d)))
        + (case map_of (dir_groups d) (group_of g) of None \<Rightarrow> 0 | Some u \<Rightarrow> ?h (group_of g, u))
      = sum_list (map ?h (dir_groups d)) + ?h (group_of g, f)" by (rule sum_update)
    show ?thesis
    proof (cases "group_of g = 0")
      case True
      with group sum show ?thesis by (simp add: load_def outbox_of_group split: option.splits)
    next
      case False
      with group(2) have "0 < group_of g" by simp
      moreover have "weight (outbox_of d (group_of g))
          = (case map_of (dir_groups d) (group_of g) of None \<Rightarrow> 0 | Some u \<Rightarrow> ?h (group_of g, u))"
        using \<open>0 < group_of g\<close> by (simp add: outbox_of_def group_file_def split: option.splits)
      ultimately show ?thesis using group sum by (simp add: load_def outbox_of_group)
    qed
  next
    case (none g)
    then show ?thesis by (simp add: load_def)
  qed
  then show "lg \<noteq> LogOf c \<Longrightarrow> outbox_of d' lg = outbox_of d lg"
    "load d' + weight (outbox_of d (LogOf c)) = load d + weight (outbox_of d' (LogOf c))" by blast+
qed

lemma run_refused_outbox:
  assumes "run nl c d = (Inl e, d')"
  shows "outbox_of d' lg = outbox_of d lg"
  using assms
proof (cases rule: run_cases)
  case (site s f)
  have "f = dir_site d" using Run_error[of _ site_name _ 0 "next_index d 0" s "dir_site d"] site(3) by (metis fst_conv snd_conv)
  with site show ?thesis by (simp add: outbox_of_def)
next
  case (group g f)
  have "f = GroupOrCreate d (group_of g)"
    using Run_error[of _ group_name _ "group_of g" "next_index d (group_of g)" g "GroupOrCreate d (group_of g)"] group(4)
    by (metis fst_conv snd_conv)
  with group show ?thesis by (auto simp: outbox_of_group outbox_of_new)
qed (simp)

lemma followup_outbox:
  assumes "run nl (as_command fc) d = (r, d')"
  shows "\<exists>its. outbox_of d' (LogOf (as_command fc)) = outbox_of d (LogOf (as_command fc)) @ its \<and> weight its \<le> of_bool (echoes fc)"
  using assms
proof (cases rule: run_cases)
  case (site s f)
  then obtain c where c: "fc = F_MirrorGroup c" "s = S_MirrorGroup c" by (cases fc) auto
  have "content f = content (dir_site d) \<or> (\<exists>t. content f = (content (dir_site d))\<lparr>site_groups := t\<rparr>)"
    using Run_content[of "\<lambda>s. LogOf (OnSite s)" site_name "site_plan (ToLower nl)" 0 "next_index d 0" s "dir_site d"]
    unfolding site(3) snd_conv by (auto simp: c apply_MirrorGroup_def run_nilTx intro: sym)
  then have "site_outbox (content f) = site_outbox (content (dir_site d))" by auto
  with site show ?thesis by (simp add: outbox_of_def)
next
  case (group g f)
  have "content f = content (GroupOrCreate d (group_of g))
      \<or> adds (of_bool (echoes fc)) (content (GroupOrCreate d (group_of g))) (content f)"
    using Run_content[of _ group_name "group_plan nl" "group_of g" "next_index d (group_of g)" g "GroupOrCreate d (group_of g)"]
      group(1,4) by (metis followup_adds snd_conv)
  with group show ?thesis by (auto simp: outbox_of_group outbox_of_new adds_def)
qed (simp)

section \<open>The relay\<close>

lemma Run_fresh:
  assumes "lo c = lg" "applied f < idx" "ap c = Tx z fn" "fn (content f) = Inr (v, db)"
  shows "Run lo nm ap lg idx c f = (Inr v, \<lparr>applied = idx, content = db\<rparr>)"
  using assms by (simp add: Run_def apply_plan_def inTx_def)

lemma LogOf_done: "0 \<le> lg \<Longrightarrow> LogOf (outbox_done lg n) = lg"
  by (simp add: outbox_done_def)

lemma run_done:
  assumes ok: "index_ok d" and lg: "0 \<le> lg" and run: "run nl (outbox_done lg n) d = (r, d')"
  shows "r = Inr VNil" and "outbox_of d' lg = filter (\<lambda>b. n < ob_id b) (outbox_of d lg)"
proof -
  have "r = Inr VNil \<and> outbox_of d' lg = filter (\<lambda>b. n < ob_id b) (outbox_of d lg)"
  proof (cases "lg = 0")
    case True
    have "applied (dir_site d) < next_index d 0" using next_index_gt[OF ok, of 0] by (simp add: FileApplied_def)
    then have "Run (\<lambda>s. LogOf (OnSite s)) site_name (site_plan (ToLower nl)) 0 (next_index d 0) (S_OutboxDone \<lparr>od_GroupID = 0, od_UpTo = n\<rparr>) (dir_site d)
      = (Inr VNil, \<lparr>applied = next_index d 0, content = (content (dir_site d))
          \<lparr>site_outbox := del_where (\<lambda>b. ob_id b \<le> n) (site_outbox (content (dir_site d)))\<rparr>\<rparr>)"
      by (intro Run_fresh) (simp_all add: apply_OutboxDone_site_def nilTx_def)
    with run True show ?thesis
      by (auto simp: run_def Run_store_def outbox_done_def outbox_of_def del_where_def not_le Let_def)
  next
    case False
    with lg have pos: "0 < lg" by simp
    let ?f = "GroupOrCreate d lg"
    have "applied ?f < next_index d lg" using next_index_gt[OF ok, of lg] pos
      by (simp add: FileApplied_def GroupOrCreate_def split: option.splits)
    then have R: "Run (\<lambda>g. LogOf (OnGroup g)) group_name (group_plan nl) lg (next_index d lg) (OnSisters (G_OutboxDone \<lparr>od_GroupID = lg, od_UpTo = n\<rparr>)) ?f
      = (Inr VNil, \<lparr>applied = next_index d lg, content = (content ?f)\<lparr>outbox := del_where (\<lambda>b. ob_id b \<le> n) (outbox (content ?f))\<rparr>\<rparr>)"
      using pos by (intro Run_fresh) (simp_all add: apply_OutboxDone_def nilTx_def)
    have "group_of (OnSisters (G_OutboxDone \<lparr>od_GroupID = lg, od_UpTo = n\<rparr>)) = lg"
      "has_tx (group_plan nl (OnSisters (G_OutboxDone \<lparr>od_GroupID = lg, od_UpTo = n\<rparr>)))"
      by (simp_all add: apply_OutboxDone_def nilTx_def)
    with run R pos have "r = Inr VNil" and d': "d' = d\<lparr>dir_index := (dir_index d)(lg \<mapsto> next_index d lg),
        dir_groups := AList.update lg \<lparr>applied = next_index d lg, content = (content ?f)\<lparr>outbox := del_where (\<lambda>b. ob_id b \<le> n) (outbox (content ?f))\<rparr>\<rparr> (dir_groups d)\<rparr>"
      by (auto simp: run_def Run_store_def outbox_done_def Let_def GroupOrCreate_def group_file_def split: option.splits
          simp del: group_of.simps group_plan.simps)
    moreover have "outbox_of d' lg = filter (\<lambda>b. n < ob_id b) (outbox_of d lg)"
      unfolding d' outbox_of_group using pos by (simp add: outbox_of_new del_where_def not_le)
    ultimately show ?thesis by blast
  qed
  then show "r = Inr VNil" "outbox_of d' lg = filter (\<lambda>b. n < ob_id b) (outbox_of d lg)" by blast+
qed

text \<open>The items add less to the outboxes than they weigh; every log they write to is noted.\<close>

definition extends :: "direct \<Rightarrow> direct \<Rightarrow> bool" where
  "extends d d' \<longleftrightarrow> (\<forall>lg. \<exists>its. outbox_of d' lg = outbox_of d lg @ its)"

lemma relay_one:
  assumes "run nl (as_command (ob_command it)) d = (r, d1)"
  shows "load d1 + 1 \<le> load d + weight [it]" "extends d d1"
proof -
  obtain its where its: "outbox_of d1 (LogOf (as_command (ob_command it))) = outbox_of d (LogOf (as_command (ob_command it))) @ its"
    "weight its \<le> of_bool (echoes (ob_command it))"
    using followup_outbox[OF assms] by blast
  with run_load(2)[OF assms] show "load d1 + 1 \<le> load d + weight [it]" by (auto split: if_splits)
  show "extends d d1" unfolding extends_def using run_load(1)[OF assms] its(1) by (metis append_Nil2)
qed

lemma relay_items_ends:
  assumes "relay_items nl its d = (err, logs, d')" "index_ok d"
  shows "index_ok d' \<and> (err = None \<longrightarrow> load d' + length its \<le> load d + weight its \<and> length logs = length its)
    \<and> extends d d' \<and> list_all ((\<le>) 0) logs \<and> (err = None \<longrightarrow> lg \<notin> set logs \<longrightarrow> outbox_of d' lg = outbox_of d lg)
    \<and> (\<forall>e. err = Some e \<longrightarrow> \<not> IsInput e)"
  using assms
proof (induction its arbitrary: d logs)
  case Nil
  then show ?case by (auto simp: extends_def)
next
  case (Cons it its)
  let ?c = "as_command (ob_command it)"
  obtain r d1 where r: "run nl ?c d = (r, d1)" by fastforce
  have ok1: "index_ok d1" using run_index_ok[OF r Cons.prems(2)] .
  show ?case
  proof (cases "\<exists>x. r = Inl x \<and> \<not> IsInput x")
    case True
    with Cons.prems(1) r ok1 relay_one(2)[OF r] show ?thesis by (auto simp: Let_def)
  next
    case False
    then obtain ls where rest: "relay_items nl its d1 = (err, ls, d')" "logs = LogOf ?c # ls"
      using Cons.prems(1) r by (auto simp: Let_def split: sum.splits prod.splits if_splits)
    note IH = Cons.IH[OF rest(1) ok1]
    have "extends d d'" using relay_one(2)[OF r] IH unfolding extends_def by (metis append.assoc)
    with IH relay_one(1)[OF r] run_load(1)[OF r] rest(2) LogOf_nonneg show ?thesis by auto
  qed
qed

lemma cleared_weight:
  assumes "its = take k (sort_key ob_id ob)" "its \<noteq> []"
  shows "weight (filter (\<lambda>b. ob_id (last its) < ob_id b) ob) + weight its \<le> weight ob"
proof -
  let ?P = "\<lambda>b. ob_id (last its) < ob_id b"
  obtain rest where split: "sort_key ob_id ob = its @ rest" using assms(1) by (metis append_take_drop_id)
  have "sorted (map ob_id (sort_key ob_id ob))" by simp
  then have "sorted (map ob_id its)" unfolding split by (simp add: sorted_append)
  then have "filter ?P its = []" using assms(2)
    by (auto simp: filter_empty_conv sorted_iff_nth_mono last_conv_nth in_set_conv_nth not_less)
  then have "filter ?P (sort_key ob_id ob) = filter ?P rest" unfolding split by simp
  then have "weight (filter ?P ob) = weight (filter ?P rest)" by (metis filter_sort weight_sort)
  moreover have "weight ob = weight its + weight rest" using weight_sort[of ob_id ob] unfolding split by simp
  ultimately show ?thesis using weight_filter[of ?P rest] by simp
qed

text \<open>One round that relays something leaves less to do than it found.\<close>

lemma round_less:
  assumes its: "its = Outbox d lg 1000" "its \<noteq> []" and lg: "0 \<le> lg" and ok: "index_ok d"
    and rel: "relay_items nl its d = (None, logs, d1)" and don: "run nl (outbox_done lg (ob_id (last its))) d1 = (r, d2)"
  shows "r = Inr VNil" "index_ok d2" "2 * load d2 + length (rest @ logs @ [lg]) < 2 * load d + length (lg # rest)"
    "l \<notin> set logs \<Longrightarrow> l \<noteq> lg \<Longrightarrow> outbox_of d2 l = outbox_of d l"
proof -
  note R = relay_items_ends[OF rel ok]
  then have ok1: "index_ok d1" by simp
  show "r = Inr VNil" using run_done(1)[OF ok1 lg don] .
  show "index_ok d2" using run_index_ok[OF don ok1] .
  obtain more where more: "outbox_of d1 lg = outbox_of d lg @ more" using R unfolding extends_def by blast
  have "weight (outbox_of d2 lg) + weight its \<le> weight (outbox_of d1 lg)"
    unfolding run_done(2)[OF ok1 lg don] more
    using cleared_weight[OF its(1)[unfolded Outbox_def] its(2)] weight_filter[of "\<lambda>b. ob_id (last its) < ob_id b" more] by simp
  moreover have "load d2 + weight (outbox_of d1 lg) = load d1 + weight (outbox_of d2 lg)"
    using run_load(2)[OF don] by (simp add: LogOf_done lg)
  moreover have "load d1 + length its \<le> load d + weight its" "length logs = length its" using R by simp_all
  moreover have "0 < length its" using its(2) by simp
  ultimately show "2 * load d2 + length (rest @ logs @ [lg]) < 2 * load d + length (lg # rest)" by (simp del: length_greater_0_conv)
  show "outbox_of d2 l = outbox_of d l" if "l \<notin> set logs" "l \<noteq> lg"
    using run_load(1)[OF don, of l] relay_items_ends[OF rel ok, of l] that by (simp add: LogOf_done lg)
qed

definition settled_but :: "int list \<Rightarrow> direct \<Rightarrow> bool" where
  "settled_but pending d \<longleftrightarrow> (\<forall>lg \<ge> 0. lg \<notin> set pending \<longrightarrow> outbox_of d lg = [])"

theorem drain_ends:
  assumes "index_ok d" "list_all ((\<le>) 0) pending"
  shows "\<exists>err d'. drain nl pending d = Some (err, d') \<and> index_ok d' \<and> (\<forall>e. err = Some e \<longrightarrow> \<not> IsInput e)
    \<and> (err = None \<longrightarrow> settled_but pending d \<longrightarrow> settled_but [] d')"
  using assms
proof (induction "2 * load d + length pending" arbitrary: d pending rule: less_induct)
  case less
  show ?case
  proof (cases pending)
    case Nil
    then show ?thesis using less.prems by (simp add: drain.simps[of nl "[]"])
  next
    case (Cons lg rest)
    then have lg: "0 \<le> lg" and rest: "list_all ((\<le>) 0) rest" using less.prems(2) by simp_all
    let ?its = "Outbox d lg 1000"
    have skip: ?thesis if "outbox_of d lg = []" "drain nl pending d = drain nl rest d"
    proof -
      have "2 * load d + length rest < 2 * load d + length pending" using Cons by simp
      note IH = less.hyps[OF this less.prems(1) rest]
      moreover have "settled_but pending d \<Longrightarrow> settled_but rest d" using that(1) by (auto simp: settled_but_def Cons)
      ultimately show ?thesis using that(2) by auto
    qed
    consider (missing) "lg \<noteq> 0" "group_file d lg = None" | (empty) "lg = 0 \<or> group_file d lg \<noteq> None" "?its = []"
      | (round) "lg = 0 \<or> group_file d lg \<noteq> None" "?its \<noteq> []" by blast
    then show ?thesis
    proof cases
      case missing
      then show ?thesis by (intro skip) (simp_all add: outbox_of_def Cons drain.simps[of nl "lg # rest"])
    next
      case empty
      then have "length (sort_key ob_id (outbox_of d lg)) = 0" by (auto simp: Outbox_def)
      then have "outbox_of d lg = []" by simp
      with empty show ?thesis by (intro skip) (auto simp: Cons drain.simps[of nl "lg # rest"])
    next
      case round
      obtain err logs d1 where rel: "relay_items nl ?its d = (err, logs, d1)" by (cases "relay_items nl ?its d") auto
      note R = relay_items_ends[OF rel less.prems(1)]
      show ?thesis
      proof (cases err)
        case (Some e)
        with rel round R show ?thesis by (auto simp: Cons drain.simps[of nl "lg # rest"])
      next
        case None
        obtain r d2 where don: "run nl (outbox_done lg (ob_id (last ?its))) d1 = (r, d2)" by fastforce
        note L = round_less[OF refl round(2) lg less.prems(1) rel[unfolded None] don]
        have eq: "drain nl pending d = drain nl (rest @ logs @ [lg]) d2"
          using rel None don L(1) round by (auto simp: Cons drain.simps[of nl "lg # rest"])
        have "list_all ((\<le>) 0) (rest @ logs @ [lg])" using lg rest R by simp
        note IH = less.hyps[OF L(3)[of rest, folded Cons] L(2) this]
        moreover have "settled_but pending d \<Longrightarrow> settled_but (rest @ logs @ [lg]) d2"
          using L(4) by (auto simp: settled_but_def Cons)
        ultimately show ?thesis using eq by auto
      qed
    qed
  qed
qed

end
