(* ===== verification/PairLaws.thy ===== *)
theory PairLaws
  imports SiteLaws Settings
begin

text \<open>
  What a pairing of two groups rests on, which side may cite the other, the copy of a group's settings
  the site keeps, and what the purge takes from an account.
\<close>

section \<open>Both sides\<close>

definition paired :: "site_db \<Rightarrow> int \<Rightarrow> int \<Rightarrow> bool" where
  "paired db g1 g2 = fst (sisterPair db g1 g2)"

lemma paired_iff: "paired db g1 g2 \<longleftrightarrow> (\<exists>p. get_pair db g1 g2 = Some p \<and> gp_state p = PairActive)"
  by (auto simp: paired_def sisterPair_def split: option.splits)

lemma get_pair_key: "get_pair db a b = Some q \<Longrightarrow> pair_key q = pairKey a b"
  unfolding get_pair_def by (drule find_Some_mem) simp

lemma get_pair_upd:
  assumes "\<And>p. pair_key (f p) = pair_key p" "group_pairs db' = upd_where P f (group_pairs db)"
  shows "get_pair db' a b = map_option (\<lambda>p. if P p then f p else p) (get_pair db a b)"
  unfolding get_pair_def assms(2) by (rule find_upd_where) (simp add: assms(1))

text \<open>A pairing comes into force only when the group that was asked agrees, by a proposal of its own or an
  answer, while both groups have the AI on.\<close>

definition agrees :: "site_cmd \<Rightarrow> int \<Rightarrow> int \<Rightarrow> bool" where
  "agrees c asker asked =
     (case c of S_ProposeSister x \<Rightarrow> pp_GroupID x = asked \<and> pp_Other x = asker
      | S_AnswerSister x \<Rightarrow> ans_Accept x \<and> ans_GroupID x = asked \<and> ans_Other x = asker
      | _ \<Rightarrow> False)"

definition uses_ai :: "site_db \<Rightarrow> int \<Rightarrow> bool" where
  "uses_ai db g \<longleftrightarrow> (\<exists>v. groupFacts db g = Inr (v, True))"

lemma pairKey_eq: "pairKey a b = pairKey c d \<longleftrightarrow> (a = c \<and> b = d) \<or> (a = d \<and> b = c)"
  by (auto simp: pairKey_def min_def max_def)

lemma propose_active:
  assumes "propose c topics db = Inr (s, db')" "paired db' a b" "\<not> paired db a b"
  shows "pairKey a b = pairKey (pp_GroupID c) (pp_Other c) \<and>
    (\<exists>p. get_pair db a b = Some p \<and> gp_state p = PairProposed \<and> gp_proposed_by_group p = pp_Other c)"
proof -
  let ?k = "pairKey (pp_GroupID c) (pp_Other c)"
  let ?r = "\<lparr>gp_a = fst ?k, gp_b = snd ?k, gp_proposed_by_group = pp_GroupID c, gp_topics = topics, gp_state = PairProposed,
      gp_proposed_by = pp_By c, gp_decided_by = None, gp_created = pp_At c, gp_updated = pp_At c\<rparr>"
  let ?f = "\<lambda>p. p\<lparr>gp_proposed_by_group := pp_GroupID c, gp_topics := topics, gp_state := PairProposed,
      gp_proposed_by := pp_By c, gp_decided_by := None, gp_updated := pp_At c\<rparr>"
  have keep: "paired (d\<lparr>group_pairs := upsert pair_key ?r ?f (group_pairs d)\<rparr>) a b \<Longrightarrow> paired d a b" for d
  proof -
    assume p: "paired (d\<lparr>group_pairs := upsert pair_key ?r ?f (group_pairs d)\<rparr>) a b"
    show "paired d a b"
    proof (cases "has_key pair_key (pair_key ?r) (group_pairs d)")
      case True
      then have "get_pair (d\<lparr>group_pairs := upsert pair_key ?r ?f (group_pairs d)\<rparr>) a b =
          map_option (\<lambda>p. if pair_key p = pair_key ?r then ?f p else p) (get_pair d a b)"
        by (intro get_pair_upd) (simp_all add: upsert_def pair_key_def)
      with p show ?thesis by (auto simp: paired_iff split: if_splits)
    next
      case False
      with p show ?thesis by (auto simp: paired_iff get_pair_def upsert_def split: option.splits if_splits)
    qed
  qed
  let ?g = "\<lambda>p. p\<lparr>gp_state := PairActive, gp_decided_by := Some (pp_By c), gp_updated := pp_At c\<rparr>"
  show ?thesis
  proof (cases "get_pair db (pp_GroupID c) (pp_Other c)")
    case None
    with assms keep[of db] show ?thesis by (simp add: propose_def Let_def)
  next
    case (Some p)
    show ?thesis
    proof (cases "gp_state p = PairProposed \<and> gp_proposed_by_group p = pp_Other c")
      case True
      with assms(1) Some have db': "db' = db\<lparr>group_pairs := upd_where (\<lambda>p. pair_key p = ?k) ?g (group_pairs db)\<rparr>"
        by (simp add: propose_def Let_def)
      have "get_pair db' a b = map_option (\<lambda>p. if pair_key p = ?k then ?g p else p) (get_pair db a b)"
        by (rule get_pair_upd) (simp_all add: db' pair_key_def)
      with assms(2,3) obtain q where q: "get_pair db a b = Some q" "pair_key q = ?k"
        by (auto simp: paired_iff split: if_splits)
      then have "pairKey a b = ?k" using get_pair_key by metis
      with Some True show ?thesis by (auto simp: get_pair_def)
    next
      case False
      with assms Some keep[of db] show ?thesis by (auto simp: propose_def Let_def split: if_splits)
    qed
  qed
qed

text \<open>C28: sister groups agreed. If a command makes two groups sisters that were not, then one of them had proposed
  it, the command is the other one's own proposal or its acceptance, and both groups have the AI turned on.\<close>

theorem sisters_agreed:
  assumes "run_plan (site_plan lower c) db = Inr (v, db')" "paired db' a b" "\<not> paired db a b"
  shows "\<exists>p asked. get_pair db a b = Some p \<and> gp_state p = PairProposed \<and> agrees c (gp_proposed_by_group p) asked
    \<and> pairKey a b = pairKey asked (gp_proposed_by_group p) \<and> uses_ai db asked \<and> uses_ai db (gp_proposed_by_group p)"
proof (cases c)
  case (S_ProposeSister x)
  with assms(1) obtain topics s d where p: "propose x topics db = Inr (s, d)" "group_pairs db' = group_pairs d"
    and ai: "uses_ai db (pp_GroupID x)" "uses_ai db (pp_Other x)"
    by (auto simp: apply_ProposeSister_def Let_def bind_iffs ask_ai_Inr uses_ai_def split: if_splits)
  have "paired d a b" using assms(2) p(2) by (simp add: paired_def sisterPair_def get_pair_def)
  from propose_active[OF p(1) this assms(3)] ai show ?thesis by (auto simp: agrees_def S_ProposeSister)
next
  case (S_AnswerSister x)
  let ?P = "\<lambda>p. pair_key p = pairKey (ans_GroupID x) (ans_Other x) \<and> gp_state p = PairProposed \<and> gp_proposed_by_group p = ans_Other x"
  let ?f = "\<lambda>p. p\<lparr>gp_state := (if ans_Accept x then PairActive else PairEnded), gp_decided_by := Some (ans_By x), gp_updated := ans_At x\<rparr>"
  have db': "group_pairs db' = upd_where ?P ?f (group_pairs db)"
    and ai: "ans_Accept x \<Longrightarrow> list_all (\<lambda>g. case groupFacts (db\<lparr>group_pairs := upd_where ?P ?f (group_pairs db)\<rparr>) g of
        Inl _ \<Rightarrow> False | Inr (_, ai) \<Rightarrow> ai) [ans_GroupID x, ans_Other x]"
    using assms(1) S_AnswerSister by (auto simp: apply_AnswerSister_def run_nilTx bind_iffs Let_def)
  have facts: "groupFacts (db\<lparr>group_pairs := ps\<rparr>) = groupFacts db" for ps
    by (simp add: groupFacts_def get_group_def fun_eq_iff)
  have "get_pair db' a b = map_option (\<lambda>p. if ?P p then ?f p else p) (get_pair db a b)"
    by (rule get_pair_upd) (simp_all add: db' pair_key_def)
  with assms(2,3) obtain q where q: "get_pair db a b = Some q" "?P q" "ans_Accept x"
    by (auto simp: paired_iff split: if_splits)
  then have "pairKey a b = pairKey (ans_GroupID x) (ans_Other x)" using get_pair_key by metis
  moreover have "uses_ai db (ans_GroupID x)" "uses_ai db (ans_Other x)"
    using ai[OF q(3)] by (auto simp: facts uses_ai_def split: sum.splits)
  ultimately show ?thesis using q by (auto simp: agrees_def S_AnswerSister)
next
  case (S_EndSister x)
  have "group_pairs db' = upd_where (\<lambda>p. pair_key p = pairKey (en_GroupID x) (en_Other x))
      (\<lambda>p. p\<lparr>gp_state := PairEnded, gp_decided_by := Some (en_By x), gp_updated := en_At x\<rparr>) (group_pairs db)"
    using assms(1) S_EndSister by (auto simp: apply_EndSister_def run_nilTx Let_def)
  then have "get_pair db' a b = map_option (\<lambda>p. if pair_key p = pairKey (en_GroupID x) (en_Other x)
      then p\<lparr>gp_state := PairEnded, gp_decided_by := Some (en_By x), gp_updated := en_At x\<rparr> else p) (get_pair db a b)"
    by (intro get_pair_upd) (simp_all add: pair_key_def)
  with assms(2,3) show ?thesis by (auto simp: paired_iff split: if_splits)
qed (use untouchedD(4)[OF site_frame[OF assms(1)]] assms(2,3) in \<open>simp_all add: touched_def paired_def sisterPair_def get_pair_def\<close>)

definition two_groups :: site_db where
  "two_groups = empty_site_db\<lparr>
     site_groups := [\<lparr>grp_id = 5, grp_slug = ''vans'', grp_main_host = None, grp_name = ''Vans'', grp_created = 2,
                      grp_status = ''active'', grp_visibility = Public, grp_ai = True\<rparr>,
                     \<lparr>grp_id = 6, grp_slug = ''tents'', grp_main_host = None, grp_name = ''Tents'', grp_created = 2,
                      grp_status = ''active'', grp_visibility = Private, grp_ai = True\<rparr>],
     group_pairs := [\<lparr>gp_a = 5, gp_b = 6, gp_proposed_by_group = 6, gp_topics = [], gp_state = PairProposed,
                      gp_proposed_by = 1, gp_decided_by = None, gp_created = 3, gp_updated = 3\<rparr>]\<rparr>"

lemma sisters_agreed_witness:
  "\<exists>db. run_plan (site_plan (\<lambda>s. s) (S_AnswerSister (AnswerSister.make 5 6 True 2 9))) two_groups = Inr (VNil, db)
     \<and> paired db 5 6 \<and> \<not> paired two_groups 5 6 \<and> uses_ai two_groups 5 \<and> uses_ai two_groups 6"
proof -
  let ?c = "S_AnswerSister (AnswerSister.make 5 6 True 2 9)"
  obtain db where r: "run_plan (site_plan (\<lambda>s. s) ?c) two_groups = Inr (VNil, db)" and p: "paired db 5 6"
    by (auto simp: apply_AnswerSister_def AnswerSister.defs run_nilTx two_groups_def empty_site_db_def pair_key_def pairKey_def affected_def
        groupFacts_def get_group_def Let_def paired_def sisterPair_def get_pair_def)
  have n: "\<not> paired two_groups 5 6"
    by (simp add: two_groups_def paired_def sisterPair_def get_pair_def pair_key_def pairKey_def)
  from sisters_agreed[OF r p n] have "uses_ai two_groups 5 \<and> uses_ai two_groups 6"
    by (auto simp: agrees_def AnswerSister.defs)
  with r p n show ?thesis by blast
qed

text \<open>C29: \<open>SisterRule\<close>: a note here may cite a post there exactly when the pairing is in force, both groups have the
  AI on and the group there is public, so whether it may does not depend on which side asks; and posts are linked
  exactly when one side may cite the other.\<close>

theorem sister_rule:
  "SisterRule db here there =
     (let on = paired db here there \<and> uses_ai db here \<and> uses_ai db there;
          public = (\<lambda>g. map_option grp_visibility (get_group db g) = Some Public)
      in (on \<and> (public here \<or> public there), on \<and> public there, on \<and> public here))
   \<and> SisterRule db there here = (case SisterRule db here there of (l, x, y) \<Rightarrow> (l, y, x))"
proof -
  have sym: "paired db there here = paired db here there"
    by (simp add: paired_def sisterPair_def get_pair_def pairKey_def min.commute max.commute)
  have rule: "SisterRule db a b =
     (let on = paired db a b \<and> uses_ai db a \<and> uses_ai db b;
          public = (\<lambda>g. map_option grp_visibility (get_group db g) = Some Public)
      in (on \<and> (public a \<or> public b), on \<and> public b, on \<and> public a))" for a b
    by (auto simp: SisterRule_def paired_def uses_ai_def groupFacts_def CanCite_def vis_str_def Let_def split: option.splits visibility.splits)
  show ?thesis unfolding rule sym Let_def by auto
qed

section \<open>The site's copy of a group's settings\<close>

lemma UpdateSettings_sends:
  assumes "run_plan (apply_UpdateSettings c) db = Inr (v, db')" "list_ex (mirrored \<circ> fst) (us_Set c)"
  shows "\<exists>s it. settings_row db' = Some s \<and> outbox db' = outbox db @ [it] \<and> ob_target it = 0
    \<and> ob_command it = F_MirrorGroup \<lparr>mg_GroupID = us_GroupID c, mg_Name = s_name s, mg_Visibility = s_visibility s,
         mg_AIEnabled = s_ai_enabled s\<rparr>"
proof -
  let ?kvs = "sort_key fst (us_Set c)"
  have m: "list_ex (mirrored \<circ> fst) ?kvs" using assms(2) by (simp add: list_ex_iff)
  then have ne: "?kvs \<noteq> []" by auto
  obtain vals where vals: "check_settings ?kvs = Inr vals" using assms(1) by (auto simp: apply_UpdateSettings_def Let_def split: sum.splits)
  have "vals \<noteq> []" using check_settings_keys[OF vals] ne by auto
  with assms(1) vals m show ?thesis
    by (auto simp: apply_UpdateSettings_def Let_def run_nilTx bind_iffs send_def modLog_def LogOf_followup_def split: option.splits)
qed

section \<open>What the purge takes\<close>

lemma sends_accounts: "users (fold (\<lambda>g. site_send (f g) t) gs d) = users d" "sessions (fold (\<lambda>g. site_send (f g) t) gs d) = sessions d"
  by (induction gs arbitrary: d) simp_all

text \<open>C30: the purge forgets a person and nobody else. An account whose grace period has run out loses its address, handle,
  phone, photo and bio, and every session; its row stays, with its id. Every other account is as it was, and keeps each
  session that has not expired.\<close>

theorem purge_forgets_person:
  assumes "run_plan (apply_Purge c) db = Inr (v, db')" "distinct (map user_id (users db))" "get_user db i = Some u"
  shows "\<exists>w. get_user db' i = Some w \<and>
    (if past (pu_Before c) u
     then user_email w = None \<and> user_handle w = None \<and> user_phone w = None \<and> user_photo_key w = None \<and> user_bio w = None
          \<and> filter (\<lambda>s. ses_user s = i) (sessions db') = []
     else w = u \<and> filter (\<lambda>s. ses_user s = i) (sessions db')
            = filter (\<lambda>s. ses_user s = i \<and> \<not> ses_expires s < pu_Before c) (sessions db))"
proof -
  let ?t = "pu_Before c"
  let ?f = "\<lambda>u. u\<lparr>user_email := None, user_handle := None, user_phone := None, user_photo_key := None, user_bio := None, user_purge_after := None\<rparr>"
  have us: "users db' = upd_where (past ?t) ?f (users db)"
    and se: "sessions db' = del_where (\<lambda>s. ses_user s \<in> user_id ` set (filter (past ?t) (users db)))
          (del_where (\<lambda>s. ses_expires s < ?t) (sessions db))"
    using assms(1) by (auto simp: apply_Purge_def run_nilTx Let_def purge_accounts_def sends_accounts)
  have w: "get_user db' i = Some (if past ?t u then ?f u else u)"
    using assms(3) unfolding get_user_def us by (simp add: find_upd_where)
  have u: "u \<in> set (users db)" "user_id u = i" using assms(3) unfolding get_user_def by (auto dest: find_Some_mem)
  have gone: "i \<in> user_id ` set (filter (past ?t) (users db)) \<longleftrightarrow> past ?t u"
    using u assms(2) by (auto simp: distinct_map dest: inj_onD)
  have "filter (\<lambda>s. ses_user s = i) (sessions db') = []" if "past ?t u"
    using that gone by (auto simp: se del_where_def filter_empty_conv)
  moreover have "filter (\<lambda>s. ses_user s = i) (sessions db') = filter (\<lambda>s. ses_user s = i \<and> \<not> ses_expires s < ?t) (sessions db)"
    if "\<not> past ?t u" using that gone by (auto simp: se del_where_def intro!: filter_cong)
  ultimately show ?thesis using w by simp
qed

lemma purge_forgets_person_witness:
  "\<exists>db' w. run_plan (apply_Purge \<lparr>pu_Before = 100\<rparr>) (first_login\<lparr>users := map (\<lambda>u. u\<lparr>user_purge_after := Some 99\<rparr>) (users first_login)\<rparr>)
       = Inr (VNil, db')
     \<and> get_user db' 7 = Some w \<and> user_email w = None \<and> filter (\<lambda>s. ses_user s = 7) (sessions db') = []"
proof -
  let ?db = "first_login\<lparr>users := map (\<lambda>u. u\<lparr>user_purge_after := Some 99\<rparr>) (users first_login)\<rparr>"
  obtain u where u: "users first_login = [u]" "user_id u = 7"
    by (simp add: first_login_def step_with_def apply_CreateLogin_def apply_RedeemLogin_def run_nilTx CreateLogin.defs RedeemLogin.defs
        empty_site_db_def ins_new_def sign_in_account_def start_session_def get_user_def MaxCodeTries_def)
  obtain db' where r: "run_plan (apply_Purge \<lparr>pu_Before = 100\<rparr>) ?db = Inr (VNil, db')"
    by (simp add: apply_Purge_def run_nilTx Let_def)
  have "distinct (map user_id (users ?db))" "get_user ?db 7 = Some (u\<lparr>user_purge_after := Some 99\<rparr>)"
    using u by (simp_all add: get_user_def)
  from purge_forgets_person[OF r this] r show ?thesis by (auto simp: past_def)
qed

end
