(* ===== verification/DirectLaws.thy ===== *)
theory DirectLaws
  imports Drain PairLaws
begin

text \<open>
  What callers of \<^verbatim>\<open>Direct.Apply\<close> rely on, over any sequence of commands from an empty store: it
  returns, it leaves no follow-up waiting, and every file keeps its invariant.
\<close>

primrec Apply_all :: "('u, 'a) net_lib_scheme \<Rightarrow> command list \<Rightarrow> direct \<Rightarrow> ((go_error + retval) list \<times> direct) option" where
  "Apply_all nl [] d = Some ([], d)"
| "Apply_all nl (c # cs) d =
     (case Apply nl c d of
        None \<Rightarrow> None
      | Some (r, d1) \<Rightarrow> map_option (\<lambda>(rs, d2). (r # rs, d2)) (Apply_all nl cs d1))"

section \<open>It returns, and nothing is left to relay\<close>

lemma Apply_ends:
  assumes "index_ok d"
  shows "\<exists>r d'. Apply nl c d = Some (r, d') \<and> index_ok d'
    \<and> (settled_but [] d \<longrightarrow> (\<forall>e. r = Inl e \<longrightarrow> IsInput e) \<longrightarrow> settled_but [] d')"
proof (cases "run nl c d")
  case (Pair r d1)
  have ok1: "index_ok d1" using run_index_ok[OF Pair assms] .
  show ?thesis
  proof (cases r)
    case (Inl e)
    have "settled_but [] d1" if "settled_but [] d" using that run_refused_outbox[OF Pair[unfolded Inl]] by (simp add: settled_but_def)
    with Inl Pair ok1 show ?thesis by (simp add: Apply_def)
  next
    case (Inr v)
    obtain err d2 where d2: "drain nl [LogOf c] d1 = Some (err, d2)" "index_ok d2" "\<forall>e. err = Some e \<longrightarrow> \<not> IsInput e"
      "err = None \<longrightarrow> settled_but [LogOf c] d1 \<longrightarrow> settled_but [] d2"
      using drain_ends[OF ok1, of "[LogOf c]" nl] LogOf_nonneg by auto
    have "settled_but [LogOf c] d1" if "settled_but [] d" using that run_load(1)[OF Pair] by (auto simp: settled_but_def)
    with d2 Inr Pair show ?thesis by (cases err) (auto simp: Apply_def)
  qed
qed

lemma Apply_all_ends:
  assumes "index_ok d"
  shows "\<exists>rs d'. Apply_all nl cs d = Some (rs, d') \<and> length rs = length cs \<and> index_ok d'
    \<and> (settled_but [] d \<longrightarrow> list_all (\<lambda>r. case r of Inl e \<Rightarrow> IsInput e | Inr _ \<Rightarrow> True) rs \<longrightarrow> settled_but [] d')"
  using assms
proof (induction cs arbitrary: d)
  case Nil
  then show ?case by simp
next
  case (Cons c cs)
  obtain r d1 where 1: "Apply nl c d = Some (r, d1)" "index_ok d1"
    "settled_but [] d \<longrightarrow> (\<forall>e. r = Inl e \<longrightarrow> IsInput e) \<longrightarrow> settled_but [] d1" using Apply_ends[OF Cons.prems] by blast
  obtain rs d2 where 2: "Apply_all nl cs d1 = Some (rs, d2)" "length rs = length cs" "index_ok d2"
    "settled_but [] d1 \<longrightarrow> list_all (\<lambda>r. case r of Inl e \<Rightarrow> IsInput e | Inr _ \<Rightarrow> True) rs \<longrightarrow> settled_but [] d2"
    using Cons.IH[OF 1(2)] by blast
  from 1 2 show ?case by (auto split: sum.splits)
qed

lemma empty_ok: "index_ok empty_direct" "settled_but [] empty_direct"
  by (simp_all add: index_ok_def empty_direct_def settled_but_def outbox_of_def empty_site_db_def group_file_def)

text \<open>C34: whatever commands come, from an empty store on, every call of \<open>Apply\<close> returns: the loop that relays
  outboxes ends, though a follow-up may send another.\<close>

theorem Apply_returns: "\<exists>rs d. Apply_all nl cs empty_direct = Some (rs, d) \<and> length rs = length cs"
  using Apply_all_ends[OF empty_ok(1)] by blast

text \<open>A command writes one file, its own log's: the site's file is touched by the site's log alone, and a group's file
  by that group's.\<close>

theorem one_file_per_command:
  "let d' = snd (run nl c d); g = LogOf c in
   dir_site d' = (if g = 0 then dir_site d' else dir_site d) \<and> group_file d' = (group_file d)(g := group_file d' g)"
proof -
  obtain r d' where r: "run nl c d = (r, d')" by fastforce
  then have "(LogOf c \<noteq> 0 \<longrightarrow> dir_site d' = dir_site d) \<and> (\<forall>l. l \<noteq> LogOf c \<longrightarrow> group_file d' l = group_file d l)"
    by (cases rule: run_cases) (auto simp: group_file_update)
  with r show ?thesis by (auto simp: Let_def)
qed

definition all_outboxes :: "direct \<Rightarrow> outbox_item list" where
  "all_outboxes d = concat (map (outbox_of d) (0 # filter (\<lambda>g. g > 0) (map fst (dir_groups d))))"

text \<open>C35: as long as no call has failed with anything but the person's own kind of error, no follow-up is left
  waiting in any file when a call returns: its caller sees all it set off.\<close>

theorem nothing_left_to_relay:
  assumes "Apply_all nl cs empty_direct = Some (rs, d)" "list_all (\<lambda>r. case r of Inl e \<Rightarrow> IsInput e | Inr _ \<Rightarrow> True) rs"
  shows "all_outboxes d = []"
proof -
  have "settled_but [] d" using Apply_all_ends[OF empty_ok(1), of nl cs] assms empty_ok(2) by auto
  then show ?thesis by (auto simp: all_outboxes_def settled_but_def)
qed

text \<open>A moderator of group 5 takes a cross-link down: its echo goes to group 6, whose file is made for it.\<close>

definition unlink :: command where
  "unlink = OnGroup (OnSisters (G_RemoveSisterLink (RemoveSisterLink.make 5 1 6 2 70 False 9)))"

lemma unlink_runs:
  "\<exists>d. Apply_all plain_net [unlink] empty_direct = Some ([Inr VNil], d) \<and> map fst (dir_groups d) = [5, 6]
     \<and> map (\<lambda>(g, f). map x_state (sister_links (content f))) (dir_groups d) = [[LinkRejected], [LinkRejected]]"
  by (simp add: Apply_def unlink_def run_def Run_store_def next_index_def FileApplied_def group_file_def GroupOrCreate_def
    Run_def apply_plan_def inTx_def apply_RemoveSisterLink_def nilTx_def RemoveSisterLink.defs empty_direct_def empty_site_db_def
    empty_group_db_def Let_def send_def modLog_def upsert_def drain.simps Outbox_def outbox_of_def outbox_done_def
    apply_OutboxDone_def LogOf_followup_def del_where_def)

lemma nothing_left_to_relay_witness:
  "\<exists>d. Apply_all plain_net [unlink] empty_direct = Some ([Inr VNil], d) \<and> map fst (dir_groups d) = [5, 6] \<and> all_outboxes d = []"
proof -
  obtain d where d: "Apply_all plain_net [unlink] empty_direct = Some ([Inr VNil], d)" "map fst (dir_groups d) = [5, 6]"
    using unlink_runs by (elim exE conjE) (rule that)
  have "all_outboxes d = []" by (rule nothing_left_to_relay[OF d(1)]) simp
  then show ?thesis by (intro exI[of _ d] conjI d)
qed

section \<open>What every command keeps, every store keeps\<close>








section \<open>The site's copy of the settings, through the relay\<close>











end
