(* ===== verification/Reads.thy ===== *)
theory Reads
  imports Nudges Sources SiteDB "HOL-Library.Product_Lexorder"
begin

text \<open>
  What pages read of a group's file: \<^verbatim>\<open>internal/store/posts.go\<close> and \<^verbatim>\<open>engage.go\<close>. A read is a function of the
  file's tables; opening the file, whose error every read passes on, is left out. \<^verbatim>\<open>ORDER BY\<close> is a
  stable sort by a key (a descending column negated), \<^verbatim>\<open>LIMIT\<close> and \<^verbatim>\<open>OFFSET\<close> are \<open>page\<close>. A row comes back as
  the Go struct it is scanned into, its \<^verbatim>\<open>NULL\<close>s replaced.
\<close>

definition page :: "int \<Rightarrow> int \<Rightarrow> 'a list \<Rightarrow> 'a list" where
  "page limit offset xs = (if limit < 0 then drop (nat offset) xs else take (nat limit) (drop (nat offset) xs))"

text \<open>\<^verbatim>\<open>COLLATE NOCASE\<close> and \<^verbatim>\<open>lower()\<close>: ASCII letters without their case.\<close>

definition nocase :: "string \<Rightarrow> string" where
  "nocase s = map ascii_lower s"

section \<open>Posts and comments\<close>

record Flag =
  fl_By :: string
  fl_Category :: string
  fl_Reason :: string

record Post =
  pv_ID :: int
  pv_UserID :: int
  pv_Anonymous :: bool
  pv_Title :: string
  pv_Body :: string
  pv_Status :: status
  pv_RemovedReason :: string
  pv_Pinned :: bool
  pv_Locked :: bool
  pv_Score :: int
  pv_CommentCount :: int
  pv_CreatedAt :: int
  pv_EditedAt :: int
  pv_LastActivityAt :: int
  pv_Origin :: origin
  pv_OriginURL :: string
  pv_ThumbHash :: string
  pv_Digest :: string
  pv_Version :: int
  pv_ThreadVersion :: int
  pv_ContinuesID :: int
  pv_Flag :: Flag

definition thumb_hash :: "group_db \<Rightarrow> int \<Rightarrow> string" where
  "thumb_hash db i =
     (case sort_key im_sort (filter (\<lambda>im. im_post im = i \<and> im_comment im = None) (images db)) of
        [] \<Rightarrow> [] | im # _ \<Rightarrow> im_hash im)"

definition scanPost :: "group_db \<Rightarrow> post \<Rightarrow> Post" where
  "scanPost db p = \<lparr>pv_ID = p_id p, pv_UserID = null_int (p_user p), pv_Anonymous = p_anonymous p, pv_Title = p_title p,
     pv_Body = p_body p, pv_Status = p_status p, pv_RemovedReason = null_str (p_removed_reason p), pv_Pinned = p_pinned p,
     pv_Locked = p_locked p, pv_Score = p_score p, pv_CommentCount = p_comment_count p, pv_CreatedAt = p_created p,
     pv_EditedAt = null_int (p_edited p), pv_LastActivityAt = p_last_activity p, pv_Origin = p_origin p,
     pv_OriginURL = null_str (p_origin_url p), pv_ThumbHash = thumb_hash db (p_id p), pv_Digest = null_str (p_digest p),
     pv_Version = p_version p, pv_ThreadVersion = p_thread_version p, pv_ContinuesID = null_int (p_continues p),
     pv_Flag = \<lparr>fl_By = null_str (p_flagged_by p), fl_Category = null_str (p_flag_category p),
                fl_Reason = null_str (p_flag_reason p)\<rparr>\<rparr>"

text \<open>The posts of a feed: shown, and not an update under another.\<close>

definition feed_rows :: "group_db \<Rightarrow> post list" where
  "feed_rows db = filter (\<lambda>p. shown (p_status p) \<and> p_continues p = None) (posts db)"

definition Feed :: "string \<Rightarrow> int \<Rightarrow> int \<Rightarrow> group_db \<Rightarrow> Post list" where
  "Feed sorting limit offset db =
     (let order = (\<lambda>p. if sorting = ''new'' then p_created p else p_last_activity p - p_sink p) in
      page limit offset (map (scanPost db) (sort_key (\<lambda>p. (\<not> p_pinned p, - order p, - p_id p)) (feed_rows db))))"

definition FeedTop :: "int \<Rightarrow> int \<Rightarrow> int \<Rightarrow> group_db \<Rightarrow> Post list" where
  "FeedTop since limit offset db =
     page limit offset (map (scanPost db) (sort_key (\<lambda>p. (- p_score p, - p_comment_count p, - p_id p))
       (filter (\<lambda>p. p_created p \<ge> since) (feed_rows db))))"

definition NewTopPosts :: "int \<Rightarrow> int \<Rightarrow> group_db \<Rightarrow> Post list" where
  "NewTopPosts since limit db = FeedTop since limit 0 db"

definition TopWindows :: "(string \<times> int) list" where
  "TopWindows = [(''week'', 7 * 86400), (''month'', 30 * 86400), (''year'', 365 * 86400), (''all'', 0)]"

definition Post_read :: "int \<Rightarrow> group_db \<Rightarrow> Post option" where
  "Post_read i db = map_option (scanPost db) (get_post db i)"

record Comment =
  cv_ID :: int
  cv_PostID :: int
  cv_ParentID :: int
  cv_UserID :: int
  cv_Anonymous :: bool
  cv_Body :: string
  cv_Status :: status
  cv_RemovedReason :: string
  cv_Score :: int
  cv_CreatedAt :: int
  cv_EditedAt :: int
  cv_Version :: int
  cv_Flag :: Flag

definition scanComment :: "comment \<Rightarrow> Comment" where
  "scanComment c = \<lparr>cv_ID = c_id c, cv_PostID = c_post c, cv_ParentID = null_int (c_parent c), cv_UserID = null_int (c_user c),
     cv_Anonymous = c_anonymous c, cv_Body = c_body c, cv_Status = c_status c, cv_RemovedReason = null_str (c_removed_reason c),
     cv_Score = c_score c, cv_CreatedAt = c_created c, cv_EditedAt = null_int (c_edited c), cv_Version = c_version c,
     cv_Flag = \<lparr>fl_By = null_str (c_flagged_by c), fl_Category = null_str (c_flag_category c),
                fl_Reason = null_str (c_flag_reason c)\<rparr>\<rparr>"

definition Comments :: "int \<Rightarrow> group_db \<Rightarrow> Comment list" where
  "Comments postID db =
     map scanComment (sort_key (\<lambda>c. (c_created c, c_id c)) (filter (\<lambda>c. c_post c = postID) (comments db)))"

definition Comment_read :: "int \<Rightarrow> group_db \<Rightarrow> Comment option" where
  "Comment_read i db = map_option scanComment (get_comment db i)"

section \<open>Photos\<close>

record ImageUse =
  iv_ID :: int
  iv_PostID :: int
  iv_CommentID :: int
  iv_Hash :: string
  iv_Width :: int
  iv_Height :: int

definition scan_image :: "image \<Rightarrow> ImageUse" where
  "scan_image im = \<lparr>iv_ID = im_id im, iv_PostID = im_post im, iv_CommentID = null_int (im_comment im), iv_Hash = im_hash im,
     iv_Width = im_width im, iv_Height = im_height im\<rparr>"

definition Images :: "int \<Rightarrow> group_db \<Rightarrow> ImageUse list" where
  "Images postID db =
     map scan_image (sort_key (\<lambda>im. (im_sort im, im_id im)) (filter (\<lambda>im. im_post im = postID) (images db)))"

definition ImageUses :: "string \<Rightarrow> group_db \<Rightarrow> ImageUse list" where
  "ImageUses h db = take 20 (map scan_image (filter (\<lambda>im. im_hash im = h) (images db)))"

text \<open>Over every group's file on the node, and the site's.\<close>

definition BlobHashes :: "site_db \<Rightarrow> (int \<times> group_db) list \<Rightarrow> string list" where
  "BlobHashes site files =
     remdups (concat (map (\<lambda>u. case user_photo_key u of None \<Rightarrow> [] | Some h \<Rightarrow> [h]) (users site))
       @ concat (map (\<lambda>(g, db). map im_hash (images db)) files))"

definition GroupBlobHashes :: "group_db \<Rightarrow> string list" where
  "GroupBlobHashes db = sort (remdups (map im_hash (images db)))"

section \<open>People\<close>

definition Handles :: "int list \<Rightarrow> site_db \<Rightarrow> (int \<times> string) list" where
  "Handles ids db = map (\<lambda>u. (user_id u, null_str (user_handle u))) (filter (\<lambda>u. user_id u \<in> set ids) (users db))"

definition Mods :: "group_db \<Rightarrow> int list" where
  "Mods db = map m_user (sort_key (\<lambda>m. (m_role m = Mod, m_created m))
     (filter (\<lambda>m. (m_role m = Owner \<or> m_role m = Mod) \<and> m_status m = Active) (memberships db)))"

definition MemberCount :: "group_db \<Rightarrow> int" where
  "MemberCount db = int (length (filter (\<lambda>m. m_status m = Active) (memberships db)))"

definition GroupUserIDs :: "group_db \<Rightarrow> int list" where
  "GroupUserIDs db = sort (remdups (map m_user (memberships db)
     @ List.map_filter p_user (posts db) @ List.map_filter c_user (comments db)))"

section \<open>Votes, follows, the bell\<close>

definition Following :: "int \<Rightarrow> int \<Rightarrow> group_db \<Rightarrow> bool" where
  "Following postID userID db = list_ex (\<lambda>f. fo_user f = userID \<and> fo_post f = postID) (follows db)"

definition in_thread :: "group_db \<Rightarrow> int \<Rightarrow> int \<Rightarrow> bool" where
  "in_thread db postID i = list_ex (\<lambda>p. p_id p = i \<and> (p_id p = postID \<or> p_continues p = Some postID)) (posts db)"

definition MyHelpful :: "int \<Rightarrow> int \<Rightarrow> group_db \<Rightarrow> string list" where
  "MyHelpful postID userID db =
     map (\<lambda>v. kind_str (v_kind v) @ '':'' @ FormatInt (v_item v))
       (filter (\<lambda>v. v_user v = userID
          \<and> (v_kind v = Post \<and> in_thread db postID (v_item v)
             \<or> v_kind v = Comment \<and> list_ex (\<lambda>c. c_id c = v_item v \<and> in_thread db postID (c_post c)) (comments db)))
        (votes db))"

record Notification =
  nv_ID :: int
  nv_GroupID :: int
  nv_UserID :: int
  nv_Kind :: notice
  nv_PostID :: int
  nv_RefID :: int
  nv_ActorID :: int
  nv_ReadAt :: int
  nv_CreatedAt :: int
  nv_PostTitle :: string
  nv_PostAuthor :: int
  nv_Anonymous :: bool
  nv_RefKind :: kind

definition scanNote :: "int \<Rightarrow> group_db \<Rightarrow> notification \<Rightarrow> Notification" where
  "scanNote groupID db n =
     (let p = get_post db (no_post n);
          c = (if no_kind n \<noteq> NoteLinked then get_comment db (no_ref n) else None)
      in \<lparr>nv_ID = no_id n, nv_GroupID = groupID, nv_UserID = no_user n, nv_Kind = no_kind n, nv_PostID = no_post n,
          nv_RefID = no_ref n, nv_ActorID = no_actor n, nv_ReadAt = null_int (no_read n), nv_CreatedAt = no_created n,
          nv_PostTitle = (case p of None \<Rightarrow> [] | Some p \<Rightarrow> p_title p),
          nv_PostAuthor = (case p of None \<Rightarrow> 0 | Some p \<Rightarrow> null_int (p_user p)),
          nv_Anonymous = (case c of None \<Rightarrow> False | Some c \<Rightarrow> c_anonymous c),
          nv_RefKind = (if no_kind n \<noteq> NoteLinked \<and> no_ref n \<noteq> 0 then Comment else Post)\<rparr>)"

definition Notifications :: "int \<Rightarrow> int \<Rightarrow> int \<Rightarrow> group_db \<Rightarrow> Notification list" where
  "Notifications groupID userID limit db =
     map (scanNote groupID db) (page limit 0 (sort_key (\<lambda>n. - no_id n) (filter (\<lambda>n. no_user n = userID) (notifications db))))"

definition UnreadCount :: "int \<Rightarrow> group_db \<Rightarrow> int" where
  "UnreadCount userID db = int (length (filter (\<lambda>n. no_user n = userID \<and> no_read n = None) (notifications db)))"

definition PendingEmail :: "int \<Rightarrow> int \<Rightarrow> int list \<Rightarrow> group_db \<Rightarrow> Notification list" where
  "PendingEmail groupID before userIDs db =
     (if userIDs = [] then []
      else map (scanNote groupID db) (take 5000 (sort_key no_id
        (filter (\<lambda>n. no_read n = None \<and> no_emailed n = None \<and> no_created n \<le> before \<and> no_user n \<in> set userIDs)
          (notifications db)))))"

record User =
  uv_ID :: int
  uv_Handle :: string
  uv_Email :: string
  uv_IsOperator :: bool
  uv_SuspendedUntil :: int
  uv_CreatedAt :: int
  uv_NotifyEmail :: bool
  uv_Digest :: string
  uv_Bio :: string
  uv_Photo :: string

definition scanUser :: "user \<Rightarrow> User" where
  "scanUser u = \<lparr>uv_ID = user_id u, uv_Handle = null_str (user_handle u), uv_Email = null_str (user_email u),
     uv_IsOperator = user_is_operator u, uv_SuspendedUntil = user_suspended_until u, uv_CreatedAt = user_created u,
     uv_NotifyEmail = user_notify_email u, uv_Digest = user_digest u, uv_Bio = null_str (user_bio u),
     uv_Photo = null_str (user_photo_key u)\<rparr>"

definition EmailUsers :: "site_db \<Rightarrow> (int \<times> User) list" where
  "EmailUsers db = map (\<lambda>u. (user_id u, scanUser u))
     (filter (\<lambda>u. (user_notify_email u \<or> user_digest u \<noteq> ''off'') \<and> user_email u \<noteq> None \<and> user_deleted_at u = None) (users db))"

end
