(* ===== verification/ReadsAI.thy ===== *)
theory ReadsAI
  imports Reads Sources
begin

text \<open>
  What the AI side reads: \<^verbatim>\<open>internal/store/ai.go\<close> (the queue, notes, links, threads written out for the
  model) and the words of a search (\<^verbatim>\<open>search.go\<close>). The full-text engine is SQLite's own and is left out.
\<close>

section \<open>The queue\<close>

record Job =
  jv_ID :: int
  jv_Kind :: job_kind
  jv_RefID :: int
  jv_RefVersion :: int

definition DueJobs :: "int \<Rightarrow> int \<Rightarrow> group_db \<Rightarrow> Job list" where
  "DueJobs now limit db =
     map (\<lambda>j. \<lparr>jv_ID = j_id j, jv_Kind = j_kind j, jv_RefID = j_ref j, jv_RefVersion = j_ref_version j\<rparr>)
       (page limit 0 (sort_key (\<lambda>j. (j_run_after j, j_id j))
         (filter (\<lambda>j. j_done_at j = None \<and> j_run_after j \<le> now
            \<and> (case j_lease_until j of None \<Rightarrow> True | Some l \<Rightarrow> l < now)) (jobs db))))"

text \<open>Over every group's file: jobs due now, and jobs for later.\<close>

definition QueueDepth :: "int \<Rightarrow> (int \<times> group_db) list \<Rightarrow> int \<times> int" where
  "QueueDepth now files =
     (let open_jobs = concat (map (\<lambda>(g, db). filter (\<lambda>j. j_done_at j = None) (jobs db)) files)
      in (int (length (filter (\<lambda>j. j_run_after j \<le> now) open_jobs)), int (length (filter (\<lambda>j. j_run_after j > now) open_jobs))))"

section \<open>Notes and links\<close>

record Note =
  ov_ID :: int
  ov_HostPostID :: int
  ov_AfterCommentID :: int
  ov_Kind :: note_kind
  ov_Text :: string
  ov_Stale :: bool
  ov_UpdatedAt :: int
  ov_SourceGroupID :: int
  ov_SourcePostID :: int

definition note_view :: "group_db \<Rightarrow> note_row \<Rightarrow> Note" where
  "note_view db n =
     (let s = find (\<lambda>s. ns_note s = n_id n) (note_sources db) in
      \<lparr>ov_ID = n_id n, ov_HostPostID = n_host n, ov_AfterCommentID = n_after n, ov_Kind = n_kind n, ov_Text = n_text n,
       ov_Stale = n_stale n, ov_UpdatedAt = n_updated n,
       ov_SourceGroupID = (case s of None \<Rightarrow> 0 | Some s \<Rightarrow> ns_group s), ov_SourcePostID = (case s of None \<Rightarrow> 0 | Some s \<Rightarrow> ns_post s)\<rparr>)"

definition Notes :: "int \<Rightarrow> group_db \<Rightarrow> Note list" where
  "Notes hostPostID db =
     map (note_view db) (sort_key (\<lambda>n. (n_created n, n_id n))
       (filter (\<lambda>n. n_host n = hostPostID \<and> n_state n = NoteActive) (note_rows db)))"

definition Note_read :: "int \<Rightarrow> group_db \<Rightarrow> Note option" where
  "Note_read i db = map_option (note_view db) (find (\<lambda>n. n_id n = i \<and> n_state n = NoteActive) (note_rows db))"

definition NoteVersion :: "int \<Rightarrow> group_db \<Rightarrow> int" where
  "NoteVersion noteID db =
     sum_list [p_thread_version p. s \<leftarrow> filter (\<lambda>s. ns_note s = noteID) (note_sources db), p \<leftarrow> posts db, p_id p = ns_post s]
     + (case find (\<lambda>n. n_id n = noteID) (note_rows db) of None \<Rightarrow> 0 | Some n \<Rightarrow> n_ext_version n)"

definition other_end :: "int \<Rightarrow> post_link \<Rightarrow> int" where
  "other_end i l = (if pl_older l = i then pl_newer l else pl_older l)"

definition LinkedPosts :: "int \<Rightarrow> group_db \<Rightarrow> int list" where
  "LinkedPosts postID db = map (other_end postID)
     (filter (\<lambda>l. (pl_older l = postID \<or> pl_newer l = postID) \<and> pl_state l = LinkActive) (post_links db))"

definition LinkPairs :: "int \<Rightarrow> group_db \<Rightarrow> int list" where
  "LinkPairs postID db = remdups (map (other_end postID)
     (filter (\<lambda>l. pl_older l = postID \<or> pl_newer l = postID) (post_links db)))"

definition Updates :: "int \<Rightarrow> group_db \<Rightarrow> Post list" where
  "Updates postID db = map (scanPost db) (sort_key (\<lambda>p. (p_created p, p_id p))
     (filter (\<lambda>p. p_continues p = Some postID) (posts db)))"

definition PostsByUser :: "int \<Rightarrow> int \<Rightarrow> int \<Rightarrow> group_db \<Rightarrow> Post list" where
  "PostsByUser userID before limit db = map (scanPost db) (page limit 0 (sort_key (\<lambda>p. - p_id p)
     (filter (\<lambda>p. p_user p = Some userID \<and> p_id p < before \<and> shown (p_status p) \<and> p_continues p = None) (posts db))))"

section \<open>A thread for the model\<close>

text \<open>A day number as a date (the proleptic Gregorian calendar, years from 1 March), in the layout \<^verbatim>\<open>2006-01-02\<close>.\<close>

definition pad :: "nat \<Rightarrow> int \<Rightarrow> string" where
  "pad n i = replicate (n - length (FormatInt i)) (CHR ''0'') @ FormatInt i"

definition civil :: "int \<Rightarrow> int \<times> int \<times> int" where
  "civil days =
     (let z = days + 719468; era = z div 146097; doe = z - era * 146097;
          yoe = (doe - doe div 1460 + doe div 36524 - doe div 146096) div 365;
          doy = doe - (365 * yoe + yoe div 4 - yoe div 100);
          mp = (5 * doy + 2) div 153;
          d = doy - (153 * mp + 2) div 5 + 1;
          m = (if mp < 10 then mp + 3 else mp - 9);
          y = yoe + era * 400 + (if m \<le> 2 then 1 else 0)
      in (y, m, d))"

definition ymd :: "int \<Rightarrow> string" where
  "ymd unix = (case civil (unix div 86400) of (y, m, d) \<Rightarrow> pad 4 y @ ''-'' @ pad 2 m @ ''-'' @ pad 2 d)"

definition ellipsis :: string where
  "ellipsis = [CHR 0xE2, CHR 0x80, CHR 0xA6]"

definition oneParagraph :: "string \<Rightarrow> string" where
  "oneParagraph s = (let s = Join (Fields s) '' '' in if length s > 2000 then take 2000 s @ ellipsis else s)"

text \<open>Labels of authors: \<open>OP\<close>, \<open>commenter 1\<close>, \<open>commenter 2\<close> ... \<open>labels\<close> is the map, \<open>next\<close> the counter.\<close>

definition commenter :: "int \<Rightarrow> string" where
  "commenter n = ''commenter '' @ FormatInt n"

definition label_of :: "Comment \<Rightarrow> (int \<rightharpoonup> string) \<times> int \<Rightarrow> string \<times> (int \<rightharpoonup> string) \<times> int" where
  "label_of c = (\<lambda>(labels, nxt).
     if cv_UserID c = 0 then (commenter nxt, labels, nxt + 1)
     else case labels (cv_UserID c) of
            Some l \<Rightarrow> (l, labels, nxt)
          | None \<Rightarrow> (commenter nxt, labels(cv_UserID c \<mapsto> commenter nxt), nxt + 1))"

fun thread_lines :: "Comment list \<Rightarrow> (int \<rightharpoonup> string) \<times> int \<Rightarrow> string list" where
  "thread_lines [] st = []"
| "thread_lines (c # cs) st =
     (if \<not> shown (cv_Status c) then thread_lines cs st
      else let (who, st') = label_of c st in
           (who @ (if cv_ParentID c \<noteq> 0 then '' (reply)'' else []) @ '', '' @ ymd (cv_CreatedAt c) @ '': '' @ oneParagraph (cv_Body c))
             # thread_lines cs st')"

text \<open>Whole lines from both ends, taken in turn, while the budget lasts: the first ones and the last ones.\<close>

function both_ends :: "int \<Rightarrow> int \<Rightarrow> string list \<Rightarrow> string list \<Rightarrow> string list \<Rightarrow> string list \<times> string list" where
  "both_ends budget used first lst mid =
     (if mid = [] then (first, lst)
      else if length first \<le> length lst then
        (if used + int (length (hd mid)) > budget then (first, lst)
         else both_ends budget (used + int (length (hd mid)) + 1) (first @ [hd mid]) lst (tl mid))
      else
        (if used + int (length (last mid)) > budget then (first, lst)
         else both_ends budget (used + int (length (last mid)) + 1) first (last mid # lst) (butlast mid)))"
  by pat_completeness auto
termination by (relation "measure (\<lambda>(b, u, f, l, mid). length mid)") auto

declare both_ends.simps [simp del]

definition fit_lines :: "int \<Rightarrow> string list \<Rightarrow> string list" where
  "fit_lines budget lines =
     (if sum_list (map (\<lambda>l. int (length l) + 1) lines) > budget \<and> length lines > 4
      then let (first, lst) = both_ends budget 0 [] [] lines;
               skipped = int (length lines) - int (length first) - int (length lst)
           in first @ [''['' @ FormatInt skipped @ '' comments not shown]''] @ lst
      else lines)"

definition newline :: string where
  "newline = [CHR 0x0A]"

definition thread_head :: "Post \<Rightarrow> Post list \<Rightarrow> string" where
  "thread_head p ups =
     ''Title: '' @ pv_Title p @ newline @ ''Posted: '' @ ymd (pv_CreatedAt p) @ newline
     @ (if pv_Body p \<noteq> [] then ''OP: '' @ oneParagraph (pv_Body p) @ newline else [])
     @ concat (map (\<lambda>u. ''Update from OP ('' @ ymd (pv_CreatedAt u) @ ''): '' @ pv_Title u @ newline
         @ oneParagraph (pv_Body u) @ newline) ups)"

definition ThreadText :: "int \<Rightarrow> int \<Rightarrow> group_db \<Rightarrow> (string \<times> Post) option" where
  "ThreadText postID maxChars db =
     map_option (\<lambda>p.
       let ups = filter (\<lambda>u. shown (pv_Status u)) (Updates postID db);
           labels = (if pv_UserID p \<noteq> 0 then [pv_UserID p \<mapsto> ''OP''] else Map.empty);
           lines = thread_lines (concat (map (\<lambda>tp. Comments (pv_ID tp) db) (p # ups))) (labels, 1);
           head = thread_head p ups
       in (head @ Join (fit_lines (maxChars - int (length head)) lines) newline, p)) (Post_read postID db)"

text \<open>The numbered lines of the summary job, and the comment behind each; it stops where one does not fit.\<close>

fun numbered :: "int \<Rightarrow> Comment list \<Rightarrow> (int \<rightharpoonup> string) \<times> int \<Rightarrow> string \<Rightarrow> int list \<Rightarrow> string \<times> int list" where
  "numbered maxChars [] st b ids = (b, ids)"
| "numbered maxChars (c # cs) st b ids =
     (if \<not> shown (cv_Status c) then numbered maxChars cs st b ids
      else let (who, st') = label_of c st;
               line = ''['' @ FormatInt (int (length ids) + 1) @ ''] '' @ who @ (if cv_ParentID c \<noteq> 0 then '' (reply)'' else [])
                      @ '', '' @ ymd (cv_CreatedAt c) @ '': '' @ oneParagraph (cv_Body c) @ newline
           in if int (length b) + int (length line) > maxChars then (b, ids)
              else numbered maxChars cs st' (b @ line) (ids @ [cv_ID c]))"

definition NumberedComments :: "int \<Rightarrow> int \<Rightarrow> group_db \<Rightarrow> string \<times> int list" where
  "NumberedComments postID maxChars db =
     (case Post_read postID db of
        None \<Rightarrow> ([], [])
      | Some p \<Rightarrow>
        let labels = (if pv_UserID p \<noteq> 0 then [pv_UserID p \<mapsto> ''OP''] else Map.empty);
            head = ''Title: '' @ pv_Title p @ newline @ ''OP ('' @ ymd (pv_CreatedAt p) @ ''): '' @ oneParagraph (pv_Body p)
                   @ newline @ newline @ ''COMMENTS:'' @ newline
        in numbered maxChars (Comments postID db) (labels, 1) head [])"

section \<open>The words of a search\<close>

text \<open>
  \<open>lower\<close> is Unicode lower case and \<open>word_rune\<close> says which code points are letters or digits (Go's
  \<^verbatim>\<open>unicode\<close> tables).
\<close>

definition stopWords :: "string list" where
  "stopWords = Fields (''a about after all also am an and any anyone are as at be been but by can ''
     @ ''could did do does doing done for from get got had has have having he her here him his how i if in into is ''
     @ ''it its just know like me my no not of on one or our out so some someone than that the their them then ''
     @ ''there these they this those to too up us was we were what when where which who why will with would you ''
     @ ''your yours thanks thank please help anybody anything everyone does did ive im dont cant has hasnt'')"

text \<open>\<^verbatim>\<open>strings.FieldsFunc\<close>: the longest stretches of runes that are not separators.\<close>

fun fields_func :: "(nat \<Rightarrow> bool) \<Rightarrow> (nat \<times> string) list \<Rightarrow> string \<Rightarrow> string list" where
  "fields_func sep [] w = (if w = [] then [] else [w])"
| "fields_func sep ((r, b) # rs) w =
     (if sep r then (if w = [] then [] else [w]) @ fields_func sep rs []
      else fields_func sep rs (w @ b))"

fun new_terms :: "string list \<Rightarrow> string list \<Rightarrow> string list" where
  "new_terms seen [] = []"
| "new_terms seen (w # ws) =
     (if length w < 2 \<or> w \<in> set stopWords \<or> w \<in> set seen then new_terms seen ws
      else w # new_terms (w # seen) ws)"

definition Terms :: "(string \<Rightarrow> string) \<Rightarrow> (nat \<Rightarrow> bool) \<Rightarrow> string \<Rightarrow> string list" where
  "Terms lower word_rune text = new_terms [] (fields_func (\<lambda>r. \<not> word_rune r) (runes (lower text)) [])"

definition quoted :: "string \<Rightarrow> string" where
  "quoted w = CHR 0x22 # w @ [CHR 0x22]"

definition FTSQuery :: "(string \<Rightarrow> string) \<Rightarrow> (nat \<Rightarrow> bool) \<Rightarrow> string \<Rightarrow> string list \<Rightarrow> string" where
  "FTSQuery lower word_rune text phrases =
     Join (map quoted (Terms lower word_rune text)
           @ concat (map (\<lambda>p. case Terms lower word_rune p of [] \<Rightarrow> [] | ws \<Rightarrow> [quoted (Join ws '' '')]) phrases)) '' OR ''"

end
