(* ===== verification/ReadsFAQ.thy ===== *)
theory ReadsFAQ
  imports ReadsAI Clusters Faq
begin

text \<open>
  What pages read of a group's FAQ, topics, nudges and outside pages: \<^verbatim>\<open>internal/store/faq.go\<close> and
  \<^verbatim>\<open>sources.go\<close>.
\<close>

section \<open>Topics\<close>

text \<open>A tree of two levels: \<open>tv_Children\<close> of a child is empty.\<close>

record TopicLeaf =
  tv_ID :: int
  tv_ParentID :: int
  tv_Title :: string
  tv_Sort :: int
  tv_Locked :: bool
  tv_Entries :: int

record Topic = TopicLeaf +
  tv_Children :: "TopicLeaf list"

definition topic_leaf :: "group_db \<Rightarrow> faq_topic \<Rightarrow> TopicLeaf" where
  "topic_leaf db t = \<lparr>tv_ID = t_id t, tv_ParentID = t_parent t, tv_Title = t_title t, tv_Sort = t_sort t, tv_Locked = t_locked t,
     tv_Entries = int (length (filter (\<lambda>e. e_topic e = t_id t \<and> e_status e = EntryActive) (faq_entries db)))\<rparr>"

definition live_topics :: "group_db \<Rightarrow> TopicLeaf list" where
  "live_topics db = map (topic_leaf db) (sort_key (\<lambda>t. (t_sort t, nocase (t_title t), t_id t))
     (filter (\<lambda>t. t_merged_into t = None) (faq_topics db)))"

definition Topics :: "group_db \<Rightarrow> Topic list" where
  "Topics db =
     (let all = live_topics db in
      map (\<lambda>t. TopicLeaf.extend t \<lparr>tv_Children = filter (\<lambda>c. tv_ParentID c = tv_ID t) all\<rparr>)
        (filter (\<lambda>t. tv_ParentID t = 0) all))"

definition FlatTopics :: "Topic list \<Rightarrow> TopicLeaf list" where
  "FlatTopics outline = concat (map (\<lambda>t. TopicLeaf.truncate t # tv_Children t) outline)"

text \<open>A topic, following at most ten merges; its entries are not counted here.\<close>

fun topic_from :: "nat \<Rightarrow> int \<Rightarrow> group_db \<Rightarrow> faq_topic option" where
  "topic_from 0 i db = None"
| "topic_from (Suc n) i db =
     (case find (\<lambda>t. t_id t = i) (faq_topics db) of
        None \<Rightarrow> None
      | Some t \<Rightarrow> (case t_merged_into t of None \<Rightarrow> Some t | Some m \<Rightarrow> topic_from n m db))"

definition Topic_read :: "int \<Rightarrow> group_db \<Rightarrow> TopicLeaf option" where
  "Topic_read i db = map_option (\<lambda>t. \<lparr>tv_ID = t_id t, tv_ParentID = t_parent t, tv_Title = t_title t, tv_Sort = t_sort t,
     tv_Locked = t_locked t, tv_Entries = 0\<rparr>) (topic_from 10 i db)"

section \<open>Entries\<close>

record Entry =
  ev_ID :: int
  ev_TopicID :: int
  ev_Question :: string
  ev_Answer :: string
  ev_Status :: entry_status
  ev_Locked :: bool
  ev_Stale :: bool
  ev_Version :: int
  ev_Suggestion :: string
  ev_CreatedAt :: int
  ev_UpdatedAt :: int
  ev_UpdatedBy :: int
  ev_Sources :: int

definition scanEntry :: "group_db \<Rightarrow> faq_entry \<Rightarrow> Entry" where
  "scanEntry db e = \<lparr>ev_ID = e_id e, ev_TopicID = e_topic e, ev_Question = e_question e, ev_Answer = e_answer e,
     ev_Status = e_status e, ev_Locked = e_locked e, ev_Stale = e_stale e, ev_Version = e_version e,
     ev_Suggestion = null_str (e_suggestion e), ev_CreatedAt = e_created e, ev_UpdatedAt = e_updated e,
     ev_UpdatedBy = null_int (e_updated_by e),
     ev_Sources = int (length [p. s \<leftarrow> faq_sources db, fs_entry s = e_id e, p \<leftarrow> posts db, p_id p = fs_post s \<and> shown (p_status p)])\<rparr>"

definition Entries :: "bool \<Rightarrow> group_db \<Rightarrow> Entry list" where
  "Entries withHidden db = map (scanEntry db) (sort_key (\<lambda>e. (e_topic e, e_sort e, e_id e))
     (filter (\<lambda>e. withHidden \<or> e_status e = EntryActive) (faq_entries db)))"

definition Entry_read :: "int \<Rightarrow> group_db \<Rightarrow> Entry option" where
  "Entry_read i db = map_option (scanEntry db) (get_entry db i)"

definition EntriesForPost :: "int \<Rightarrow> group_db \<Rightarrow> Entry list" where
  "EntriesForPost postID db = map (scanEntry db) (sort_key e_id
     (filter (\<lambda>e. e_status e = EntryActive \<and> list_ex (\<lambda>s. fs_entry s = e_id e \<and> fs_post s = postID) (faq_sources db))
       (faq_entries db)))"

definition EntryCount :: "group_db \<Rightarrow> int" where
  "EntryCount db = int (length (filter (\<lambda>e. e_status e = EntryActive) (faq_entries db)))"

definition EntryPosts :: "int \<Rightarrow> group_db \<Rightarrow> Post list" where
  "EntryPosts entryID db = map (scanPost db) (sort_key (\<lambda>p. (- p_created p, - p_id p))
     (filter (\<lambda>p. list_ex (\<lambda>s. fs_entry s = entryID \<and> fs_post s = p_id p) (faq_sources db)) (posts db)))"

record History =
  hi_ID :: int
  hi_Question :: string
  hi_Answer :: string
  hi_ChangedBy :: int
  hi_CreatedAt :: int

definition EntryHistory :: "int \<Rightarrow> group_db \<Rightarrow> History list" where
  "EntryHistory entryID db =
     map (\<lambda>h. \<lparr>hi_ID = h_id h, hi_Question = h_question h, hi_Answer = h_answer h, hi_ChangedBy = null_int (h_changed_by h),
               hi_CreatedAt = h_created h\<rparr>)
       (sort_key (\<lambda>h. - h_id h) (filter (\<lambda>h. h_entry h = entryID) (faq_history db)))"

record FAQComment =
  qc_ID :: int
  qc_UserID :: int
  qc_Body :: string
  qc_CreatedAt :: int

definition EntryComments :: "int \<Rightarrow> group_db \<Rightarrow> FAQComment list" where
  "EntryComments entryID db =
     map (\<lambda>c. \<lparr>qc_ID = fc_id c, qc_UserID = fc_user c, qc_Body = fc_body c, qc_CreatedAt = fc_created c\<rparr>)
       (sort_key (\<lambda>c. (fc_created c, fc_id c)) (filter (\<lambda>c. fc_entry c = entryID \<and> fc_status c = FCVisible) (faq_comments db)))"

definition FAQCommentAuthor :: "int \<Rightarrow> group_db \<Rightarrow> int \<times> int" where
  "FAQCommentAuthor i db = (case find (\<lambda>c. fc_id c = i) (faq_comments db) of None \<Rightarrow> (0, 0) | Some c \<Rightarrow> (fc_user c, fc_entry c))"

text \<open>The topics of a post, and whether a person chose them.\<close>

definition PostTopics :: "int \<Rightarrow> group_db \<Rightarrow> (int \<times> int \<times> string) list \<times> bool" where
  "PostTopics postID db =
     (map (\<lambda>t. (t_id t, t_parent t, t_title t))
        (sort_key t_title [t. pt \<leftarrow> post_topics db, pt_post pt = postID, t \<leftarrow> faq_topics db,
            t_id t = pt_topic pt \<and> t_merged_into t = None]),
      case get_post db postID of None \<Rightarrow> False | Some p \<Rightarrow> p_topics_manual p)"

definition TopicPosts :: "int \<Rightarrow> int \<Rightarrow> int \<Rightarrow> group_db \<Rightarrow> Post list" where
  "TopicPosts topicID limit offset db =
     (let covers = (\<lambda>t. t = topicID \<or> list_ex (\<lambda>r. t_id r = t \<and> t_parent r = topicID) (faq_topics db));
          on_topic = (\<lambda>p. list_ex (\<lambda>pt. pt_post pt = p \<and> covers (pt_topic pt)) (post_topics db)
            \<or> list_ex (\<lambda>s. fs_post s = p \<and> list_ex (\<lambda>e. e_id e = fs_entry s \<and> e_status e = EntryActive \<and> covers (e_topic e))
                (faq_entries db)) (faq_sources db));
          in_faq = (\<lambda>p. list_ex (\<lambda>s. fs_post s = p) (faq_sources db))
      in page limit offset (map (scanPost db) (sort_key (\<lambda>p. (\<not> in_faq (p_id p), - p_comment_count p, - p_last_activity p))
           (filter (\<lambda>p. on_topic (p_id p)) (feed_rows db)))))"

section \<open>The threads around a post\<close>

text \<open>Posts joined to \<open>i\<close> by an active link and plainly visible, in id order.\<close>

definition neighbours :: "group_db \<Rightarrow> int \<Rightarrow> int list" where
  "neighbours db i = sort [p_id p. l \<leftarrow> post_links db,
     (pl_older l = i \<or> pl_newer l = i) \<and> pl_state l = LinkActive,
     p \<leftarrow> posts db, p_id p = other_end i l \<and> p_status p = Visible]"

text \<open>The inner loop: what of \<open>next\<close> is new, while there is room.\<close>

fun take_new :: "nat \<Rightarrow> int list \<Rightarrow> int list \<Rightarrow> int list" where
  "take_new room seen [] = []"
| "take_new room seen (i # is) =
     (if i \<notin> set seen \<and> room > 0 then i # take_new (room - 1) (i # seen) is else take_new room seen is)"

lemma take_new_length: "length (take_new room seen is) \<le> room"
  by (induction room seen "is" rule: take_new.induct) auto

text \<open>The outer loop: \<open>todo\<close> is the queue from its cursor on, \<open>seen\<close> all that was ever queued.\<close>

function spread :: "group_db \<Rightarrow> nat \<Rightarrow> int list \<Rightarrow> int list \<Rightarrow> int list" where
  "spread db mx seen todo =
     (if todo = [] \<or> length seen \<ge> mx then seen
      else let new = take_new (mx - length seen) seen (neighbours db (hd todo))
           in spread db mx (seen @ new) (tl todo @ new))"
  by pat_completeness auto
termination
proof (relation "measure (\<lambda>(db, mx, seen, todo). 2 * (mx - length seen) + length todo)")
  fix db mx seen todo new
  assume *: "\<not> (todo = [] \<or> mx \<le> length seen)" and "new = take_new (mx - length seen) seen (neighbours db (hd todo))"
  then have "length new \<le> mx - length seen" by (simp add: take_new_length)
  with * show "((db, mx, seen @ new, tl todo @ new), db, mx, seen, todo)
      \<in> measure (\<lambda>(db, mx, seen, todo). 2 * (mx - length seen) + length todo)" by (cases todo) auto
qed simp

declare spread.simps [simp del]

definition Cluster :: "int \<Rightarrow> nat \<Rightarrow> group_db \<Rightarrow> int list" where
  "Cluster postID mx db = sort (spread db mx [postID] [postID])"

section \<open>Nudges, what a note is written from\<close>

record NudgeView =
  nz_NudgeID :: int
  nz_Kind :: nudge_kind
  nz_TargetID :: int
  nz_Value :: int
  nz_Reason :: string
  nz_Reversed :: bool

definition Nudges :: "int \<Rightarrow> group_db \<Rightarrow> NudgeView list" where
  "Nudges postID db =
     map (\<lambda>u. \<lparr>nz_NudgeID = u_id u, nz_Kind = u_kind u, nz_TargetID = u_target u, nz_Value = u_value u, nz_Reason = u_reason u,
               nz_Reversed = (u_state u = NudgeReversed)\<rparr>)
       (sort_key (\<lambda>u. (u_value u, u_id u)) (filter (\<lambda>u. u_post u = postID) (nudges db)))"

definition NoteSources :: "int \<Rightarrow> group_db \<Rightarrow> note_source list" where
  "NoteSources noteID db = sort_key (\<lambda>s. (ns_source s \<noteq> 0, ns_post s, ns_comment s, ns_source s))
     (filter (\<lambda>s. ns_note s = noteID) (note_sources db))"

section \<open>Outside pages\<close>

record Source =
  sv_ID :: int
  sv_URL :: string
  sv_Site :: string
  sv_Title :: string
  sv_PublishedAt :: int
  sv_Summary :: string
  sv_Via :: via
  sv_AddedBy :: int
  sv_Status :: source_status
  sv_Problem :: string
  sv_CheckedAt :: int
  sv_CreatedAt :: int
  sv_Version :: int
  sv_IsList :: bool
  sv_Hash :: string

definition Shown :: "Source \<Rightarrow> bool" where
  "Shown s = ((sv_Status s = SrcActive \<or> sv_Status s = SrcGone) \<and> sv_Summary s \<noteq> [] \<and> \<not> sv_IsList s)"

definition scanSource :: "source_row \<Rightarrow> Source" where
  "scanSource s = \<lparr>sv_ID = so_id s, sv_URL = so_url s, sv_Site = so_site s, sv_Title = so_title s,
     sv_PublishedAt = null_int (so_published s), sv_Summary = so_summary s, sv_Via = so_via s, sv_AddedBy = null_int (so_added_by s),
     sv_Status = so_status s, sv_Problem = so_problem s, sv_CheckedAt = null_int (so_checked s), sv_CreatedAt = so_created s,
     sv_Version = so_version s, sv_IsList = so_is_list s, sv_Hash = null_str (so_hash s)\<rparr>"

definition Source_read :: "int \<Rightarrow> group_db \<Rightarrow> Source option" where
  "Source_read i db = map_option scanSource (get_source db i)"

definition linked_sources :: "(source_link \<Rightarrow> bool) \<Rightarrow> group_db \<Rightarrow> Source list" where
  "linked_sources P db = map scanSource (sort_key (\<lambda>s. (so_status s = SrcGone, so_id s))
     (filter (\<lambda>s. list_ex (\<lambda>l. sl_source l = so_id s \<and> P l) (source_links db)) (sources db)))"

definition SourcesForPost :: "int \<Rightarrow> group_db \<Rightarrow> Source list" where
  "SourcesForPost postID db = linked_sources (\<lambda>l. sl_post l = postID) db"

definition SourcesForEntry :: "int \<Rightarrow> group_db \<Rightarrow> Source list" where
  "SourcesForEntry entryID db = linked_sources (\<lambda>l. sl_entry l = entryID) db"

definition SourceQueue :: "group_db \<Rightarrow> Source list" where
  "SourceQueue db = take 200 (map scanSource (sort_key (\<lambda>s. (so_created s, so_id s))
     (filter (\<lambda>s. \<not> so_is_list s \<and> (so_status s = SrcPending \<or> so_status s = SrcActive \<and> so_problem s \<noteq> [])) (sources db))))"

definition RecentSources :: "int \<Rightarrow> group_db \<Rightarrow> Source list" where
  "RecentSources limit db = page limit 0 (map scanSource (sort_key (\<lambda>s. (- so_created s, - so_id s))
     (filter (\<lambda>s. \<not> so_is_list s \<and> so_status s \<noteq> SrcPending) (sources db))))"

definition AllowedDomains :: "group_db \<Rightarrow> string list" where
  "AllowedDomains db = sort (map sd_domain (source_domains db))"

end
