(* ===== verification/ReadsSite.thy ===== *)
theory ReadsSite
  imports Reads Members
begin

text \<open>
  What pages read of the site's file and of a group's people: \<^verbatim>\<open>internal/store/members.go\<close>, \<^verbatim>\<open>site.go\<close>,
  \<^verbatim>\<open>nodes.go\<close> and \<^verbatim>\<open>group.go\<close>.
\<close>

section \<open>Settings and members\<close>

definition GroupSettings :: "group_db \<Rightarrow> settings option" where
  "GroupSettings db = settings_row db"

record Membership =
  mv_Role :: role
  mv_Status :: mstatus
  mv_BannedUntil :: int
  mv_DigestSentAt :: int

definition Membership_read :: "int \<Rightarrow> group_db \<Rightarrow> Membership option" where
  "Membership_read userID db = map_option (\<lambda>m. \<lparr>mv_Role = m_role m, mv_Status = m_status m, mv_BannedUntil = m_banned_until m,
     mv_DigestSentAt = m_digest_sent m\<rparr>) (find (\<lambda>m. m_user m = userID) (memberships db))"

record JoinRequest =
  jr_UserID :: int
  jr_Answers :: string
  jr_CreatedAt :: int

definition JoinRequests :: "group_db \<Rightarrow> JoinRequest list" where
  "JoinRequests db = map (\<lambda>m. \<lparr>jr_UserID = m_user m, jr_Answers = m_answers m, jr_CreatedAt = m_created m\<rparr>)
     (sort_key m_created (filter (\<lambda>m. m_status m = Pending) (memberships db)))"

record Invite =
  vi_Code :: string
  vi_CreatedBy :: int
  vi_MaxUses :: int
  vi_Uses :: int
  vi_ExpiresAt :: int
  vi_Revoked :: bool
  vi_CreatedAt :: int

definition Usable :: "Invite \<Rightarrow> int \<Rightarrow> bool" where
  "Usable i now = (\<not> vi_Revoked i \<and> vi_Uses i < vi_MaxUses i \<and> vi_ExpiresAt i > now)"

definition scanInvite :: "invite \<Rightarrow> Invite" where
  "scanInvite i = \<lparr>vi_Code = i_code i, vi_CreatedBy = i_created_by i, vi_MaxUses = i_max_uses i, vi_Uses = i_uses i,
     vi_ExpiresAt = i_expires i, vi_Revoked = i_revoked i, vi_CreatedAt = i_created i\<rparr>"

definition Invite_read :: "string \<Rightarrow> group_db \<Rightarrow> Invite option" where
  "Invite_read code db = map_option scanInvite (find (\<lambda>i. i_code i = code) (invites db))"

definition Invites :: "int \<Rightarrow> group_db \<Rightarrow> Invite list" where
  "Invites now db = map scanInvite (sort_key (\<lambda>i. - i_created i)
     (filter (\<lambda>i. \<not> i_revoked i \<and> i_uses i < i_max_uses i \<and> i_expires i > now) (invites db)))"

record Member =
  bv_UserID :: int
  bv_Role :: role
  bv_Status :: mstatus
  bv_BannedUntil :: int
  bv_CreatedAt :: int

definition role_rank :: "role \<Rightarrow> int" where
  "role_rank r = (case r of Owner \<Rightarrow> 0 | Mod \<Rightarrow> 1 | Member \<Rightarrow> 2)"

definition Members_list :: "int \<Rightarrow> group_db \<Rightarrow> Member list" where
  "Members_list limit db =
     map (\<lambda>m. \<lparr>bv_UserID = m_user m, bv_Role = m_role m, bv_Status = m_status m, bv_BannedUntil = m_banned_until m, bv_CreatedAt = m_created m\<rparr>)
       (page limit 0 (sort_key (\<lambda>m. (m_status m = Banned, role_rank (m_role m), - m_created m))
         (filter (\<lambda>m. m_status m \<noteq> Pending) (memberships db))))"

section \<open>Moderating\<close>

record QueueItem =
  qv_Kind :: kind
  qv_ID :: int
  qv_PostID :: int
  qv_Title :: string
  qv_Body :: string
  qv_Status :: status
  qv_UserID :: int
  qv_Flag :: Flag
  qv_Reports :: int
  qv_Reasons :: string
  qv_At :: int

text \<open>The open reports on an item: how many, their reasons (the empty ones left out), the first one's time.\<close>

definition open_reports :: "group_db \<Rightarrow> kind \<Rightarrow> int \<Rightarrow> report list" where
  "open_reports db k i = filter (\<lambda>r. rp_kind r = k \<and> rp_item r = i \<and> rp_resolved r = None) (reports db)"

definition waits :: "group_db \<Rightarrow> kind \<Rightarrow> int \<Rightarrow> status \<Rightarrow> bool" where
  "waits db k i s = (s \<in> {Held, AutoHidden, Flagged} \<or> open_reports db k i \<noteq> [] \<and> s \<notin> {Removed, Deleted})"

definition queue_item :: "group_db \<Rightarrow> kind \<Rightarrow> int \<Rightarrow> int \<Rightarrow> string \<Rightarrow> string \<Rightarrow> status \<Rightarrow> int option \<Rightarrow> string option
    \<Rightarrow> string option \<Rightarrow> string option \<Rightarrow> int \<Rightarrow> QueueItem" where
  "queue_item db k i postID title body s user by cat why created =
     (let rs = open_reports db k i in
      \<lparr>qv_Kind = k, qv_ID = i, qv_PostID = postID, qv_Title = title, qv_Body = body, qv_Status = s, qv_UserID = null_int user,
       qv_Flag = \<lparr>fl_By = null_str by, fl_Category = null_str cat, fl_Reason = null_str why\<rparr>, qv_Reports = int (length rs),
       qv_Reasons = Join (filter (\<lambda>r. r \<noteq> []) (map rp_reason rs)) '' / '',
       qv_At = (if rs = [] then created else Min (set (map rp_created rs)))\<rparr>)"

definition ModQueue :: "group_db \<Rightarrow> QueueItem list" where
  "ModQueue db = take 200 (sort_key qv_At
     (map (\<lambda>p. queue_item db Post (p_id p) (p_id p) (p_title p) (p_body p) (p_status p) (p_user p) (p_flagged_by p)
               (p_flag_category p) (p_flag_reason p) (p_created p))
        (filter (\<lambda>p. waits db Post (p_id p) (p_status p)) (posts db))
      @ [queue_item db Comment (c_id c) (c_post c) (p_title p) (c_body c) (c_status c) (c_user c) (c_flagged_by c)
               (c_flag_category c) (c_flag_reason c) (c_created c).
           c \<leftarrow> comments db, p \<leftarrow> posts db, p_id p = c_post c \<and> waits db Comment (c_id c) (c_status c)]))"

record LogEntry =
  le_ActorID :: int
  le_Action :: string
  le_TargetType :: string
  le_TargetID :: int
  le_Reason :: string
  le_At :: int

definition ModLog :: "int \<Rightarrow> int \<Rightarrow> group_db \<Rightarrow> LogEntry list" where
  "ModLog limit offset db =
     map (\<lambda>l. \<lparr>le_ActorID = null_int (l_actor l), le_Action = l_action l, le_TargetType = l_target_type l, le_TargetID = l_target l,
               le_Reason = l_reason l, le_At = l_created l\<rparr>)
       (page limit offset (sort_key (\<lambda>l. - l_id l) (mod_log db)))"

definition vote_str :: "vote \<Rightarrow> string" where
  "vote_str v = (case v of Keep \<Rightarrow> ''keep'' | Hide \<Rightarrow> ''hide'')"

definition ItemVotes :: "kind \<Rightarrow> int \<Rightarrow> int \<Rightarrow> group_db \<Rightarrow> int \<times> int \<times> string" where
  "ItemVotes k i userID db =
     (let vs = filter (\<lambda>v. fv_kind v = k \<and> fv_item v = i) (flag_votes db) in
      (int (length (filter (\<lambda>v. fv_vote v = Keep) vs)), int (length (filter (\<lambda>v. fv_vote v = Hide) vs)),
       case filter (\<lambda>v. fv_user v = userID) vs of [] \<Rightarrow> []
         | ms \<Rightarrow> if list_ex (\<lambda>v. fv_vote v = Keep) ms then ''keep'' else ''hide''))"

definition HasShownContent :: "int \<Rightarrow> group_db \<Rightarrow> bool" where
  "HasShownContent userID db = (list_ex (\<lambda>p. p_user p = Some userID \<and> shown (p_status p)) (posts db)
     \<or> list_ex (\<lambda>c. c_user c = Some userID \<and> shown (c_status c)) (comments db))"

definition ModExamples :: "int \<Rightarrow> group_db \<Rightarrow> (string \<times> string) list" where
  "ModExamples n db = map (\<lambda>x. (me_text x, vote_str (me_decision x))) (page n 0 (sort_key (\<lambda>x. - me_id x) (mod_examples db)))"

section \<open>Sister groups\<close>

record Pair =
  rv_Other :: int
  rv_State :: pair_state
  rv_Topics :: string
  rv_Incoming :: bool

definition Pairs :: "int \<Rightarrow> site_db \<Rightarrow> Pair list" where
  "Pairs groupID db =
     map (\<lambda>p. \<lparr>rv_Other = (if gp_a p = groupID then gp_b p else gp_a p), rv_State = gp_state p, rv_Topics = gp_topics p,
               rv_Incoming = (gp_proposed_by_group p \<noteq> groupID)\<rparr>)
       (sort_key gp_updated (filter (\<lambda>p. (gp_a p = groupID \<or> gp_b p = groupID) \<and> gp_state p \<in> {PairProposed, PairActive})
         (group_pairs db)))"

definition Sisters_list :: "int \<Rightarrow> site_db \<Rightarrow> Pair list" where
  "Sisters_list groupID db = filter (\<lambda>p. rv_State p = PairActive) (Pairs groupID db)"

definition SisterLinks :: "int \<Rightarrow> group_db \<Rightarrow> (int \<times> int \<times> string \<times> int \<times> link_state) list" where
  "SisterLinks postID db = map (\<lambda>x. (x_group x, x_other x, x_title x, x_date x, x_state x))
     (filter (\<lambda>x. x_post x = postID) (sister_links db))"

record SisterNote =
  sz_NoteID :: int
  sz_HostPostID :: int
  sz_OtherGroup :: int
  sz_OtherPost :: int
  sz_ExtVersion :: int

definition SisterNotes :: "int \<Rightarrow> group_db \<Rightarrow> SisterNote list" where
  "SisterNotes groupID db =
     sort_key sz_NoteID [\<lparr>sz_NoteID = n_id n, sz_HostPostID = n_host n, sz_OtherGroup = ns_group s, sz_OtherPost = ns_post s,
         sz_ExtVersion = n_ext_version n\<rparr>.
       n \<leftarrow> note_rows db, n_kind n = LinkNote \<and> n_state n = NoteActive,
       s \<leftarrow> note_sources db, ns_note s = n_id n \<and> ns_group s \<noteq> groupID]"

section \<open>Domains and groups\<close>

definition PrimaryDomain_read :: "site_db \<Rightarrow> string" where
  "PrimaryDomain_read db = (case find (\<lambda>d. dm_role d = PrimaryDomain) (domains db) of None \<Rightarrow> [] | Some d \<Rightarrow> dm_name d)"

definition Domains :: "site_db \<Rightarrow> (string \<times> domain_role) list" where
  "Domains db = map (\<lambda>d. (dm_name d, dm_role d)) (sort_key (\<lambda>d. (dm_role d = AlternateDomain, dm_name d)) (domains db))"

record Group =
  gv_ID :: int
  gv_Slug :: string
  gv_MainHost :: string
  gv_Name :: string
  gv_Status :: string
  gv_CreatedAt :: int
  gv_Visibility :: visibility
  gv_AIEnabled :: bool

definition scanGroup :: "site_group \<Rightarrow> Group" where
  "scanGroup g = \<lparr>gv_ID = grp_id g, gv_Slug = grp_slug g, gv_MainHost = null_str (grp_main_host g), gv_Name = grp_name g,
     gv_Status = grp_status g, gv_CreatedAt = grp_created g, gv_Visibility = grp_visibility g, gv_AIEnabled = grp_ai g\<rparr>"

definition GroupByID :: "int \<Rightarrow> site_db \<Rightarrow> Group option" where
  "GroupByID i db = map_option scanGroup (find (\<lambda>g. grp_id g = i) (site_groups db))"

definition GroupBySlug :: "string \<Rightarrow> site_db \<Rightarrow> Group option" where
  "GroupBySlug slug db = map_option scanGroup (find (\<lambda>g. grp_slug g = slug) (site_groups db))"

definition GroupByMainHost :: "string \<Rightarrow> site_db \<Rightarrow> Group option" where
  "GroupByMainHost host db = map_option scanGroup (find (\<lambda>g. grp_main_host g = Some host) (site_groups db))"

definition Groups :: "site_db \<Rightarrow> Group list" where
  "Groups db = map scanGroup (sort_key grp_name (site_groups db))"

definition HostAlias :: "string \<Rightarrow> site_db \<Rightarrow> int \<times> bool" where
  "HostAlias host db = (case find (\<lambda>h. ha_host h = host) (host_aliases db) of None \<Rightarrow> (0, False) | Some h \<Rightarrow> (null_int (ha_group h), True))"

definition Cert_read :: "string \<Rightarrow> site_db \<Rightarrow> string option" where
  "Cert_read name db = map_option cert_pem (find (\<lambda>c. cert_domain c = name) (certs db))"

section \<open>Accounts\<close>

definition live_user :: "(user \<Rightarrow> bool) \<Rightarrow> site_db \<Rightarrow> User option" where
  "live_user P db = map_option scanUser (find (\<lambda>u. P u \<and> user_deleted_at u = None) (users db))"

definition UserByID :: "int \<Rightarrow> site_db \<Rightarrow> User option" where
  "UserByID i db = live_user (\<lambda>u. user_id u = i) db"

definition UserByHandle :: "string \<Rightarrow> site_db \<Rightarrow> User option" where
  "UserByHandle h db = live_user (\<lambda>u. map_option nocase (user_handle u) = Some (nocase h)) db"

definition UserByBlob :: "string \<Rightarrow> site_db \<Rightarrow> User option" where
  "UserByBlob h db = live_user (\<lambda>u. user_photo_key u = Some h) db"

definition UserBySession :: "string \<Rightarrow> int \<Rightarrow> site_db \<Rightarrow> User option" where
  "UserBySession tokenHash now db =
     (case find (\<lambda>s. ses_token s = tokenHash \<and> ses_expires s > now) (sessions db) of
        None \<Rightarrow> None
      | Some s \<Rightarrow> live_user (\<lambda>u. user_id u = ses_user s) db)"

definition HandleTaken :: "string \<Rightarrow> int \<Rightarrow> site_db \<Rightarrow> bool" where
  "HandleTaken h exceptID db = list_ex (\<lambda>u. user_handle u = Some h \<and> user_id u \<noteq> exceptID) (users db)"

definition UserByName :: "string \<Rightarrow> site_db \<Rightarrow> User option" where
  "UserByName name db =
     (let nm = TrimPrefix (TrimSpace name) ''@'' in
      live_user (\<lambda>u. map_option nocase (user_handle u) = Some (nocase nm) \<or> user_email u = Some (nocase nm)) db)"

record LoginToken =
  lk_TokenHash :: string
  lk_Email :: string
  lk_CodeHash :: string
  lk_ReturnURL :: string
  lk_ExpiresAt :: int
  lk_Tries :: int
  lk_UsedAt :: int

definition LoginToken_read :: "string \<Rightarrow> site_db \<Rightarrow> LoginToken option" where
  "LoginToken_read h db = map_option (\<lambda>t. \<lparr>lk_TokenHash = lt_token t, lk_Email = lt_email t, lk_CodeHash = lt_code t,
     lk_ReturnURL = lt_return t, lk_ExpiresAt = lt_expires t, lk_Tries = lt_tries t, lk_UsedAt = null_int (lt_used t)\<rparr>)
     (find (\<lambda>t. lt_token t = h) (login_tokens db))"

section \<open>The node map\<close>

record Node =
  dv_ID :: string
  dv_Addr :: string
  dv_Voter :: bool
  dv_Full :: bool

definition Nodes :: "site_db \<Rightarrow> Node list" where
  "Nodes db = map (\<lambda>n. \<lparr>dv_ID = nd_id n, dv_Addr = nd_addr n, dv_Voter = nd_voter n, dv_Full = nd_full n\<rparr>) (sort_key nd_id (node_rows db))"

record Host =
  hs_GroupID :: int
  hs_NodeID :: string
  hs_Addr :: string
  hs_Voter :: bool
  hs_Bootstrap :: bool

definition GroupHosts :: "int \<Rightarrow> site_db \<Rightarrow> Host list" where
  "GroupHosts groupID db =
     sort_key (\<lambda>h. (hs_GroupID h, hs_NodeID h))
       [\<lparr>hs_GroupID = gh_group h, hs_NodeID = gh_node h, hs_Addr = nd_addr n, hs_Voter = gh_voter h, hs_Bootstrap = gh_bootstrap h\<rparr>.
          h \<leftarrow> group_hosts db, groupID = 0 \<or> gh_group h = groupID, n \<leftarrow> node_rows db, nd_id n = gh_node h]"

definition HostedBy :: "string \<Rightarrow> site_db \<Rightarrow> (int \<times> Host) list" where
  "HostedBy nodeID db = map (\<lambda>h. (hs_GroupID h, h)) (filter (\<lambda>h. hs_NodeID h = nodeID) (GroupHosts 0 db))"

end
