(* ===== verification/Routes.thy ===== *)
theory Routes
  imports ReadsSite Sources SiteRules
begin

text \<open>
  Which site a request is for: \<^verbatim>\<open>internal/web/hosts.go\<close>. A request's host, one of the site's tables and the
  primary domain decide between the home page, a group, a redirect and nothing; sign-in's "where next"
  is checked against the same rules. URLs and lower case are \<open>net_lib\<close>'s; \<open>SplitHostPort\<close> is Go's.
\<close>

section \<open>Host and port\<close>

fun index_of :: "char \<Rightarrow> string \<Rightarrow> nat option" where
  "index_of c [] = None"
| "index_of c (x # xs) = (if x = c then Some 0 else map_option Suc (index_of c xs))"

fun last_index_of :: "char \<Rightarrow> string \<Rightarrow> nat option" where
  "last_index_of c [] = None"
| "last_index_of c (x # xs) =
     (case last_index_of c xs of Some i \<Rightarrow> Some (Suc i) | None \<Rightarrow> if x = c then Some 0 else None)"

text \<open>\<^verbatim>\<open>net.SplitHostPort\<close>: the host, or \<open>None\<close> where it returns an error.\<close>

definition SplitHostPort :: "string \<Rightarrow> string option" where
  "SplitHostPort hp =
     (case last_index_of (CHR '':'') hp of
        None \<Rightarrow> None
      | Some i \<Rightarrow>
        if hd hp = CHR ''['' then
          (case index_of (CHR '']'') hp of
             None \<Rightarrow> None
           | Some e \<Rightarrow>
             if e + 1 \<noteq> i \<or> CHR ''['' \<in> set (drop 1 hp) \<or> CHR '']'' \<in> set (drop (e + 1) hp) then None
             else Some (take (e - 1) (drop 1 hp)))
        else if CHR '':'' \<in> set (take i hp) \<or> CHR ''['' \<in> set hp \<or> CHR '']'' \<in> set hp then None
        else Some (take i hp))"

section \<open>Routing\<close>

datatype siteKind = siteUnknown | siteHome | siteGroup | siteRedirect

record route =
  rt_kind :: siteKind
  rt_primary :: string
  rt_group :: "Group option"
  rt_redirect :: string

record server =
  Dev :: bool
  PortSuffix :: string

definition scheme :: "server \<Rightarrow> string" where
  "scheme s = (if Dev s then ''http'' else ''https'')"

definition dot :: "string \<Rightarrow> string" where
  "dot d = CHR ''.'' # d"

definition groupHost :: "Group \<Rightarrow> string \<Rightarrow> string" where
  "groupHost g primary = (if gv_MainHost g \<noteq> [] then gv_MainHost g else gv_Slug g @ dot primary)"

definition primaryURL :: "server \<Rightarrow> string \<Rightarrow> string \<Rightarrow> string" where
  "primaryURL s primary path = scheme s @ ''://'' @ primary @ PortSuffix s @ path"

definition groupURL :: "server \<Rightarrow> Group \<Rightarrow> string \<Rightarrow> string \<Rightarrow> string" where
  "groupURL s g primary path = scheme s @ ''://'' @ groupHost g primary @ PortSuffix s @ path"

text \<open>What the rules make of a bare host: a redirect names the host it goes to.\<close>

datatype target = Nowhere | Home | ToGroup Group | ToHost string

fun alternate :: "string \<Rightarrow> string \<Rightarrow> (string \<times> domain_role) list \<Rightarrow> target" where
  "alternate primary host [] = Nowhere"
| "alternate primary host ((d, r) # ds) =
     (if r \<noteq> AlternateDomain then alternate primary host ds
      else if host = d \<or> host = ''www'' @ dot d then ToHost primary
      else case CutSuffix host (dot d) of
             Some sub \<Rightarrow> if CHR ''.'' \<notin> set sub then ToHost (sub @ dot primary) else alternate primary host ds
           | None \<Rightarrow> alternate primary host ds)"

definition route_host :: "site_db \<Rightarrow> string \<Rightarrow> target" where
  "route_host db host =
     (let primary = PrimaryDomain_read db in
      if host = primary then Home
      else if host = ''www'' @ dot primary then ToHost primary
      else if HasSuffix host (dot primary) then
        (let slug = take (length host - length (dot primary)) host in
         if CHR ''.'' \<in> set slug then Nowhere
         else case GroupBySlug slug db of
                None \<Rightarrow> Nowhere
              | Some g \<Rightarrow> if gv_MainHost g \<noteq> [] then ToHost (gv_MainHost g) else ToGroup g)
      else case GroupByMainHost host db of
        Some g \<Rightarrow> ToGroup g
      | None \<Rightarrow>
        (case HostAlias host db of
           (gid, True) \<Rightarrow>
             if gid = 0 then ToHost primary
             else (case GroupByID gid db of None \<Rightarrow> Nowhere | Some g \<Rightarrow> ToHost (groupHost g primary))
         | (_, False) \<Rightarrow> alternate primary host (Domains db)))"

definition host_of :: "('u, 'a) net_lib_scheme \<Rightarrow> string \<Rightarrow> string" where
  "host_of nl hostport =
     (let lowered = ToLower nl hostport;
          host = (if HasSuffix lowered ''.'' then take (length lowered - 1) lowered else lowered)
      in case SplitHostPort host of Some h \<Rightarrow> h | None \<Rightarrow> host)"

definition resolve :: "('u, 'a) net_lib_scheme \<Rightarrow> server \<Rightarrow> site_db \<Rightarrow> string \<Rightarrow> route" where
  "resolve nl s db hostport =
     (let rt = \<lparr>rt_kind = siteUnknown, rt_primary = PrimaryDomain_read db, rt_group = None, rt_redirect = []\<rparr> in
      case route_host db (host_of nl hostport) of
        Nowhere \<Rightarrow> rt
      | Home \<Rightarrow> rt\<lparr>rt_kind := siteHome\<rparr>
      | ToGroup g \<Rightarrow> rt\<lparr>rt_kind := siteGroup, rt_group := Some g\<rparr>
      | ToHost h \<Rightarrow> rt\<lparr>rt_kind := siteRedirect, rt_redirect := scheme s @ ''://'' @ h @ PortSuffix s\<rparr>)"

section \<open>Where to go after signing in\<close>

definition safeNext :: "('u, 'a) net_lib_scheme \<Rightarrow> server \<Rightarrow> site_db \<Rightarrow> string \<Rightarrow> string \<Rightarrow> string" where
  "safeNext nl s db raw primary =
     (let home = primaryURL s primary ''/'' in
      if HasPrefix raw ''/'' \<and> \<not> HasPrefix raw ''//'' \<and> \<not> HasPrefix raw [CHR ''/'', CHR 0x5C] then primaryURL s primary raw
      else case Parse nl raw of
        None \<Rightarrow> home
      | Some u \<Rightarrow>
        if Scheme nl u \<noteq> scheme s \<or> has_User nl u \<or> Host nl u = [] then home
        else if rt_kind (resolve nl s db (Host nl u)) \<notin> {siteHome, siteGroup} then home
        else URL_String nl u)"

text \<open>Where a link members typed goes (\<^verbatim>\<open>text.go\<close>); \<open>uri\<close> is \<^verbatim>\<open>url.URL.RequestURI\<close>.\<close>

definition rewriteOwnLink :: "('u, 'a) net_lib_scheme \<Rightarrow> ('u \<Rightarrow> string) \<Rightarrow> server \<Rightarrow> site_db \<Rightarrow> string \<Rightarrow> string" where
  "rewriteOwnLink nl uri s db raw =
     (case Parse nl raw of
        None \<Rightarrow> raw
      | Some u \<Rightarrow>
        if Host nl u = [] then raw
        else let rt = resolve nl s db (Host nl u) in
             if rt_kind rt \<noteq> siteRedirect then raw else rt_redirect rt @ uri u)"

section \<open>Redirects come to an end\<close>

text \<open>What a browser ends on, following at most \<open>n\<close> redirects.\<close>

fun follow :: "nat \<Rightarrow> site_db \<Rightarrow> string \<Rightarrow> target" where
  "follow 0 db host = route_host db host"
| "follow (Suc n) db host = (case route_host db host of ToHost h \<Rightarrow> follow n db h | t \<Rightarrow> t)"

fun settled :: "target \<Rightarrow> bool" where
  "settled (ToHost h) = False"
| "settled t = True"

definition under_primary :: "string \<Rightarrow> string \<Rightarrow> bool" where
  "under_primary primary host \<longleftrightarrow> host = primary \<or> HasSuffix host (dot primary)"

definition hosts_outside :: "site_db \<Rightarrow> bool" where
  "hosts_outside db \<longleftrightarrow>
     (\<forall>g \<in> set (site_groups db). \<forall>h. grp_main_host g = Some h \<longrightarrow> PrimaryDomain_read db \<noteq> []
        \<longrightarrow> \<not> under_primary (PrimaryDomain_read db) h)"

lemma HasSuffix_append [simp]: "HasSuffix (a @ b) b"
  by (simp add: HasSuffix_def)

lemma primary_settles: "route_host db (PrimaryDomain_read db) = Home"
  by (simp add: route_host_def Let_def)

lemma GroupBySlug_stored:
  "GroupBySlug s db = Some g \<Longrightarrow> \<exists>x \<in> set (site_groups db). g = scanGroup x"
  by (auto simp: GroupBySlug_def find_Some_iff)

lemma GroupByID_stored:
  "GroupByID s db = Some g \<Longrightarrow> \<exists>x \<in> set (site_groups db). g = scanGroup x"
  by (auto simp: GroupByID_def find_Some_iff)

lemma main_host_settles:
  assumes "hosts_outside db" "PrimaryDomain_read db \<noteq> []" "x \<in> set (site_groups db)" "gv_MainHost (scanGroup x) \<noteq> []"
  shows "settled (route_host db (gv_MainHost (scanGroup x)))"
proof -
  obtain h where h: "grp_main_host x = Some h" and gv: "gv_MainHost (scanGroup x) = h"
    using assms(4) by (cases "grp_main_host x") (simp_all add: scanGroup_def null_str_def)
  have out: "\<not> under_primary (PrimaryDomain_read db) h"
    using assms(1-3) h by (auto simp: hosts_outside_def)
  then have "h \<noteq> ''www'' @ dot (PrimaryDomain_read db)"
    using HasSuffix_append[of "''www''" "dot (PrimaryDomain_read db)"] by (auto simp: under_primary_def)
  moreover have "find (\<lambda>g. grp_main_host g = Some h) (site_groups db) \<noteq> None"
    using assms(3) h by (auto simp: find_None_iff)
  then obtain g where "GroupByMainHost h db = Some g"
    by (auto simp: GroupByMainHost_def)
  ultimately show ?thesis
    using out by (simp add: gv route_host_def Let_def under_primary_def)
qed

lemma slug_host_settles:
  assumes "hosts_outside db" "PrimaryDomain_read db \<noteq> []"
  shows "settled (follow 1 db (slug @ dot (PrimaryDomain_read db)))"
proof (cases "GroupBySlug slug db")
  case None
  then show ?thesis by (simp add: route_host_def Let_def primary_settles)
next
  case (Some g)
  then obtain x where "x \<in> set (site_groups db)" "g = scanGroup x" using GroupBySlug_stored by blast
  then show ?thesis using Some main_host_settles[OF assms, of x]
    by (simp add: route_host_def Let_def primary_settles)
qed

lemma alternate_cases:
  "alternate primary host ds = Nowhere \<or> alternate primary host ds = ToHost primary
   \<or> (\<exists>sub. alternate primary host ds = ToHost (sub @ dot primary))"
  by (induction primary host ds rule: alternate.induct) (auto split: option.split)

lemma route_host_cases:
  assumes "route_host db host = ToHost h"
  shows "h = PrimaryDomain_read db \<or> (\<exists>slug. h = slug @ dot (PrimaryDomain_read db))
    \<or> (\<exists>x \<in> set (site_groups db). h = gv_MainHost (scanGroup x) \<and> h \<noteq> [])"
proof -
  have "\<exists>x \<in> set (site_groups db). g = scanGroup x" if "GroupByID i db = Some g" for g i
    using that GroupByID_stored by blast
  moreover have "\<exists>x \<in> set (site_groups db). g = scanGroup x" if "GroupBySlug i db = Some g" for g i
    using that GroupBySlug_stored by blast
  ultimately show ?thesis
    using assms alternate_cases[of "PrimaryDomain_read db" host "Domains db"]
    by (auto simp: route_host_def Let_def groupHost_def split: if_splits option.splits prod.splits bool.splits; blast)
qed

lemma follow_settled: "settled (route_host db h) \<Longrightarrow> follow n db h = route_host db h"
  by (cases n; cases "route_host db h") simp_all

lemma follow_two_settles:
  assumes out: "hosts_outside db" "PrimaryDomain_read db \<noteq> []"
  shows "settled (follow 2 db host)"
proof (cases "route_host db host")
  case (ToHost h)
  have "settled (follow 1 db h)"
    using route_host_cases[OF ToHost]
  proof (elim disjE bexE exE conjE)
    assume "h = PrimaryDomain_read db"
    then show ?thesis by (simp add: primary_settles)
  next
    fix slug assume "h = slug @ dot (PrimaryDomain_read db)"
    then show ?thesis using slug_host_settles[OF out] by simp
  next
    fix x assume "x \<in> set (site_groups db)" "h = gv_MainHost (scanGroup x)" "h \<noteq> []"
    then show ?thesis using follow_settled main_host_settles[OF out] by metis
  qed
  then show ?thesis using ToHost by (simp add: numeral_2_eq_2)
qed (simp_all add: numeral_2_eq_2)

end
