(* ===== verification/RouteLaws.thy ===== *)
theory RouteLaws
  imports Routes SiteLaws
begin

text \<open>
  Where requests end up: the site's commands keep every group's own host clear of the primary domain, as
  long as the operator does not choose a primary domain that covers one, and then every redirect leads
  somewhere in two hops; a primary domain that does cover one makes that group's address redirect to itself.
  Nobody is sent off the site by signing in.
\<close>

section \<open>Hosts stay clear of the primary domain\<close>

definition clear_domain :: "site_cmd \<Rightarrow> site_db \<Rightarrow> bool" where
  "clear_domain c db =
     (case c of S_SetPrimaryDomain x \<Rightarrow> list_all (\<lambda>g. case grp_main_host g of None \<Rightarrow> True
          | Some h \<Rightarrow> \<not> under_primary (spd_Domain x) h) (site_groups db)
      | _ \<Rightarrow> True)"

definition main_hosts :: "site_db \<Rightarrow> string set" where
  "main_hosts db = {h. \<exists>g \<in> set (site_groups db). grp_main_host g = Some h}"

lemma hosts_outside_alt:
  "hosts_outside db \<longleftrightarrow> PrimaryDomain_read db \<noteq> [] \<longrightarrow> (\<forall>h \<in> main_hosts db. \<not> under_primary (PrimaryDomain_read db) h)"
  unfolding hosts_outside_def main_hosts_def by blast

lemma hosts_outside_mono:
  assumes "hosts_outside db" "PrimaryDomain_read db' = PrimaryDomain_read db" "main_hosts db' \<subseteq> main_hosts db"
  shows "hosts_outside db'"
  using assms unfolding hosts_outside_alt by auto

lemma SetPrimaryDomain_read:
  assumes "run_plan (apply_SetPrimaryDomain c) db = Inr (v, db')"
  shows "PrimaryDomain_read db' = spd_Domain c \<and> main_hosts db' = main_hosts db"
proof -
  let ?dem = "upd_where (\<lambda>d. dm_role d = PrimaryDomain \<and> dm_name d \<noteq> spd_Domain c) (\<lambda>d. d\<lparr>dm_role := AlternateDomain\<rparr>) (domains db)"
  let ?t = "upsert dm_name \<lparr>dm_name = spd_Domain c, dm_role = PrimaryDomain, dm_created = spd_At c\<rparr> (\<lambda>d. d\<lparr>dm_role := PrimaryDomain\<rparr>) ?dem"
  have db': "db' = db\<lparr>domains := ?t\<rparr>"
    using assms by (auto simp: apply_SetPrimaryDomain_def run_nilTx Let_def split: option.splits)
  have named: "dm_name d = spd_Domain c" if "d \<in> set ?t" "dm_role d = PrimaryDomain" for d
    using that by (auto simp: upsert_def upd_where_def split: if_splits)
  have "\<exists>d \<in> set (upsert dm_name r (\<lambda>d. d\<lparr>dm_role := PrimaryDomain\<rparr>) dem). dm_role d = PrimaryDomain"
    if "dm_role r = PrimaryDomain" for r dem
  proof (cases "has_key dm_name (dm_name r) dem")
    case True
    then obtain d where "d \<in> set dem" "dm_name d = dm_name r" by (auto simp: has_key_iff)
    then have "d\<lparr>dm_role := PrimaryDomain\<rparr> \<in> set (upsert dm_name r (\<lambda>d. d\<lparr>dm_role := PrimaryDomain\<rparr>) dem)"
      using True by (auto simp: upsert_def upd_where_def)
    then show ?thesis by (rule bexI[rotated]) simp
  next
    case False
    then show ?thesis using that by (simp add: upsert_def)
  qed
  from this[of "\<lparr>dm_name = spd_Domain c, dm_role = PrimaryDomain, dm_created = spd_At c\<rparr>" ?dem]
  have "\<exists>d \<in> set ?t. dm_role d = PrimaryDomain" by simp
  then obtain d where "find (\<lambda>d. dm_role d = PrimaryDomain) ?t = Some d"
    by (cases "find (\<lambda>d. dm_role d = PrimaryDomain) ?t") (auto simp: find_None_iff)
  with named[of d] find_Some_mem[of "\<lambda>d. dm_role d = PrimaryDomain" ?t d] show ?thesis
    by (simp add: db' PrimaryDomain_read_def main_hosts_def)
qed

lemma SetGroupHost_read:
  assumes "run_plan (apply_SetGroupHost lower c) db = Inr (v, db')" "hosts_outside db"
  shows "hosts_outside db'"
proof -
  let ?h = "lower (TrimSpace (sgh_Host c))"
  have db': "db' = db\<lparr>site_groups := upd_where (\<lambda>x. grp_id x = sgh_GroupID c)
      (\<lambda>x. x\<lparr>grp_main_host := (if ?h = [] then None else Some ?h)\<rparr>) (site_groups db)\<rparr>"
    and clear: "?h \<noteq> [] \<Longrightarrow> PrimaryDomain_read db \<noteq> [] \<Longrightarrow> \<not> under_primary (PrimaryDomain_read db) ?h"
    using assms(1)
    by (auto simp: apply_SetGroupHost_def run_nilTx bind_iffs Let_def PrimaryDomain_read_def under_primary_def dot_def
        split: option.splits if_splits)
  have "PrimaryDomain_read db' = PrimaryDomain_read db" by (simp add: db' PrimaryDomain_read_def)
  moreover have "h \<in> main_hosts db \<or> (h = ?h \<and> ?h \<noteq> [])" if "h \<in> main_hosts db'" for h
    using that by (auto simp: db' main_hosts_def upd_where_def split: if_splits)
  ultimately show ?thesis using assms(2) clear unfolding hosts_outside_alt by metis
qed

lemma placeNewGroup_domains: "placeNewGroup g t d = Inr d' \<Longrightarrow> domains d' = domains d \<and> site_groups d' = site_groups d"
  by (auto simp: placeNewGroup_def Let_def bind_iffs)

lemma propose_names: "propose c t d = Inr (s, d') \<Longrightarrow> domains d' = domains d \<and> site_groups d' = site_groups d"
  by (auto simp: propose_def Let_def split: option.splits if_splits)

lemma domains_sends [simp]: "domains (fold (\<lambda>g. site_send (f g) t) gs d) = domains d"
  by (induction gs arbitrary: d) simp_all

lemma names_same:
  "domains db' = domains db \<and> site_groups db' = site_groups db
    \<Longrightarrow> PrimaryDomain_read db' = PrimaryDomain_read db \<and> main_hosts db' \<subseteq> main_hosts db"
  by (simp add: PrimaryDomain_read_def main_hosts_def)

lemma names_frame:
  assumes "run_plan (site_plan lower c) db = Inr (v, db')"
    "\<forall>x. c \<noteq> S_SetPrimaryDomain x" "\<forall>x. c \<noteq> S_SetGroupHost x"
  shows "PrimaryDomain_read db' = PrimaryDomain_read db \<and> main_hosts db' \<subseteq> main_hosts db"
proof (cases c)
  case (S_SetPrimaryDomain x)
  with assms(2) show ?thesis by simp
next
  case (S_SetGroupHost x)
  with assms(3) show ?thesis by simp
next
  case (S_CreateGroup x)
  with assms(1) have "domains db' = domains db \<and> main_hosts db' \<subseteq> main_hosts db"
    by (auto simp: apply_CreateGroup_def run_nilTx bind_iffs ins_new_Inr main_hosts_def split: option.splits if_splits
        dest!: placeNewGroup_domains)
  then show ?thesis by (simp add: PrimaryDomain_read_def)
next
  case (S_AddAlternateDomain x)
  with assms(1) obtain r where "site_groups db' = site_groups db" "domains db' = domains db @ [r]" "dm_role r \<noteq> PrimaryDomain"
    by (auto simp: apply_AddAlternateDomain_def run_nilTx bind_iffs ins_ignore_def split: option.splits if_splits)
  then show ?thesis by (simp add: PrimaryDomain_read_def main_hosts_def split: option.splits)
next
  case (S_MirrorGroup x)
  with assms(1) have "domains db' = domains db" "map grp_main_host (site_groups db') = map grp_main_host (site_groups db)"
    by (auto simp: apply_MirrorGroup_def run_nilTx map_upd_where)
  then have "domains db' = domains db" "grp_main_host ` set (site_groups db') = grp_main_host ` set (site_groups db)"
    by (simp, metis list.set_map)
  moreover have "main_hosts d = {h. Some h \<in> grp_main_host ` set (site_groups d)}" for d
    by (auto simp: main_hosts_def image_iff eq_commute)
  ultimately show ?thesis by (simp add: PrimaryDomain_read_def)
next
  case (S_RedeemLogin x)
  with assms(1) show ?thesis
    by (intro names_same) (auto simp: apply_RedeemLogin_def bind_iffs Let_def sign_in_account_def start_session_def
        split: option.splits if_splits)
next
  case (S_FinishBounce x)
  with assms(1) show ?thesis
    by (intro names_same) (auto simp: apply_FinishBounce_def bind_iffs Let_def start_session_def split: option.splits if_splits)
next
  case (S_Purge x)
  with assms(1) show ?thesis
    by (intro names_same) (auto simp: apply_Purge_def run_nilTx Let_def purge_accounts_def)
next
  case (S_ProposeSister x)
  with assms(1) show ?thesis
    by (intro names_same) (auto simp: apply_ProposeSister_def Let_def bind_iffs ask_ai_Inr split: if_splits dest!: propose_names)
next
  case (S_RegisterNode x)
  with assms(1) show ?thesis
    by (intro names_same) (auto simp: apply_RegisterNode_def run_nilTx bind_iffs Let_def split: if_splits)
next
  case (S_UnplaceGroup x)
  with assms(1) show ?thesis
    by (intro names_same) (auto simp: apply_UnplaceGroup_def run_nilTx bind_iffs split: option.splits)
next
  case (S_AnswerSister x)
  with assms(1) show ?thesis
    by (intro names_same) (auto simp: apply_AnswerSister_def run_nilTx bind_iffs Let_def)
next
  case (S_SetHandle x)
  with assms(1) show ?thesis
    by (intro names_same) (auto simp: apply_SetHandle_def run_nilTx bind_iffs Let_def split: option.splits)
qed (rule names_same; insert assms(1);
    auto simp: apply_AddHostAlias_def
    apply_PutCert_def apply_CreateLogin_def apply_FailLoginCode_def apply_StartBounce_def
    apply_DeleteCert_def apply_EndSession_def apply_SuspendUser_def apply_SetNotifyPrefs_def apply_SetProfile_def
    apply_RemoveNode_def apply_PlaceGroup_def apply_EndSister_def apply_OutboxDone_site_def apply_QueueFAQ_def
    run_nilTx bind_iffs Let_def split: option.splits if_splits)+

lemma step_clear:
  assumes "run_plan (site_plan lower c) db = Inr (v, db')" "clear_domain c db" "hosts_outside db"
  shows "hosts_outside db'"
proof (cases c)
  case (S_SetPrimaryDomain x)
  with assms(1) have r: "PrimaryDomain_read db' = spd_Domain x" "main_hosts db' = main_hosts db"
    using SetPrimaryDomain_read[of x db v db'] by auto
  have "\<not> under_primary (spd_Domain x) h" if "h \<in> main_hosts db" for h
    using that assms(2) S_SetPrimaryDomain by (auto simp: main_hosts_def clear_domain_def list_all_iff split: option.splits)
  with r show ?thesis unfolding hosts_outside_alt by simp
next
  case (S_SetGroupHost x)
  with assms SetGroupHost_read[of lower x db v db'] show ?thesis by simp
qed (use names_frame[OF assms(1)] hosts_outside_mono[OF assms(3)] in simp_all)

interpretation clear: kept "site_plan lower" clear_domain hosts_outside
  by unfold_locales (auto simp: okE_iff intro: step_clear)

text \<open>C38: every redirect ends: in every file the site's commands can make, as long as no primary domain is
  chosen that a group's own host is under, a request for any host reaches the home page, a group or
  "no such group" after at most two redirects.\<close>

theorem redirects_end:
  assumes "reachable (site_plan lower) clear_domain empty_site_db db" "PrimaryDomain_read db \<noteq> []"
  shows "settled (follow 2 db host)"
proof -
  have "hosts_outside empty_site_db" by (simp add: hosts_outside_def empty_site_db_def)
  with assms(1) have "hosts_outside db" by (rule clear.everywhere)
  then show ?thesis using assms(2) by (rule follow_two_settles)
qed




lemma valid_names: "ValidDomain ''vans.club.org'' = None" "ValidDomain ''club.org'' = None" "TrimSpace ''vans.club.org'' = ''vans.club.org''"
  by code_simp+


lemma redirects_end_witness:
  "settled (follow 2 (run_all (site_plan (\<lambda>s. s)) [S_SetPrimaryDomain (SetPrimaryDomain.make ''club.org'' 4)] empty_site_db) ''www.club.org'')"
proof -
  let ?db = "run_all (site_plan (\<lambda>s. s)) [S_SetPrimaryDomain (SetPrimaryDomain.make ''club.org'' 4)] empty_site_db"
  have "reachable (site_plan (\<lambda>s. s)) clear_domain empty_site_db ?db"
    by (auto simp: empty_site_db_def step_with_def apply_SetPrimaryDomain_def SetPrimaryDomain.defs run_nilTx valid_names clear_domain_def
        intro!: reach_step[OF reach_start, where c = "S_SetPrimaryDomain (SetPrimaryDomain.make ''club.org'' 4)"])
  moreover have "PrimaryDomain_read ?db \<noteq> []"
    by (simp add: empty_site_db_def step_with_def apply_SetPrimaryDomain_def SetPrimaryDomain.defs run_nilTx valid_names
        upsert_def has_key_def PrimaryDomain_read_def Let_def)
  ultimately show ?thesis by (rule redirects_end)
qed

section \<open>Signing in sends nobody away\<close>

lemma resolve_kind:
  "rt_kind (resolve nl s db hp) \<in> {siteHome, siteGroup} \<longleftrightarrow>
     route_host db (host_of nl hp) = Home \<or> (\<exists>g. route_host db (host_of nl hp) = ToGroup g)"
  by (simp add: resolve_def Let_def split: target.split)

text \<open>C40: signing in is no open redirect: where it sends a person next is the home page, a path on the primary
  domain, or the address they gave, and that one only when its scheme is ours, it names no user, and its
  host is the home page's or a group's there is.\<close>

theorem next_stays_here:
  "safeNext nl s db raw primary = primaryURL s primary ''/''
   \<or> (hd raw = CHR ''/'' \<and> \<not> HasPrefix raw ''//'' \<and> safeNext nl s db raw primary = primaryURL s primary raw)
   \<or> (\<exists>u. Parse nl raw = Some u \<and> safeNext nl s db raw primary = URL_String nl u \<and> Scheme nl u = scheme s \<and> \<not> has_User nl u
        \<and> (route_host db (host_of nl (Host nl u)) = Home
           \<or> (\<exists>g \<in> set (site_groups db). route_host db (host_of nl (Host nl u)) = ToGroup (scanGroup g))))"
proof -
  have stored: "\<exists>x \<in> set (site_groups db). g = scanGroup x" if "route_host db h = ToGroup g" for h g
  proof -
    have "\<And>k. GroupBySlug k db = Some g \<Longrightarrow> \<exists>x \<in> set (site_groups db). g = scanGroup x" by (rule GroupBySlug_stored)
    moreover have "GroupByMainHost h db = Some g \<Longrightarrow> \<exists>x \<in> set (site_groups db). g = scanGroup x"
      by (auto simp: GroupByMainHost_def dest!: find_Some_mem)
    ultimately show ?thesis using that alternate_cases[of "PrimaryDomain_read db" h "Domains db"]
      by (auto simp: route_host_def Let_def split: if_splits option.splits prod.splits bool.splits)
  qed
  show ?thesis
  proof (cases "HasPrefix raw ''/'' \<and> \<not> HasPrefix raw ''//'' \<and> \<not> HasPrefix raw [CHR ''/'', CHR 0x5C]")
    case True
    then have "hd raw = CHR ''/''" by (cases raw) (auto simp: HasPrefix_def)
    with True show ?thesis by (simp add: safeNext_def Let_def)
  next
    case False
    then have "safeNext nl s db raw primary = (case Parse nl raw of None \<Rightarrow> primaryURL s primary ''/''
      | Some u \<Rightarrow> if Scheme nl u \<noteq> scheme s \<or> has_User nl u \<or> Host nl u = [] then primaryURL s primary ''/''
        else if rt_kind (resolve nl s db (Host nl u)) \<notin> {siteHome, siteGroup} then primaryURL s primary ''/''
        else URL_String nl u)"
      unfolding safeNext_def Let_def by (rule if_not_P)
    then show ?thesis using resolve_kind[of nl s db] stored
      by (auto split: option.splits if_splits)
  qed
qed

end
